(* ===== verification/Prelude.thy ===== *)
theory Prelude
  imports Main "HOL-Library.Word" "HOL-Library.List_Lexorder" "HOL-Library.Char_ord"
begin

text \<open>
  What every component shares: the names of the Go types (\<open>byte\<close>, \<open>uint64\<close>, \<open>time.Time\<close>), the
  parts of Go's standard library the sources use (\<open>encoding/binary\<close>, \<open>encoding/hex\<close>,
  \<open>strconv\<close>), the upward counting loop over \<open>uint64\<close>, and generic lemmas on lists, maps and
  words. A byte slice is a \<open>bytes\<close>; \<open>nil\<close> and the empty slice are the same list unless a
  definition says otherwise. An instant is an \<open>int\<close>, nanoseconds since the Unix epoch.
\<close>

named_theorems codec_simps \<open>round trips and lengths of the byte encodings\<close>
named_theorems u64_arith \<open>reading uint64 arithmetic as natural numbers\<close>

type_synonym byte = "8 word"
type_synonym bytes = "byte list"
type_synonym u64 = "64 word"
type_synonym instant = int

section \<open>Words\<close>

lemma unat_add_no_wrap [u64_arith]:
  "unat (a :: u64) + unat b < 2 ^ 64 \<Longrightarrow> unat (a + b) = unat a + unat b"
  by (simp add: unat_word_ariths)

lemma unat_mult_no_wrap [u64_arith]:
  "unat (a :: u64) * unat b < 2 ^ 64 \<Longrightarrow> unat (a * b) = unat a * unat b"
  by (simp add: unat_word_ariths)

lemma unat_sub_no_wrap [u64_arith]:
  "(b :: u64) \<le> a \<Longrightarrow> unat (a - b) = unat a - unat b"
  by (rule unat_sub)

lemma unat_div_u64 [u64_arith]: "unat ((a :: u64) div b) = unat a div unat b"
  by (simp add: unat_div)

lemma unat_u64_bound: "unat (a :: u64) < 2 ^ 64"
  using unsigned_less [of a, where ?'a = nat] by simp

lemma unat_byte_bound: "unat (b :: byte) < 256"
  using unsigned_less [of b, where ?'a = nat] by simp

lemma unat_less_2_64 [simp]: "unat (a :: u64) < 18446744073709551616"
  using unat_u64_bound [of a] by simp

lemma u64_le_iff: "(a :: u64) \<le> b \<longleftrightarrow> unat a \<le> unat b"
  by (rule word_le_nat_alt)

lemma u64_less_iff: "(a :: u64) < b \<longleftrightarrow> unat a < unat b"
  by (rule word_less_nat_alt)

lemma u64_eq_iff: "(a :: u64) = b \<longleftrightarrow> unat a = unat b"
  by (simp add: word_unat_eq_iff)

lemmas u64_order = u64_le_iff u64_less_iff u64_eq_iff

lemma unat_of_nat_u64 [simp]: "n < 18446744073709551616 \<Longrightarrow> unat (of_nat n :: u64) = n"
  by (simp add: unat_of_nat take_bit_nat_eq_self)

lemma u64_less_succ: "(s :: u64) < t \<Longrightarrow> s < s + 1"
  using unat_u64_bound [of t] unat_add_no_wrap [of s 1]
  by (simp add: word_less_nat_alt del: unat_less_2_64)

lemma u64_pred_less: "(t :: u64) < s \<Longrightarrow> s - 1 < s"
  by (simp add: word_less_nat_alt word_le_nat_alt unat_sub_no_wrap)

section \<open>Fixed-width integers as bytes (encoding/binary)\<close>

text \<open>The \<open>n\<close> base-256 digits of a number, least significant first, and their value.\<close>

fun digits_le :: "nat \<Rightarrow> nat \<Rightarrow> bytes" where
  "digits_le 0 x = []"
| "digits_le (Suc n) x = word_of_nat (x mod 256) # digits_le n (x div 256)"

fun value_le :: "bytes \<Rightarrow> nat" where
  "value_le [] = 0"
| "value_le (b # bs) = unat b + 256 * value_le bs"

definition PutUint64_LE :: "u64 \<Rightarrow> bytes" where
  "PutUint64_LE v = digits_le 8 (unat v)"

definition Uint64_LE :: "bytes \<Rightarrow> u64" where
  "Uint64_LE bs = word_of_nat (value_le (take 8 bs))"

definition PutUint64_BE :: "u64 \<Rightarrow> bytes" where
  "PutUint64_BE v = rev (digits_le 8 (unat v))"

lemma length_digits_le [simp]: "length (digits_le n x) = n"
  by (induction n arbitrary: x) auto

lemma unat_byte_mod [simp]: "unat (word_of_nat (x mod 256) :: byte) = x mod 256"
  by (simp add: unat_of_nat take_bit_nat_eq_self)

lemma value_digits_le: "value_le (digits_le n x) = x mod 256 ^ n"
proof (induction n arbitrary: x)
  case 0
  then show ?case by simp
next
  case (Suc n)
  have "x mod (256 * 256 ^ n) = 256 * (x div 256 mod 256 ^ n) + x mod 256"
    by (rule mod_mult2_eq)
  with Suc.IH [of "x div 256"] show ?case by simp
qed

lemma value_le_bound: "value_le bs < 256 ^ length bs"
proof (induction bs)
  case (Cons b bs)
  have "unat b < 256" by (rule unat_byte_bound)
  with Cons.IH show ?case by simp
qed simp

lemma digits_value_le: "digits_le (length bs) (value_le bs) = bs"
proof (induction bs)
  case (Cons b bs)
  have b: "unat b < 256" by (rule unat_byte_bound)
  then have "(unat b + 256 * value_le bs) mod 256 = unat b"
    and "(unat b + 256 * value_le bs) div 256 = value_le bs"
    by (simp_all add: mod_mult_self2)
  with Cons.IH show ?case by simp
qed simp

lemma length_PutUint64_LE [simp, codec_simps]: "length (PutUint64_LE v) = 8"
  by (simp add: PutUint64_LE_def)

lemma Uint64_PutUint64_append [simp, codec_simps]: "Uint64_LE (PutUint64_LE v @ bs) = v"
proof -
  have "value_le (digits_le 8 (unat v)) = unat v"
    using unat_u64_bound [of v] by (simp add: value_digits_le)
  then show ?thesis
    by (simp add: Uint64_LE_def PutUint64_LE_def)
qed

lemma Uint64_PutUint64 [simp, codec_simps]: "Uint64_LE (PutUint64_LE v) = v"
  using Uint64_PutUint64_append [of v "[]"] by simp

lemma PutUint64_Uint64 [codec_simps]: "length bs = 8 \<Longrightarrow> PutUint64_LE (Uint64_LE bs) = bs"
  using value_le_bound [of bs] digits_value_le [of bs]
  by (simp add: PutUint64_LE_def Uint64_LE_def)

section \<open>Decimal and hexadecimal text (strconv, encoding/hex)\<close>

definition digit_char :: "nat \<Rightarrow> char" where
  "digit_char d = (if d < 10 then char_of (48 + d) else char_of (87 + d))"

fun decimal :: "nat \<Rightarrow> string" where
  "decimal n = (if n < 10 then [digit_char n] else decimal (n div 10) @ [digit_char (n mod 10)])"

declare decimal.simps [simp del]

definition FormatUint :: "u64 \<Rightarrow> string" where
  "FormatUint v = decimal (unat v)"

text \<open>The \<open>n\<close> hexadecimal digits of a number, most significant first.\<close>

fun hex_digits :: "nat \<Rightarrow> nat \<Rightarrow> string" where
  "hex_digits 0 x = []"
| "hex_digits (Suc n) x = hex_digits n (x div 16) @ [digit_char (x mod 16)]"

definition hex_byte :: "byte \<Rightarrow> string" where
  "hex_byte b = hex_digits 2 (unat b)"

definition EncodeToString :: "bytes \<Rightarrow> string" where
  "EncodeToString bs = concat (map hex_byte bs)"

lemma of_char_digit_char:
  "d < 16 \<Longrightarrow> (of_char (digit_char d) :: nat) = (if d < 10 then 48 + d else 87 + d)"
  by (simp add: digit_char_def of_char_of)

definition digit_code :: "nat \<Rightarrow> nat" where
  "digit_code d = (if d < 10 then 48 + d else 87 + d)"

lemma of_char_digit: "d < 16 \<Longrightarrow> of_char (digit_char d) = digit_code d"
  unfolding digit_code_def by (rule of_char_digit_char)

lemma digit_code_less: "digit_code c < digit_code d \<longleftrightarrow> c < d"
  by (simp add: digit_code_def)

lemma digit_char_less: "c < 16 \<Longrightarrow> d < 16 \<Longrightarrow> digit_char c < digit_char d \<longleftrightarrow> c < d"
  by (simp add: less_char_def of_char_digit digit_code_less)

lemma digit_char_inj: "c < 16 \<Longrightarrow> d < 16 \<Longrightarrow> digit_char c = digit_char d \<longleftrightarrow> c = d"
  using digit_char_less [of c d] digit_char_less [of d c] by (metis less_irrefl nat_neq_iff)

lemma decimal_neq_Nil [simp]: "decimal n \<noteq> []"
  by (subst decimal.simps) simp

lemma decimal_inj: "decimal m = decimal n \<longleftrightarrow> m = n"
proof (induction m arbitrary: n rule: decimal.induct)
  case (1 m)
  consider "m < 10 \<and> n < 10" | "m < 10 \<and> \<not> n < 10" | "\<not> m < 10 \<and> n < 10" | "\<not> m < 10 \<and> \<not> n < 10"
    by blast
  then show ?case
  proof cases
    case 4
    then have "decimal m = decimal n \<longleftrightarrow> m div 10 = n div 10 \<and> m mod 10 = n mod 10"
      using 1 by (simp add: decimal.simps [of m] decimal.simps [of n] digit_char_inj)
    also have "\<dots> \<longleftrightarrow> m = n"
      using div_mult_mod_eq [of m 10] div_mult_mod_eq [of n 10] by metis
    finally show ?thesis .
  qed (auto simp: decimal.simps [of m] decimal.simps [of n] digit_char_inj append_eq_Cons_conv
      Cons_eq_append_conv)
qed

lemma FormatUint_inj [simp]: "FormatUint a = FormatUint b \<longleftrightarrow> a = b"
  by (simp add: FormatUint_def decimal_inj word_unat_eq_iff)

lemma length_hex_digits [simp]: "length (hex_digits n x) = n"
  by (induction n arbitrary: x) auto

lemma digit_char_plain: "d < 16 \<Longrightarrow> digit_char d \<noteq> CHR ''/'' \<and> digit_char d \<noteq> CHR ''.''"
proof -
  assume "d < 16"
  then have "of_char (digit_char d) \<noteq> (of_char (CHR ''/'') :: nat)" "of_char (digit_char d) \<noteq> (of_char (CHR ''.'') :: nat)"
    by (simp_all add: of_char_digit digit_code_def)
  then show ?thesis by metis
qed

lemma decimal_plain: "c \<in> set (decimal n) \<Longrightarrow> c \<noteq> CHR ''/'' \<and> c \<noteq> CHR ''.''"
proof (induction n rule: decimal.induct)
  case (1 n)
  have "n mod 10 < 16" using mod_less_divisor [of 10 n] by linarith
  from digit_char_plain [OF this] 1 show ?case by (auto simp: decimal.simps [of n] split: if_splits)
qed

lemma decimal_chars: "c \<in> set (decimal n) \<Longrightarrow> c \<noteq> CHR ''/''"
  using decimal_plain by blast

lemma hex_digits_plain: "c \<in> set (hex_digits n x) \<Longrightarrow> c \<noteq> CHR ''/'' \<and> c \<noteq> CHR ''.''"
  using digit_char_plain [of "_ mod 16"] by (induction n arbitrary: x) auto

lemma EncodeToString_plain: "c \<in> set (EncodeToString bs) \<Longrightarrow> c \<noteq> CHR ''/'' \<and> c \<noteq> CHR ''.''"
  using hex_digits_plain by (auto simp: EncodeToString_def hex_byte_def)

lemma hex_digits_inj: "x < 16 ^ n \<Longrightarrow> y < 16 ^ n \<Longrightarrow> hex_digits n x = hex_digits n y \<Longrightarrow> x = y"
proof (induction n arbitrary: x y)
  case (Suc n)
  have d: "digit_char (x mod 16) = digit_char (y mod 16)" "hex_digits n (x div 16) = hex_digits n (y div 16)"
    using Suc.prems(3) by simp_all
  have "x mod 16 = y mod 16" using d(1) digit_char_inj by simp
  moreover have "x div 16 = y div 16" using Suc d(2) by (simp add: less_mult_imp_div_less)
  ultimately show ?case by (metis div_mult_mod_eq)
qed simp

lemma hex_byte_inj: "hex_byte a = hex_byte b \<Longrightarrow> a = b"
  using hex_digits_inj [of "unat a" 2 "unat b"] unat_byte_bound [of a] unat_byte_bound [of b]
  by (simp add: hex_byte_def word_unat_eq_iff)

lemma EncodeToString_inj: "EncodeToString a = EncodeToString b \<Longrightarrow> a = b"
proof (induction a arbitrary: b)
  case Nil
  then show ?case by (cases b) (simp_all add: EncodeToString_def hex_byte_def numeral_2_eq_2)
next
  case (Cons x a)
  then show ?case
  proof (cases b)
    case Nil
    with Cons.prems show ?thesis by (simp add: EncodeToString_def hex_byte_def numeral_2_eq_2)
  next
    case b: (Cons y b')
    have "length (hex_byte x) = length (hex_byte y)" by (simp add: hex_byte_def)
    with Cons.prems b have "hex_byte x = hex_byte y \<and> EncodeToString a = EncodeToString b'"
      by (simp add: EncodeToString_def append_eq_append_conv)
    with Cons.IH hex_byte_inj b show ?thesis by blast
  qed
qed

lemma less_append_snoc:
  "length xs = length ys \<Longrightarrow> (xs @ [a] < ys @ [b]) = (xs < ys \<or> xs = ys \<and> (a :: 'a :: order) < b)"
  by (induction xs ys rule: list_induct2) auto

lemma less_16_split: "(x :: nat) < y \<longleftrightarrow> x div 16 < y div 16 \<or> x div 16 = y div 16 \<and> x mod 16 < y mod 16"
proof -
  have *: "16 * a + r < 16 * b + s \<longleftrightarrow> a < b \<or> a = b \<and> r < s" if "r < 16" "s < 16" for a b r s :: nat
    using that by arith
  show ?thesis
    using * [of "x mod 16" "y mod 16" "x div 16" "y div 16"] by simp
qed

text \<open>The lexicographic order of fixed-width hexadecimal text is the numeric order.\<close>

lemma hex_digits_less:
  "x < 16 ^ n \<Longrightarrow> y < 16 ^ n \<Longrightarrow> hex_digits n x < hex_digits n y \<longleftrightarrow> x < y"
proof (induction n arbitrary: x y)
  case (Suc n)
  have "x div 16 < 16 ^ n" and "y div 16 < 16 ^ n"
    using Suc.prems by (simp_all add: less_mult_imp_div_less)
  note IH = Suc.IH [OF this] Suc.IH [OF this(2,1)]
  have eq: "hex_digits n (x div 16) = hex_digits n (y div 16) \<longleftrightarrow> x div 16 = y div 16"
    using IH by (metis less_irrefl nat_neq_iff)
  have "hex_digits (Suc n) x < hex_digits (Suc n) y \<longleftrightarrow>
      x div 16 < y div 16 \<or> x div 16 = y div 16 \<and> x mod 16 < y mod 16"
    using IH(1) by (simp add: less_append_snoc eq digit_char_less)
  also have "\<dots> \<longleftrightarrow> x < y"
    by (rule less_16_split [symmetric])
  finally show ?case .
qed simp

lemma hex_digits_append: "hex_digits (m + n) x = hex_digits m (x div 16 ^ n) @ hex_digits n (x mod 16 ^ n)"
proof (induction n arbitrary: x)
  case (Suc n)
  have "x mod (16 * 16 ^ n) div 16 = x div 16 mod 16 ^ n" "x mod (16 * 16 ^ n) mod 16 = x mod 16"
    by (simp_all add: mod_mult2_eq)
  with Suc.IH [of "x div 16"] show ?case by (simp add: div_mult2_eq)
qed simp

section \<open>The counting loop over uint64\<close>

text \<open>
  \<open>for h := lo; h <= hi; h++\<close>: the values of \<open>h\<close>, in order. When \<open>hi\<close> is the largest
  \<open>uint64\<close> the increment wraps and the loop does not end, which is the value \<open>None\<close>.
\<close>

partial_function (option) upto_loop :: "u64 \<Rightarrow> u64 \<Rightarrow> u64 list option" where
  "upto_loop lo hi =
     (if lo \<le> hi
      then Option.bind (upto_loop (lo + 1) hi) (\<lambda>hs. Some (lo # hs))
      else Some [])"

definition u64_range :: "u64 \<Rightarrow> u64 \<Rightarrow> u64 list" where
  "u64_range lo hi = map word_of_nat [unat lo..<Suc (unat hi)]"

lemma unat_Suc_u64: "(a :: u64) < b \<Longrightarrow> unat (a + 1) = Suc (unat a)"
proof -
  assume "a < b"
  then have "unat a < unat b" by (simp add: u64_less_iff)
  with unat_u64_bound [of b] have "Suc (unat a) < 2 ^ 64" by linarith
  then show ?thesis by (simp add: unat_word_ariths)
qed

lemma u64_range_Cons: "lo \<le> hi \<Longrightarrow> hi < - 1 \<Longrightarrow> u64_range lo hi = lo # u64_range (lo + 1) hi"
  using unat_Suc_u64 [of lo "- 1"] order.strict_trans1 [of lo hi "- 1"]
  by (simp add: u64_range_def u64_le_iff upt_conv_Cons del: upt_Suc)

theorem upto_loop_range: "hi < - 1 \<Longrightarrow> upto_loop lo hi = Some (u64_range lo hi)"
proof (induction "Suc (unat hi) - unat lo" arbitrary: lo)
  case 0
  then show ?case
    by (subst upto_loop.simps) (simp add: u64_range_def u64_le_iff)
next
  case (Suc n)
  then have le: "lo \<le> hi" by (simp add: u64_le_iff)
  with Suc.prems have "unat (lo + 1) = Suc (unat lo)"
    using unat_Suc_u64 [of lo "- 1"] by simp
  with Suc.hyps have "upto_loop (lo + 1) hi = Some (u64_range (lo + 1) hi)"
    using Suc.prems by simp
  with le Suc.prems show ?case
    by (subst upto_loop.simps) (simp add: u64_range_Cons)
qed

lemma set_u64_range: "set (u64_range lo hi) = {h. lo \<le> h \<and> h \<le> hi}"
proof (intro set_eqI iffI)
  fix h assume "h \<in> set (u64_range lo hi)"
  then obtain n where n: "unat lo \<le> n" "n \<le> unat hi" "h = word_of_nat n"
    by (auto simp: u64_range_def)
  then have "unat h = n" by (simp add: le_unat_uoi)
  with n show "h \<in> {h. lo \<le> h \<and> h \<le> hi}" by (simp add: u64_le_iff)
next
  fix h assume "h \<in> {h. lo \<le> h \<and> h \<le> hi}"
  then show "h \<in> set (u64_range lo hi)"
    by (auto simp: u64_range_def u64_le_iff image_iff simp del: upt_Suc intro!: bexI [of _ "unat h"])
qed

lemma distinct_u64_range: "distinct (u64_range lo hi)"
proof -
  have "inj_on (word_of_nat :: nat \<Rightarrow> u64) (set [unat lo..<Suc (unat hi)])"
  proof (rule inj_onI)
    fix m n assume "m \<in> set [unat lo..<Suc (unat hi)]" "n \<in> set [unat lo..<Suc (unat hi)]"
      and eq: "(word_of_nat m :: u64) = word_of_nat n"
    then have "m \<le> unat hi" "n \<le> unat hi" by (auto simp del: upt_Suc)
    with arg_cong [OF eq, of unat] show "m = n" by (simp add: le_unat_uoi)
  qed
  then show ?thesis by (simp add: u64_range_def distinct_map del: upt_Suc)
qed

section \<open>Results\<close>

text \<open>A Go function that returns a value or an error is a sum; \<open>bindE\<close> is \<open>if err != nil { return err }\<close>, and
  \<open>check\<close> turns a call that only returns an error into a step of such a function.\<close>

definition bindE :: "'e + 'a \<Rightarrow> ('a \<Rightarrow> 'e + 'b) \<Rightarrow> 'e + 'b" where
  "bindE m f = (case m of Inl e \<Rightarrow> Inl e | Inr x \<Rightarrow> f x)"

definition check :: "'e option \<Rightarrow> 'a \<Rightarrow> 'e + 'a" where
  "check e x = (case e of Some e \<Rightarrow> Inl e | None \<Rightarrow> Inr x)"

definition mapE :: "('e \<Rightarrow> 'f) \<Rightarrow> 'e + 'a \<Rightarrow> 'f + 'a" where
  "mapE f m = (case m of Inl e \<Rightarrow> Inl (f e) | Inr x \<Rightarrow> Inr x)"

lemma bindE_simps [simp]: "bindE (Inl e) f = Inl e" "bindE (Inr x) f = f x"
  by (simp_all add: bindE_def)

lemma bindE_eq_Inr: "bindE m f = Inr y \<longleftrightarrow> (\<exists>x. m = Inr x \<and> f x = Inr y)"
  by (cases m) simp_all

lemma bindE_cong [fundef_cong]: "m = m' \<Longrightarrow> (\<And>x. m' = Inr x \<Longrightarrow> f x = f' x) \<Longrightarrow> bindE m f = bindE m' f'"
  by (cases m') simp_all

lemma check_simps [simp]: "check None x = Inr x" "check (Some e) x = Inl e"
  by (simp_all add: check_def)

lemma check_eq_Inr: "check e x = Inr y \<longleftrightarrow> e = None \<and> x = y"
  by (cases e) simp_all

lemma mapE_simps [simp]: "mapE f (Inl e) = Inl (f e)" "mapE f (Inr x) = Inr x"
  by (simp_all add: mapE_def)

lemma mapE_eq_Inr [simp]: "mapE f m = Inr y \<longleftrightarrow> m = Inr y"
  by (cases m) simp_all

lemma mapE_Inl [simp]: "mapE f m = Inl y \<longleftrightarrow> (\<exists>e. m = Inl e \<and> y = f e)"
  by (cases m) auto

text \<open>A loop over a slice that stops at the first error.\<close>

fun traverse :: "('a \<Rightarrow> 'e + 'b) \<Rightarrow> 'a list \<Rightarrow> 'e + 'b list" where
  "traverse f [] = Inr []"
| "traverse f (x # xs) = bindE (f x) (\<lambda>y. bindE (traverse f xs) (\<lambda>ys. Inr (y # ys)))"

lemma traverse_Inr: "traverse f xs = Inr ys \<longleftrightarrow> list_all2 (\<lambda>x y. f x = Inr y) xs ys"
  by (induction xs arbitrary: ys) (auto simp: bindE_eq_Inr list_all2_Cons1)

lemma traverse_length: "traverse f xs = Inr ys \<Longrightarrow> length ys = length xs"
  by (auto simp: traverse_Inr dest: list_all2_lengthD)

section \<open>Loops with a body\<close>

text \<open>\<open>for h := lo; h <= hi; h++\<close> with a body that changes a state and may leave the loop, with \<open>Some e\<close>. It does not
  end by itself when \<open>hi\<close> is the largest \<open>uint64\<close>.\<close>

partial_function (option) for_upto :: "(u64 \<Rightarrow> 's \<Rightarrow> 's \<times> 'e option) \<Rightarrow> u64 \<Rightarrow> u64 \<Rightarrow> 's \<Rightarrow> ('s \<times> 'e option) option" where
  "for_upto body lo hi s =
     (if lo \<le> hi
      then (case body lo s of (s', Some e) \<Rightarrow> Some (s', Some e) | (s', None) \<Rightarrow> for_upto body (lo + 1) hi s')
      else Some (s, None))"

fun run_body :: "('a \<Rightarrow> 's \<Rightarrow> 's \<times> 'e option) \<Rightarrow> 'a list \<Rightarrow> 's \<Rightarrow> 's \<times> 'e option" where
  "run_body body [] s = (s, None)"
| "run_body body (x # xs) s = (case body x s of (s', Some e) \<Rightarrow> (s', Some e) | (s', None) \<Rightarrow> run_body body xs s')"

lemma for_upto_range: "hi < - 1 \<Longrightarrow> for_upto body lo hi s = Some (run_body body (u64_range lo hi) s)"
proof (induction "Suc (unat hi) - unat lo" arbitrary: lo s)
  case 0
  then show ?case by (subst for_upto.simps) (simp add: u64_range_def u64_le_iff)
next
  case (Suc n)
  then have le: "lo \<le> hi" by (simp add: u64_le_iff)
  with Suc.prems have "unat (lo + 1) = Suc (unat lo)" using unat_Suc_u64 [of lo "- 1"] by simp
  with Suc.hyps have "for_upto body (lo + 1) hi s' = Some (run_body body (u64_range (lo + 1) hi) s')" for s'
    using Suc.prems by simp
  with le Suc.prems show ?case
    by (subst for_upto.simps) (simp add: u64_range_Cons split: prod.splits option.splits)
qed

text \<open>What every iteration keeps holds after the loop.\<close>

lemma run_body_invariant:
  assumes "run_body body xs s = (s', r)" "P s" "\<And>x s s' r. x \<in> set xs \<Longrightarrow> P s \<Longrightarrow> body x s = (s', r) \<Longrightarrow> P s'"
  shows "P s'"
  using assms
proof (induction xs arbitrary: s)
  case (Cons x xs)
  obtain s1 o1 where b: "body x s = (s1, o1)" by fastforce
  have P1: "P s1" by (rule Cons.prems(3) [OF _ Cons.prems(2) b]) simp
  have step: "x' \<in> set xs \<Longrightarrow> P t \<Longrightarrow> body x' t = (t', q) \<Longrightarrow> P t'" for x' t t' q by (rule Cons.prems(3)) simp_all
  from Cons.prems(1) b show ?case
    using Cons.IH [OF _ P1 step] P1 by (cases o1) auto
qed simp

lemma for_upto_invariant:
  assumes "for_upto body lo hi s = Some (s', r)" "P s" "\<And>x s s' r. P s \<Longrightarrow> body x s = (s', r) \<Longrightarrow> P s'"
  shows "P s'"
proof -
  have "P s \<longrightarrow> (\<forall>x s s' r. P s \<longrightarrow> body x s = (s', r) \<longrightarrow> P s') \<longrightarrow> P (fst (s', r))"
  proof (rule for_upto.raw_induct [OF _ assms(1)])
    fix f body lo hi s y
    assume IH: "\<And>body lo hi s y. f body lo hi s = Some y \<Longrightarrow>
        P s \<longrightarrow> (\<forall>x s s' r. P s \<longrightarrow> body x s = (s', r) \<longrightarrow> P s') \<longrightarrow> P (fst y)"
      and eq: "(if lo \<le> hi then (case body lo s of (s', Some e) \<Rightarrow> Some (s', Some e) | (s', None) \<Rightarrow> f body (lo + 1) hi s')
        else Some (s, None)) = Some y"
    obtain s1 o1 where b: "body lo s = (s1, o1)" by fastforce
    show "P s \<longrightarrow> (\<forall>x s s' r. P s \<longrightarrow> body x s = (s', r) \<longrightarrow> P s') \<longrightarrow> P (fst y)"
    proof (intro impI)
      assume P: "P s" and step: "\<forall>x s s' r. P s \<longrightarrow> body x s = (s', r) \<longrightarrow> P s'"
      from P step b have P1: "P s1" by blast
      show "P (fst y)"
        using eq b P P1 IH [of body "lo + 1" hi s1 y] step by (cases "lo \<le> hi"; cases o1) auto
    qed
  qed
  then show ?thesis using assms(2, 3) by auto
qed

end
