(* ===== verification/Epoch.thy ===== *)
theory Epoch
  imports Prelude
begin

text \<open>
  DA epochs (\<open>types/epoch.go\<close>): the number of the epoch a DA height falls in, and the first and
  last height of that epoch. The arithmetic is the source's, on \<open>uint64\<close> with wrap-around.
\<close>

definition CalculateEpochNumber :: "u64 \<Rightarrow> u64 \<Rightarrow> u64 \<Rightarrow> u64" where
  "CalculateEpochNumber daHeight daStartHeight daEpochSize =
     (if daHeight < daStartHeight then 0
      else if daEpochSize = 0 then 1
      else (daHeight - daStartHeight) div daEpochSize + 1)"

definition CalculateEpochBoundaries :: "u64 \<Rightarrow> u64 \<Rightarrow> u64 \<Rightarrow> u64 \<times> u64 \<times> u64" where
  "CalculateEpochBoundaries daHeight daStartHeight daEpochSize =
     (let epochNum = CalculateEpochNumber daHeight daStartHeight daEpochSize in
      if daEpochSize = 0 then (daStartHeight, daStartHeight, epochNum)
      else if daHeight < daStartHeight then
        (daStartHeight, daStartHeight + daEpochSize - 1, epochNum)
      else
        (daStartHeight + (epochNum - 1) * daEpochSize,
         daStartHeight + epochNum * daEpochSize - 1,
         epochNum))"

section \<open>Epochs as natural-number intervals\<close>

lemma unat_CalculateEpochNumber:
  assumes "st \<le> h" and "sz \<noteq> 0" and "unat h + unat sz < 2 ^ 64"
  shows "unat (CalculateEpochNumber h st sz) = Suc ((unat h - unat st) div unat sz)"
proof -
  have "(unat h - unat st) div unat sz \<le> unat h"
    by (meson diff_le_self div_le_dividend le_trans)
  moreover have "0 < unat sz"
    using assms(2) by (simp add: unat_gt_0)
  ultimately have "unat ((h - st) div sz) + unat (1 :: u64) < 2 ^ 64"
    using assms by (simp add: unat_div_u64 unat_sub_no_wrap)
  then show ?thesis
    using assms unat_add_no_wrap [of "(h - st) div sz" 1]
    by (simp add: CalculateEpochNumber_def unat_div_u64 unat_sub_no_wrap not_less)
qed

lemma epoch_offset_bounds:
  fixes h st sz :: nat
  assumes "st \<le> h" and "0 < sz"
  shows "st + (h - st) div sz * sz \<le> h" and "h < st + Suc ((h - st) div sz) * sz"
proof -
  define q where "q = (h - st) div sz * sz"
  have "q \<le> h - st" unfolding q_def by (rule div_times_less_eq_dividend)
  then show "st + (h - st) div sz * sz \<le> h" using assms(1) by (simp add: q_def [symmetric])
  have "h - st < sz + q"
    unfolding q_def using dividend_less_div_times [OF assms(2), of "h - st"] by simp
  then show "h < st + Suc ((h - st) div sz) * sz" using assms(1) by (simp add: q_def [symmetric])
qed

lemma CalculateEpochBoundaries_nat:
  assumes "st \<le> h" and "sz \<noteq> 0" and "unat h + unat sz < 2 ^ 64"
    and "CalculateEpochBoundaries h st sz = (s, e, n)"
  defines "k \<equiv> (unat h - unat st) div unat sz"
  shows "unat s = unat st + k * unat sz" and "Suc (unat e) = unat st + Suc k * unat sz"
    and "unat n = Suc k"
proof -
  have st: "unat st \<le> unat h" and sz: "0 < unat sz"
    using assms(1,2) by (simp_all add: u64_le_iff unat_gt_0)
  note off = epoch_offset_bounds [OF st sz, folded k_def]
  show n: "unat n = Suc k"
    using assms unat_CalculateEpochNumber [OF assms(1-3)]
    by (simp add: CalculateEpochBoundaries_def Let_def split: if_splits)
  have eqs: "s = st + (n - 1) * sz" "e = st + n * sz - 1"
    using assms(1,2,4) by (auto simp: CalculateEpochBoundaries_def Let_def not_less split: if_splits)
  have fit: "unat st + Suc k * unat sz < 2 ^ 64"
    using off(1) assms(3) by simp
  then have fit': "unat st + k * unat sz < 2 ^ 64" "Suc k * unat sz < 2 ^ 64" "k * unat sz < 2 ^ 64"
    by simp_all
  have "1 \<le> n" using n by (simp add: u64_le_iff)
  then have n1: "unat (n - 1) = k" using n by (simp add: unat_sub_no_wrap)
  have "unat ((n - 1) * sz) = k * unat sz"
    using n1 fit' unat_mult_no_wrap [of "n - 1" sz] by simp
  then show "unat s = unat st + k * unat sz"
    using eqs(1) fit' unat_add_no_wrap [of st "(n - 1) * sz"] by simp
  have "unat (n * sz) = Suc k * unat sz"
    using n fit' unat_mult_no_wrap [of n sz] by simp
  then have e1: "unat (st + n * sz) = unat st + Suc k * unat sz"
    using fit unat_add_no_wrap [of st "n * sz"] by simp
  moreover have "1 \<le> st + n * sz"
    using e1 sz by (simp add: u64_le_iff)
  ultimately show "Suc (unat e) = unat st + Suc k * unat sz"
    using eqs(2) sz by (simp add: unat_sub_no_wrap)
qed

lemma div_eq_interval:
  fixes x k d :: nat
  assumes "0 < d"
  shows "x div d = k \<longleftrightarrow> k * d \<le> x \<and> x < Suc k * d"
proof
  assume "x div d = k"
  then show "k * d \<le> x \<and> x < Suc k * d"
    using div_times_less_eq_dividend [of x d] dividend_less_div_times [OF assms, of x] by auto
next
  assume "k * d \<le> x \<and> x < Suc k * d"
  then show "x div d = k"
    using assms by (metis div_nat_eqI mult.commute)
qed

lemma CalculateEpochNumber_eq_iff:
  assumes "sz \<noteq> 0" and "0 < unat n"
  shows "st \<le> h \<and> CalculateEpochNumber h st sz = n \<longleftrightarrow>
    st \<le> h \<and> (unat h - unat st) div unat sz = unat n - 1"
proof -
  have "CalculateEpochNumber h st sz = n \<longleftrightarrow> (h - st) div sz = n - 1" if "st \<le> h"
    using that assms(1) by (auto simp: CalculateEpochNumber_def algebra_simps)
  moreover have "1 \<le> n" using assms(2) by (simp add: u64_le_iff)
  ultimately show ?thesis
    by (auto simp: u64_eq_iff unat_div_u64 unat_sub_no_wrap)
qed

section \<open>Properties\<close>

text \<open>
  C1:  For a DA height at or after the start height, with a positive epoch size and no wrap-around,
  the boundaries enclose the height and span exactly one epoch size, and the heights between them
  are exactly the heights with the same epoch number: the epochs partition the DA chain.
\<close>

theorem epoch_boundaries_partition:
  assumes "st \<le> h" and "sz \<noteq> 0" and "unat h + unat sz < 2 ^ 64"
    and "CalculateEpochBoundaries h st sz = (s, e, n)"
  shows "s \<le> h \<and> h \<le> e \<and> Suc (unat e) = unat s + unat sz \<and>
    (\<forall>h'. s \<le> h' \<and> h' \<le> e \<longleftrightarrow> st \<le> h' \<and> CalculateEpochNumber h' st sz = n)"
proof -
  define k where "k = (unat h - unat st) div unat sz"
  note b = CalculateEpochBoundaries_nat [OF assms, folded k_def]
  have st: "unat st \<le> unat h" and sz: "0 < unat sz"
    using assms(1,2) by (simp_all add: u64_le_iff unat_gt_0)
  note off = epoch_offset_bounds [OF st sz, folded k_def]
  have "s \<le> h' \<and> h' \<le> e \<longleftrightarrow> st \<le> h' \<and> CalculateEpochNumber h' st sz = n" for h'
  proof -
    have "s \<le> h' \<and> h' \<le> e \<longleftrightarrow> unat st + k * unat sz \<le> unat h' \<and> unat h' < unat st + Suc k * unat sz"
      using b(1,2) by (auto simp: u64_le_iff)
    also have "\<dots> \<longleftrightarrow> st \<le> h' \<and> k * unat sz \<le> unat h' - unat st \<and> unat h' - unat st < Suc k * unat sz"
      by (auto simp: u64_le_iff)
    also have "\<dots> \<longleftrightarrow> st \<le> h' \<and> (unat h' - unat st) div unat sz = k"
      using div_eq_interval [OF sz] by auto
    also have "\<dots> \<longleftrightarrow> st \<le> h' \<and> CalculateEpochNumber h' st sz = n"
      using CalculateEpochNumber_eq_iff [OF assms(2), of n st h'] b(3) by simp
    finally show ?thesis .
  qed
  moreover have "s \<le> h \<and> h \<le> e" and "Suc (unat e) = unat s + unat sz"
    using b off by (simp_all add: u64_le_iff)
  ultimately show ?thesis by blast
qed

theorem epoch_boundaries_partition_witness:
  "(10 :: u64) \<le> 17 \<and> CalculateEpochBoundaries 17 10 5 = (15, 19, 2) \<and>
   (\<forall>h'. 15 \<le> h' \<and> h' \<le> 19 \<longleftrightarrow> 10 \<le> h' \<and> CalculateEpochNumber h' 10 5 = 2)"
proof -
  have c: "CalculateEpochBoundaries 17 10 5 = (15, 19, 2)"
    by (simp add: CalculateEpochBoundaries_def CalculateEpochNumber_def)
  show ?thesis
    using epoch_boundaries_partition [of 10 17 5, OF _ _ _ c] c by simp
qed

end
