(* ===== verification/Datastore.thy ===== *)
theory Datastore
  imports Prelude "HOL-Library.AList"
begin

text \<open>
  The key-value interface \<open>ds.Batching\<close> of \<open>go-datastore\<close>, which the repository calls and does not
  contain: a record of operations over an arbitrary state \<open>'d\<close>, passed to every definition that
  stores something. Each operation may fail. \<open>datastore_laws\<close> states what the repository relies on
  (an operation that reports success has its effect, one that reports an error has none, a batch
  commits as a whole, keys are cleaned paths), \<open>reliable_datastore\<close> adds that nothing fails. The
  laws are interpreted on an association list (the in-memory datastore) and on the same list with
  a schedule of write failures.
\<close>

datatype ds_error = ErrNotFound | ErrDatastore string

datatype ds_op = DPut string bytes | DDelete string

record 'd datastore =
  ds_NewKey :: "string \<Rightarrow> string"
  ds_Name :: "string \<Rightarrow> string"
  ds_Get :: "'d \<Rightarrow> string \<Rightarrow> ds_error + bytes"
  ds_Put :: "'d \<Rightarrow> string \<Rightarrow> bytes \<Rightarrow> 'd \<times> ds_error option"
  ds_Delete :: "'d \<Rightarrow> string \<Rightarrow> 'd \<times> ds_error option"
  ds_Batch :: "'d \<Rightarrow> ds_error option"
  ds_BatchAdd :: "'d \<Rightarrow> ds_op list \<Rightarrow> ds_op \<Rightarrow> ds_error option"
  ds_Commit :: "'d \<Rightarrow> ds_op list \<Rightarrow> 'd \<times> ds_error option"
  ds_Query :: "'d \<Rightarrow> ds_error + (ds_error + string \<times> bytes) list"

section \<open>Keys as cleaned paths\<close>

text \<open>The components of a path between its slashes.\<close>

fun path_comps :: "string \<Rightarrow> string list" where
  "path_comps [] = [[]]"
| "path_comps (c # cs) =
     (if c = CHR ''/'' then [] # path_comps cs
      else case path_comps cs of [] \<Rightarrow> [[c]] | p # ps \<Rightarrow> (c # p) # ps)"

definition clean_comp :: "string \<Rightarrow> bool" where
  "clean_comp c \<longleftrightarrow> c \<noteq> [] \<and> c \<noteq> ''.'' \<and> c \<noteq> ''..''"

definition clean_path :: "string \<Rightarrow> bool" where
  "clean_path k = (case k of [] \<Rightarrow> False
     | c # cs \<Rightarrow> c = CHR ''/'' \<and> list_all clean_comp (path_comps cs))"

lemma path_comps_neq_Nil [simp]: "path_comps cs \<noteq> []"
  by (induction cs) (auto split: list.splits)

lemma path_comps_plain: "CHR ''/'' \<notin> set cs \<Longrightarrow> path_comps cs = [cs]"
  by (induction cs) auto

lemma path_comps_append:
  "CHR ''/'' \<notin> set cs \<Longrightarrow> path_comps (cs @ CHR ''/'' # ds) = cs # path_comps ds"
  by (induction cs) auto

lemma clean_path_plain:
  "CHR ''/'' \<notin> set cs \<Longrightarrow> clean_comp cs \<Longrightarrow> clean_path (CHR ''/'' # cs)"
  by (simp add: clean_path_def path_comps_plain)

section \<open>What the repository relies on\<close>

fun apply_op :: "(string \<rightharpoonup> bytes) \<Rightarrow> ds_op \<Rightarrow> (string \<rightharpoonup> bytes)" where
  "apply_op m (DPut k v) = m(k \<mapsto> v)"
| "apply_op m (DDelete k) = m(k := None)"

definition apply_ops :: "(string \<rightharpoonup> bytes) \<Rightarrow> ds_op list \<Rightarrow> (string \<rightharpoonup> bytes)" where
  "apply_ops = foldl apply_op"

lemma apply_ops_simps [simp]:
  "apply_ops m [] = m"
  "apply_ops m (x # xs) = apply_ops (apply_op m x) xs"
  by (simp_all add: apply_ops_def)

lemma apply_ops_append [simp]: "apply_ops m (xs @ ys) = apply_ops (apply_ops m xs) ys"
  by (simp add: apply_ops_def)

lemma apply_ops_deletes:
  "apply_ops m (map DDelete ks) = (\<lambda>k. if k \<in> set ks then None else m k)"
  by (induction ks arbitrary: m) (auto simp: fun_eq_iff)

text \<open>The answer of a query ordered by key: every binding once, in increasing key order.\<close>

definition ordered_bindings :: "(string \<rightharpoonup> bytes) \<Rightarrow> (string \<times> bytes) list \<Rightarrow> bool" where
  "ordered_bindings m kvs \<longleftrightarrow> sorted_wrt (<) (map fst kvs) \<and> map_of kvs = m"

locale datastore_laws =
  fixes DS :: "'d datastore" and view :: "'d \<Rightarrow> (string \<rightharpoonup> bytes)"
  assumes newKey_clean: "clean_path k \<Longrightarrow> ds_NewKey DS k = k"
    and newKey_relative: "clean_path (CHR ''/'' # k) \<Longrightarrow> ds_NewKey DS k = CHR ''/'' # k"
    and name_plain: "\<lbrakk>CHR ''/'' \<notin> set k; CHR '':'' \<notin> set k\<rbrakk> \<Longrightarrow> ds_Name DS (CHR ''/'' # k) = k"
    and get_found: "ds_Get DS d k = Inr v \<Longrightarrow> view d k = Some v"
    and get_missing: "ds_Get DS d k = Inl ErrNotFound \<Longrightarrow> view d k = None"
    and put_ok: "ds_Put DS d k v = (d', None) \<Longrightarrow> view d' = (view d)(k \<mapsto> v)"
    and put_failed: "ds_Put DS d k v = (d', Some e) \<Longrightarrow> view d' = view d"
    and delete_ok: "ds_Delete DS d k = (d', None) \<Longrightarrow> view d' = (view d)(k := None)"
    and delete_failed: "ds_Delete DS d k = (d', Some e) \<Longrightarrow> view d' = view d"
    and commit_ok: "ds_Commit DS d ops = (d', None) \<Longrightarrow> view d' = apply_ops (view d) ops"
    and commit_failed: "ds_Commit DS d ops = (d', Some e) \<Longrightarrow> view d' = view d"
    and query_ok: "ds_Query DS d = Inr (map Inr kvs) \<Longrightarrow> ordered_bindings (view d) kvs"

locale reliable_datastore = datastore_laws +
  assumes get_total: "ds_Get DS d k = (case view d k of None \<Rightarrow> Inl ErrNotFound | Some v \<Rightarrow> Inr v)"
    and put_total: "snd (ds_Put DS d k v) = None"
    and delete_total: "snd (ds_Delete DS d k) = None"
    and batch_total: "ds_Batch DS d = None"
    and batchAdd_total: "ds_BatchAdd DS d ops x = None"
    and commit_total: "snd (ds_Commit DS d ops) = None"
    and query_total: "\<exists>kvs. ds_Query DS d = Inr (map Inr kvs)"
begin

lemma put_view: "view (fst (ds_Put DS d k v)) = (view d)(k \<mapsto> v)"
  using put_total [of d k v] put_ok [of d k v "fst (ds_Put DS d k v)"]
  by (metis prod.collapse)

lemma delete_view: "view (fst (ds_Delete DS d k)) = (view d)(k := None)"
  using delete_total [of d k] delete_ok [of d k "fst (ds_Delete DS d k)"]
  by (metis prod.collapse)

lemma commit_view: "view (fst (ds_Commit DS d ops)) = apply_ops (view d) ops"
  using commit_total [of d ops] commit_ok [of d ops "fst (ds_Commit DS d ops)"]
  by (metis prod.collapse)

end

section \<open>The in-memory datastore\<close>

text \<open>
  \<open>mem_ds\<close> keeps an association list; \<open>faulty_ds\<close> also keeps a schedule, one flag per write, and a
  write whose flag is set fails with nothing stored.
\<close>

type_synonym mem = "(string \<times> bytes) list"

definition mem_NewKey :: "string \<Rightarrow> string" where
  "mem_NewKey k = (case k of [] \<Rightarrow> ''/'' | c # cs \<Rightarrow> if c = CHR ''/'' then k else CHR ''/'' # k)"

definition mem_Name :: "string \<Rightarrow> string" where
  "mem_Name k = last (path_comps k)"

definition mem_Get :: "mem \<Rightarrow> string \<Rightarrow> ds_error + bytes" where
  "mem_Get d k = (case map_of d k of None \<Rightarrow> Inl ErrNotFound | Some v \<Rightarrow> Inr v)"

fun mem_op :: "mem \<Rightarrow> ds_op \<Rightarrow> mem" where
  "mem_op d (DPut k v) = AList.update k v d"
| "mem_op d (DDelete k) = AList.delete k d"

definition mem_Query :: "mem \<Rightarrow> ds_error + (ds_error + string \<times> bytes) list" where
  "mem_Query d = Inr (map Inr (sort_key fst (AList.clearjunk d)))"

definition mem_ds :: "mem datastore" where
  "mem_ds = \<lparr>ds_NewKey = mem_NewKey, ds_Name = mem_Name, ds_Get = mem_Get,
     ds_Put = (\<lambda>d k v. (mem_op d (DPut k v), None)),
     ds_Delete = (\<lambda>d k. (mem_op d (DDelete k), None)),
     ds_Batch = (\<lambda>_. None), ds_BatchAdd = (\<lambda>_ _ _. None),
     ds_Commit = (\<lambda>d ops. (foldl mem_op d ops, None)), ds_Query = mem_Query\<rparr>"

type_synonym faulty = "mem \<times> bool list"

definition faulty_write :: "faulty \<Rightarrow> (mem \<Rightarrow> mem) \<Rightarrow> faulty \<times> ds_error option" where
  "faulty_write s f = (case s of
       (d, []) \<Rightarrow> ((f d, []), None)
     | (d, b # bs) \<Rightarrow> if b then ((d, bs), Some (ErrDatastore ''write'')) else ((f d, bs), None))"

definition faulty_ds :: "faulty datastore" where
  "faulty_ds = \<lparr>ds_NewKey = mem_NewKey, ds_Name = mem_Name, ds_Get = (\<lambda>s. mem_Get (fst s)),
     ds_Put = (\<lambda>s k v. faulty_write s (\<lambda>d. mem_op d (DPut k v))),
     ds_Delete = (\<lambda>s k. faulty_write s (\<lambda>d. mem_op d (DDelete k))),
     ds_Batch = (\<lambda>_. None), ds_BatchAdd = (\<lambda>_ _ _. None),
     ds_Commit = (\<lambda>s ops. faulty_write s (\<lambda>d. foldl mem_op d ops)),
     ds_Query = (\<lambda>s. mem_Query (fst s))\<rparr>"

lemma map_of_mem_op: "map_of (mem_op d x) = apply_op (map_of d) x"
  by (cases x) (simp_all add: update_conv' delete_conv')

lemma map_of_mem_ops: "map_of (foldl mem_op d ops) = apply_ops (map_of d) ops"
  by (induction ops arbitrary: d) (simp_all add: map_of_mem_op)

lemma mem_NewKey_clean: "clean_path k \<Longrightarrow> mem_NewKey k = k"
  by (simp add: mem_NewKey_def clean_path_def split: list.splits)

lemma mem_NewKey_relative: "clean_path (CHR ''/'' # k) \<Longrightarrow> mem_NewKey k = CHR ''/'' # k"
  by (auto simp: mem_NewKey_def clean_path_def clean_comp_def split: list.splits if_splits)

lemma mem_Name_plain: "CHR ''/'' \<notin> set k \<Longrightarrow> mem_Name (CHR ''/'' # k) = k"
  by (simp add: mem_Name_def path_comps_plain)

lemma map_of_sort_key_fst:
  assumes "distinct (map fst kvs)"
  shows "map_of (sort_key fst kvs) = map_of kvs"
  using assms by (intro map_of_inject_set [THEN iffD2]) (auto simp: distinct_map)

lemma ordered_bindings_mem: "ordered_bindings (map_of d) (sort_key fst (AList.clearjunk d))"
proof -
  let ?kvs = "AList.clearjunk d"
  have d: "distinct (map fst ?kvs)" by (rule distinct_clearjunk)
  then have "distinct (map fst (sort_key fst ?kvs))"
    by (metis distinct_map distinct_sort inj_on_def set_sort)
  then have "sorted_wrt (<) (map fst (sort_key fst ?kvs))"
    by (simp add: strict_sorted_iff)
  then show ?thesis
    using d by (simp add: ordered_bindings_def map_of_sort_key_fst map_of_clearjunk)
qed

lemma map_Inr_eq_iff: "map Inr xs = map Inr ys \<longleftrightarrow> xs = ys"
  by (simp add: inj_map_eq_map inj_on_def)

interpretation mem: reliable_datastore mem_ds map_of
  by unfold_locales
    (auto simp: mem_ds_def mem_NewKey_clean mem_NewKey_relative mem_Name_plain mem_Get_def
      map_of_mem_op [where x = "DPut _ _", simplified] map_of_mem_op [where x = "DDelete _", simplified]
      map_of_mem_ops mem_Query_def map_Inr_eq_iff ordered_bindings_mem
      split: option.splits)

interpretation faulty: datastore_laws faulty_ds "\<lambda>s. map_of (fst s)"
  by unfold_locales
    (auto simp: faulty_ds_def faulty_write_def mem_NewKey_clean mem_NewKey_relative mem_Name_plain
      mem_Get_def map_of_mem_op [where x = "DPut _ _", simplified]
      map_of_mem_op [where x = "DDelete _", simplified] map_of_mem_ops mem_Query_def map_Inr_eq_iff
      ordered_bindings_mem split: option.splits prod.splits list.splits if_splits)

end
