(* ===== verification/Batch_Queue.thy ===== *)
theory Batch_Queue
  imports Datastore
begin

text \<open>
  The persistent queue of transaction batches of the single sequencer
  (\<open>pkg/sequencers/single/queue.go\<close>): entries live in memory and in a write-ahead log (the
  datastore under the queue's prefix) until \<open>Ack\<close> deletes them. Every method is a definition on the
  record \<open>BatchQueue\<close>; the mutex makes each one an atomic step. The SHA-256 digest, the protobuf
  codec of \<open>pb.Batch\<close> and the datastore come in through \<open>queue_env\<close>.
\<close>

section \<open>State\<close>

record queuedItem =
  qi_Batch :: "bytes list"
  qi_Key :: string

record 'd BatchQueue =
  bq_queue :: "queuedItem list"
  bq_head :: nat
  bq_maxQueueSize :: int
  bq_inFlight :: "queuedItem list"
  bq_inFlightPostponed :: "bytes list"
  bq_postponedItem :: "queuedItem option"
  bq_txSeen :: "bytes set"
  bq_nextAddSeq :: u64
  bq_nextPrependSeq :: u64
  bq_db :: 'd

record 'd queue_env =
  q_ds :: "'d datastore"
  q_sha256 :: "bytes \<Rightarrow> bytes"
  q_Marshal :: "bytes list \<Rightarrow> bytes option"
  q_Unmarshal :: "bytes \<Rightarrow> bytes list option"

datatype queue_error =
    ErrQueueFull
  | ErrMarshalBatch
  | ErrPutBatch ds_error
  | ErrPersistBatch string queue_error
  | ErrPersistPostponed queue_error
  | ErrCreateDeleteBatch ds_error
  | ErrDeleteCommitted string ds_error
  | ErrCommitDeletes ds_error
  | ErrDeleteIncluded string ds_error
  | ErrRewriteEntry string queue_error
  | ErrQueryDatastore ds_error
  | ErrReadEntry ds_error

definition emptyItem :: queuedItem where
  "emptyItem = \<lparr>qi_Batch = [], qi_Key = []\<rparr>"

definition initialSeqNum :: u64 where
  "initialSeqNum = 0x8000000000000000"

definition NewBatchQueue :: "'d \<Rightarrow> int \<Rightarrow> 'd BatchQueue" where
  "NewBatchQueue db maxSize = \<lparr>bq_queue = [], bq_head = 0, bq_maxQueueSize = maxSize,
     bq_inFlight = [], bq_inFlightPostponed = [], bq_postponedItem = None, bq_txSeen = {},
     bq_nextAddSeq = initialSeqNum, bq_nextPrependSeq = initialSeqNum - 1, bq_db = db\<rparr>"

section \<open>Keys\<close>

definition seqToKey :: "u64 \<Rightarrow> string" where
  "seqToKey seq = EncodeToString (PutUint64_BE seq)"

text \<open>\<open>strconv.ParseUint(s, 16, 64)\<close>: \<open>None\<close> is its error.\<close>

definition hex_val :: "char \<Rightarrow> nat option" where
  "hex_val c = (let n = (of_char c :: nat) in
     if 48 \<le> n \<and> n \<le> 57 then Some (n - 48)
     else if 97 \<le> n \<and> n \<le> 102 then Some (n - 87)
     else if 65 \<le> n \<and> n \<le> 70 then Some (n - 55)
     else None)"

fun parse_hex :: "nat \<Rightarrow> string \<Rightarrow> nat option" where
  "parse_hex acc [] = Some acc"
| "parse_hex acc (c # cs) =
     (case hex_val c of None \<Rightarrow> None | Some d \<Rightarrow> parse_hex (acc * 16 + d) cs)"

definition ParseUint16 :: "string \<Rightarrow> u64 option" where
  "ParseUint16 s = (if s = [] then None else
     case parse_hex 0 s of None \<Rightarrow> None
     | Some n \<Rightarrow> if n < 2 ^ 64 then Some (word_of_nat n) else None)"

section \<open>Operations\<close>

definition persistBatch ::
  "'d queue_env \<Rightarrow> 'd \<Rightarrow> bytes list \<Rightarrow> string \<Rightarrow> 'd \<times> queue_error option" where
  "persistBatch env db batch key =
     (case q_Marshal env batch of
        None \<Rightarrow> (db, Some ErrMarshalBatch)
      | Some encodedBatch \<Rightarrow>
          (case ds_Put (q_ds env) db (ds_NewKey (q_ds env) key) encodedBatch of
             (db', None) \<Rightarrow> (db', None)
           | (db', Some e) \<Rightarrow> (db', Some (ErrPutBatch e))))"

text \<open>The loop over a batch that keeps the transactions whose hash is new: the kept transactions,
  their hashes, and the dedup set.\<close>

fun dedup :: "(bytes \<Rightarrow> bytes) \<Rightarrow> bytes list \<Rightarrow> bytes set \<Rightarrow> bytes list \<times> bytes list \<times> bytes set" where
  "dedup H [] seen = ([], [], seen)"
| "dedup H (tx # txs) seen =
     (if H tx \<in> seen then dedup H txs seen
      else let (unique, hashes, seen') = dedup H txs (insert (H tx) seen)
           in (tx # unique, H tx # hashes, seen'))"

fun rollbackSeen :: "bytes list \<Rightarrow> bytes set \<Rightarrow> bytes set" where
  "rollbackSeen [] seen = seen"
| "rollbackSeen (h # hs) seen = rollbackSeen hs (seen - {h})"

definition Size :: "'d BatchQueue \<Rightarrow> int" where
  "Size q = int (length (bq_queue q)) - int (bq_head q) + int (length (bq_inFlight q))"

definition AddBatch ::
  "'d queue_env \<Rightarrow> 'd BatchQueue \<Rightarrow> bytes list \<Rightarrow> 'd BatchQueue \<times> queue_error option" where
  "AddBatch env q batch =
     (let (unique, hashes, seen) = dedup (q_sha256 env) batch (bq_txSeen q);
          q = q\<lparr>bq_txSeen := seen\<rparr>
      in if unique = [] then (q, None)
         else if 0 < bq_maxQueueSize q \<and> bq_maxQueueSize q \<le> Size q
         then (q\<lparr>bq_txSeen := rollbackSeen hashes seen\<rparr>, Some ErrQueueFull)
         else let key = seqToKey (bq_nextAddSeq q) in
           case persistBatch env (bq_db q) unique key of
             (db', Some e) \<Rightarrow> (q\<lparr>bq_db := db', bq_txSeen := rollbackSeen hashes seen\<rparr>,
                               Some (ErrPersistBatch key e))
           | (db', None) \<Rightarrow>
               (q\<lparr>bq_db := db', bq_nextAddSeq := bq_nextAddSeq q + 1,
                  bq_queue := bq_queue q @ [\<lparr>qi_Batch = unique, qi_Key = key\<rparr>]\<rparr>, None))"

fun fill_slots :: "queuedItem list \<Rightarrow> nat \<Rightarrow> queuedItem list \<Rightarrow> queuedItem list \<times> nat" where
  "fill_slots queue head [] = (queue, head)"
| "fill_slots queue head (v # vs) = fill_slots (queue[head - 1 := v]) (head - 1) vs"

definition rollbackInFlight :: "'d queue_env \<Rightarrow> 'd BatchQueue \<Rightarrow> 'd BatchQueue" where
  "rollbackInFlight env q =
     (if bq_inFlight q = [] then q
      else
        let q = (case bq_postponedItem q of
                   None \<Rightarrow> q
                 | Some item \<Rightarrow>
                     q\<lparr>bq_db := fst (ds_Delete (q_ds env) (bq_db q) (ds_NewKey (q_ds env) (qi_Key item))),
                       bq_postponedItem := None\<rparr>);
            q = q\<lparr>bq_inFlightPostponed := []\<rparr>;
            q = (if length (bq_inFlight q) \<le> bq_head q
                 then let (queue, head) = fill_slots (bq_queue q) (bq_head q) (rev (bq_inFlight q))
                      in q\<lparr>bq_queue := queue, bq_head := head\<rparr>
                 else q\<lparr>bq_queue := bq_inFlight q @ drop (bq_head q) (bq_queue q), bq_head := 0\<rparr>)
        in q\<lparr>bq_inFlight := []\<rparr>)"

definition compact :: "'d BatchQueue \<Rightarrow> 'd BatchQueue" where
  "compact q =
     (if length (bq_queue q) div 2 < bq_head q \<and> 100 < bq_head q
      then q\<lparr>bq_queue := drop (bq_head q) (bq_queue q), bq_head := 0\<rparr>
      else q)"

fun entryBytes :: "bytes list \<Rightarrow> u64" where
  "entryBytes [] = 0"
| "entryBytes (tx # txs) = word_of_nat (length tx) + entryBytes txs"

function drain_loop :: "u64 \<Rightarrow> queuedItem list \<Rightarrow> nat \<Rightarrow> u64 \<Rightarrow> bytes list \<Rightarrow> queuedItem list \<Rightarrow>
    queuedItem list \<times> nat \<times> bytes list \<times> queuedItem list" where
  "drain_loop maxBytes queue head totalBytes allTxs inFlight =
     (if head < length queue
      then let item = queue ! head; entry = entryBytes (qi_Batch item)
           in if 0 < maxBytes \<and> maxBytes < totalBytes + entry \<and> allTxs \<noteq> []
              then (queue, head, allTxs, inFlight)
              else drain_loop maxBytes (queue[head := emptyItem]) (Suc head) (totalBytes + entry)
                     (allTxs @ qi_Batch item) (inFlight @ [item])
      else (queue, head, allTxs, inFlight))"
  by pat_completeness auto
termination
  by (relation "measure (\<lambda>(_, queue, head, _, _, _). length queue - head)") auto

declare drain_loop.simps [simp del]

definition Drain :: "'d queue_env \<Rightarrow> 'd BatchQueue \<Rightarrow> u64 \<Rightarrow> 'd BatchQueue \<times> bytes list" where
  "Drain env q maxBytes =
     (let q = rollbackInFlight env q
      in if length (bq_queue q) \<le> bq_head q then (q, [])
         else let (queue, head, allTxs, inFlight) =
                    drain_loop maxBytes (bq_queue q) (bq_head q) 0 [] (bq_inFlight q)
              in (compact (q\<lparr>bq_queue := queue, bq_head := head, bq_inFlight := inFlight\<rparr>), allTxs))"

definition SetPostponed :: "'d BatchQueue \<Rightarrow> bytes list \<Rightarrow> 'd BatchQueue" where
  "SetPostponed q txs =
     (if bq_postponedItem q \<noteq> None then q else q\<lparr>bq_inFlightPostponed := txs\<rparr>)"

definition prependItem :: "'d BatchQueue \<Rightarrow> queuedItem \<Rightarrow> 'd BatchQueue" where
  "prependItem q item =
     (if 0 < bq_head q
      then q\<lparr>bq_head := bq_head q - 1, bq_queue := (bq_queue q)[bq_head q - 1 := item]\<rparr>
      else q\<lparr>bq_queue := item # bq_queue q\<rparr>)"

fun add_deletes :: "'d queue_env \<Rightarrow> 'd \<Rightarrow> ds_op list \<Rightarrow> queuedItem list \<Rightarrow> queue_error + ds_op list" where
  "add_deletes env db ops [] = Inr ops"
| "add_deletes env db ops (item # items) =
     (let op = DDelete (ds_NewKey (q_ds env) (qi_Key item))
      in case ds_BatchAdd (q_ds env) db ops op of
           Some e \<Rightarrow> Inl (ErrDeleteCommitted (qi_Key item) e)
         | None \<Rightarrow> add_deletes env db (ops @ [op]) items)"

definition ack_persist :: "'d queue_env \<Rightarrow> 'd BatchQueue \<Rightarrow> 'd BatchQueue \<times> queue_error option" where
  "ack_persist env q =
     (if bq_inFlightPostponed q \<noteq> [] \<and> bq_postponedItem q = None
      then let batch = bq_inFlightPostponed q; key = seqToKey (bq_nextPrependSeq q)
           in case persistBatch env (bq_db q) batch key of
                (db', Some e) \<Rightarrow> (q\<lparr>bq_db := db'\<rparr>, Some (ErrPersistPostponed e))
              | (db', None) \<Rightarrow>
                  (q\<lparr>bq_db := db', bq_nextPrependSeq := bq_nextPrependSeq q - 1,
                     bq_postponedItem := Some \<lparr>qi_Batch = batch, qi_Key = key\<rparr>\<rparr>, None)
      else (q, None))"

definition ack_delete :: "'d queue_env \<Rightarrow> 'd BatchQueue \<Rightarrow> 'd BatchQueue \<times> queue_error option" where
  "ack_delete env q =
     (if bq_inFlight q = [] then (q, None)
      else case ds_Batch (q_ds env) (bq_db q) of
        Some e \<Rightarrow> (q, Some (ErrCreateDeleteBatch e))
      | None \<Rightarrow>
          (case add_deletes env (bq_db q) [] (bq_inFlight q) of
             Inl e \<Rightarrow> (q, Some e)
           | Inr ops \<Rightarrow>
               (case ds_Commit (q_ds env) (bq_db q) ops of
                  (db', Some e) \<Rightarrow> (q\<lparr>bq_db := db'\<rparr>, Some (ErrCommitDeletes e))
                | (db', None) \<Rightarrow> (q\<lparr>bq_db := db'\<rparr>, None))))"

fun unsee :: "(bytes \<Rightarrow> bytes) \<Rightarrow> bytes set \<Rightarrow> bytes list \<Rightarrow> bytes set \<Rightarrow> bytes set" where
  "unsee H postponed [] seen = seen"
| "unsee H postponed (tx # txs) seen =
     unsee H postponed txs (if H tx \<in> postponed then seen else seen - {H tx})"

definition ack_finish :: "'d queue_env \<Rightarrow> 'd BatchQueue \<Rightarrow> 'd BatchQueue" where
  "ack_finish env q =
     (let postponed = q_sha256 env ` set (bq_inFlightPostponed q);
          q = q\<lparr>bq_txSeen := unsee (q_sha256 env) postponed
                               (concat (map qi_Batch (bq_inFlight q))) (bq_txSeen q)\<rparr>;
          q = (case bq_postponedItem q of None \<Rightarrow> q | Some item \<Rightarrow> prependItem q item)
      in q\<lparr>bq_inFlight := [], bq_inFlightPostponed := [], bq_postponedItem := None\<rparr>)"

definition Ack :: "'d queue_env \<Rightarrow> 'd BatchQueue \<Rightarrow> 'd BatchQueue \<times> queue_error option" where
  "Ack env q =
     (case ack_persist env q of
        (q', Some e) \<Rightarrow> (q', Some e)
      | (q', None) \<Rightarrow>
          (case ack_delete env q' of
             (q'', Some e) \<Rightarrow> (q'', Some e)
           | (q'', None) \<Rightarrow> (ack_finish env q'', None)))"

section \<open>Restart\<close>

definition dedupAndEnqueue :: "'d queue_env \<Rightarrow> 'd BatchQueue \<Rightarrow> bytes list \<Rightarrow> string \<Rightarrow> 'd BatchQueue" where
  "dedupAndEnqueue env q batch key =
     (let (filtered, _, seen) = dedup (q_sha256 env) batch (bq_txSeen q);
          q = q\<lparr>bq_txSeen := seen\<rparr>
      in if filtered = []
         then q\<lparr>bq_db := fst (ds_Delete (q_ds env) (bq_db q) (ds_NewKey (q_ds env) key))\<rparr>
         else if length filtered < length batch
         then q\<lparr>bq_db := fst (persistBatch env (bq_db q) filtered key),
                bq_queue := bq_queue q @ [\<lparr>qi_Batch = filtered, qi_Key = key\<rparr>]\<rparr>
         else q\<lparr>bq_queue := bq_queue q @ [\<lparr>qi_Batch = batch, qi_Key = key\<rparr>]\<rparr>)"

definition bumpSeq :: "'d BatchQueue \<Rightarrow> u64 \<Rightarrow> 'd BatchQueue" where
  "bumpSeq q seq =
     (let q = (if bq_nextAddSeq q \<le> seq then q\<lparr>bq_nextAddSeq := seq + 1\<rparr> else q)
      in if seq \<le> bq_nextPrependSeq q then q\<lparr>bq_nextPrependSeq := seq - 1\<rparr> else q)"

fun load_loop :: "'d queue_env \<Rightarrow> (ds_error + string \<times> bytes) list \<Rightarrow> 'd BatchQueue \<Rightarrow> queuedItem list \<Rightarrow>
    'd BatchQueue \<times> (queue_error + queuedItem list)" where
  "load_loop env [] q legacy = (q, Inr legacy)"
| "load_loop env (Inl e # rs) q legacy = (q, Inl (ErrReadEntry e))"
| "load_loop env (Inr (k, v) # rs) q legacy =
     (let keyName = ds_Name (q_ds env) (ds_NewKey (q_ds env) k)
      in case q_Unmarshal env v of
           None \<Rightarrow> load_loop env rs q legacy
         | Some batch \<Rightarrow>
             (case (if length keyName = 16 then ParseUint16 keyName else None) of
                Some seq \<Rightarrow> load_loop env rs (dedupAndEnqueue env (bumpSeq q seq) batch keyName) legacy
              | None \<Rightarrow> load_loop env rs q (legacy @ [\<lparr>qi_Batch = batch, qi_Key = k\<rparr>])))"

fun migrate_loop :: "'d queue_env \<Rightarrow> queuedItem list \<Rightarrow> 'd BatchQueue \<Rightarrow> 'd BatchQueue" where
  "migrate_loop env [] q = q"
| "migrate_loop env (item # items) q =
     (let newKeyName = seqToKey (bq_nextAddSeq q)
      in case persistBatch env (bq_db q) (qi_Batch item) newKeyName of
           (db', Some e) \<Rightarrow> migrate_loop env items (q\<lparr>bq_db := db'\<rparr>)
         | (db', None) \<Rightarrow>
             (let q = q\<lparr>bq_db := fst (ds_Delete (q_ds env) db' (ds_NewKey (q_ds env) (qi_Key item)))\<rparr>;
                  q = dedupAndEnqueue env q (qi_Batch item) newKeyName
              in migrate_loop env items (q\<lparr>bq_nextAddSeq := bq_nextAddSeq q + 1\<rparr>)))"

definition load_reset :: "'d BatchQueue \<Rightarrow> 'd BatchQueue" where
  "load_reset q = q\<lparr>bq_queue := [], bq_head := 0, bq_txSeen := {}, bq_inFlight := [],
     bq_inFlightPostponed := [], bq_postponedItem := None, bq_nextAddSeq := initialSeqNum,
     bq_nextPrependSeq := initialSeqNum - 1\<rparr>"

definition Load :: "'d queue_env \<Rightarrow> 'd BatchQueue \<Rightarrow> 'd BatchQueue \<times> queue_error option" where
  "Load env q =
     (let q = load_reset q
      in case ds_Query (q_ds env) (bq_db q) of
           Inl e \<Rightarrow> (q, Some (ErrQueryDatastore e))
         | Inr results \<Rightarrow>
             (case load_loop env results q [] of
                (q, Inl e) \<Rightarrow> (q, Some e)
              | (q, Inr legacy) \<Rightarrow> (migrate_loop env legacy q, None)))"

text \<open>\<open>DropIncluded\<close> compacts in place: \<open>kept\<close> aliases the backing array of the queue, so the loop
  writes at index \<open>w\<close> and an early error return leaves the partly overwritten array behind.\<close>

fun drop_txs :: "(bytes \<Rightarrow> bytes) \<Rightarrow> bytes set \<Rightarrow> bytes list \<Rightarrow> bytes set \<Rightarrow> nat \<Rightarrow>
    bytes list \<times> bytes set \<times> nat" where
  "drop_txs H included [] seen dropped = ([], seen, dropped)"
| "drop_txs H included (tx # txs) seen dropped =
     (if H tx \<in> included then drop_txs H included txs (seen - {H tx}) (dropped + 1)
      else let (remaining, seen', dropped') = drop_txs H included txs seen dropped
           in (tx # remaining, seen', dropped'))"

fun drop_loop :: "'d queue_env \<Rightarrow> bytes set \<Rightarrow> queuedItem list \<Rightarrow> 'd BatchQueue \<Rightarrow> nat \<Rightarrow> nat \<Rightarrow>
    'd BatchQueue \<times> nat \<times> queue_error option" where
  "drop_loop env included [] q w dropped = (q\<lparr>bq_queue := take w (bq_queue q)\<rparr>, dropped, None)"
| "drop_loop env included (item # items) q w dropped =
     (let (remaining, seen, dropped) =
            drop_txs (q_sha256 env) included (qi_Batch item) (bq_txSeen q) dropped;
          q = q\<lparr>bq_txSeen := seen\<rparr>
      in if length remaining = length (qi_Batch item)
         then drop_loop env included items (q\<lparr>bq_queue := (bq_queue q)[w := item]\<rparr>) (Suc w) dropped
         else if remaining = []
         then (case ds_Delete (q_ds env) (bq_db q) (ds_NewKey (q_ds env) (qi_Key item)) of
                 (db', Some e) \<Rightarrow> (q\<lparr>bq_db := db'\<rparr>, dropped, Some (ErrDeleteIncluded (qi_Key item) e))
               | (db', None) \<Rightarrow> drop_loop env included items (q\<lparr>bq_db := db'\<rparr>) w dropped)
         else let item = item\<lparr>qi_Batch := remaining\<rparr>
              in case persistBatch env (bq_db q) remaining (qi_Key item) of
                   (db', Some e) \<Rightarrow> (q\<lparr>bq_db := db'\<rparr>, dropped, Some (ErrRewriteEntry (qi_Key item) e))
                 | (db', None) \<Rightarrow>
                     drop_loop env included items
                       (q\<lparr>bq_db := db', bq_queue := (bq_queue q)[w := item]\<rparr>) (Suc w) dropped)"

definition DropIncluded ::
  "'d queue_env \<Rightarrow> 'd BatchQueue \<Rightarrow> bytes list \<Rightarrow> 'd BatchQueue \<times> nat \<times> queue_error option" where
  "DropIncluded env q included =
     drop_loop env (q_sha256 env ` set included) (drop (bq_head q) (bq_queue q)) q (bq_head q) 0"

section \<open>Keys and codecs\<close>

lemma hex_encode_digits: "EncodeToString (rev (digits_le n x)) = hex_digits (2 * n) x"
proof (induction n arbitrary: x)
  case 0
  then show ?case by (simp add: EncodeToString_def)
next
  case (Suc n)
  have "EncodeToString (rev (digits_le (Suc n) x))
      = EncodeToString (rev (digits_le n (x div 256))) @ hex_byte (word_of_nat (x mod 256))"
    by (simp add: EncodeToString_def)
  also have "\<dots> = hex_digits (2 * n) (x div 16 ^ 2) @ hex_digits 2 (x mod 16 ^ 2)"
    using Suc.IH by (simp add: hex_byte_def)
  also have "\<dots> = hex_digits (2 * n + 2) x"
    by (rule hex_digits_append [symmetric])
  finally show ?case by simp
qed

lemma seqToKey_hex: "seqToKey s = hex_digits 16 (unat s)"
  using hex_encode_digits [of 8 "unat s"] by (simp add: seqToKey_def PutUint64_BE_def)

lemma length_seqToKey [simp]: "length (seqToKey s) = 16"
  by (simp add: seqToKey_hex)

lemma seqToKey_less [simp]: "seqToKey a < seqToKey b \<longleftrightarrow> a < b"
  using unat_less_2_64 [of a] unat_less_2_64 [of b]
  by (simp add: seqToKey_hex hex_digits_less word_less_nat_alt)

lemma seqToKey_inj [simp]: "seqToKey a = seqToKey b \<longleftrightarrow> a = b"
  using seqToKey_less [of a b] seqToKey_less [of b a] by (metis less_irrefl linorder_neqE)

lemma hex_digits_chars: "c \<in> set (hex_digits n x) \<Longrightarrow> \<exists>d < 16. c = digit_char d"
  by (induction n arbitrary: x) (auto, metis mod_less_divisor zero_less_numeral)

lemma hex_val_digit_char: "d < 16 \<Longrightarrow> hex_val (digit_char d) = Some d"
  by (auto simp: hex_val_def of_char_digit_char)

lemma seqToKey_plain: "CHR ''/'' \<notin> set (seqToKey s)" "CHR '':'' \<notin> set (seqToKey s)"
proof -
  have "hex_val c \<noteq> None" if "c \<in> set (seqToKey s)" for c
    using hex_digits_chars [OF that [unfolded seqToKey_hex]] hex_val_digit_char by auto
  moreover have "hex_val (CHR ''/'') = None" "hex_val (CHR '':'') = None"
    by (simp_all add: hex_val_def)
  ultimately show "CHR ''/'' \<notin> set (seqToKey s)" "CHR '':'' \<notin> set (seqToKey s)"
    by metis+
qed

lemma clean_seqToKey: "clean_path (CHR ''/'' # seqToKey s)"
proof (rule clean_path_plain [OF seqToKey_plain(1)])
  show "clean_comp (seqToKey s)"
    using length_seqToKey [of s] by (auto simp: clean_comp_def simp del: length_seqToKey)
qed

lemma parse_hex_append:
  "parse_hex acc (xs @ ys) = Option.bind (parse_hex acc xs) (\<lambda>acc. parse_hex acc ys)"
  by (induction acc xs rule: parse_hex.induct) (auto split: option.splits)

lemma parse_hex_digits: "parse_hex acc (hex_digits n x) = Some (acc * 16 ^ n + x mod 16 ^ n)"
proof (induction n arbitrary: x)
  case (Suc n)
  have "x mod (16 * 16 ^ n) = x div 16 mod 16 ^ n * 16 + x mod 16"
    by (simp add: mod_mult2_eq)
  with Suc show ?case
    by (simp add: parse_hex_append hex_val_digit_char algebra_simps)
qed simp

lemma ParseUint_seqToKey [simp]: "ParseUint16 (seqToKey s) = Some s"
proof -
  have "seqToKey s \<noteq> []" using length_seqToKey [of s] by fastforce
  then show ?thesis
    using unat_less_2_64 [of s] by (simp add: ParseUint16_def parse_hex_digits seqToKey_hex)
qed

section \<open>The loops\<close>

lemma dedup_props:
  assumes "dedup H txs seen = (u, hs, seen')"
  shows "hs = map H u" "seen' = seen \<union> H ` set txs" "seen' = seen \<union> set hs" "distinct hs"
    "set hs \<inter> seen = {}" "set u \<subseteq> set txs" "length u \<le> length txs"
proof -
  have "hs = map H u \<and> seen' = seen \<union> H ` set txs \<and> seen' = seen \<union> set hs \<and> distinct hs \<and>
    set hs \<inter> seen = {} \<and> set u \<subseteq> set txs \<and> length u \<le> length txs"
    using assms
    by (induction H txs seen arbitrary: u hs seen' rule: dedup.induct)
      (force split: if_splits prod.splits)+
  then show "hs = map H u" "seen' = seen \<union> H ` set txs" "seen' = seen \<union> set hs" "distinct hs"
    "set hs \<inter> seen = {}" "set u \<subseteq> set txs" "length u \<le> length txs"
    by blast+
qed

lemma dedup_fresh:
  "distinct (map H txs) \<Longrightarrow> H ` set txs \<inter> seen = {} \<Longrightarrow>
   dedup H txs seen = (txs, map H txs, seen \<union> H ` set txs)"
  by (induction H txs seen rule: dedup.induct) (auto simp: insert_commute)

lemma rollbackSeen_eq [simp]: "rollbackSeen hs seen = seen - set hs"
  by (induction hs seen rule: rollbackSeen.induct) auto

lemma unsee_eq [simp]: "unsee H p txs seen = seen - (H ` set txs - p)"
  by (induction H p txs seen rule: unsee.induct) auto

lemma fill_slots_rev:
  "\<lbrakk>length vs \<le> head; head \<le> length queue\<rbrakk> \<Longrightarrow>
   fill_slots queue head (rev vs) =
     (take (head - length vs) queue @ vs @ drop head queue, head - length vs)"
proof (induction vs arbitrary: queue head rule: rev_induct)
  case (snoc v vs)
  then have h: "0 < head" "head - 1 < length queue" by auto
  with snoc show ?case
    by (simp add: drop_update_cancel Cons_nth_drop_Suc [symmetric] del: Cons_nth_drop_Suc)
qed simp

section \<open>What the queue holds\<close>

definition pending :: "'d BatchQueue \<Rightarrow> queuedItem list" where
  "pending q = drop (bq_head q) (bq_queue q)"

definition live :: "'d BatchQueue \<Rightarrow> queuedItem list" where
  "live q = bq_inFlight q @ pending q"

definition tracked :: "'d BatchQueue \<Rightarrow> queuedItem list" where
  "tracked q = (case bq_postponedItem q of None \<Rightarrow> [] | Some item \<Rightarrow> [item]) @ live q"

definition items_txs :: "queuedItem list \<Rightarrow> bytes list" where
  "items_txs items = concat (map qi_Batch items)"

lemma items_txs_simps [simp]:
  "items_txs [] = []"
  "items_txs (x # xs) = qi_Batch x @ items_txs xs"
  "items_txs (xs @ ys) = items_txs xs @ items_txs ys"
  by (simp_all add: items_txs_def)

text \<open>The keys of a list of entries are those of increasing sequence numbers, strictly between
  \<open>nextPrependSeq\<close> and \<open>nextAddSeq\<close>.\<close>

definition keys_ok :: "u64 \<Rightarrow> u64 \<Rightarrow> queuedItem list \<Rightarrow> bool" where
  "keys_ok lo hi items \<longleftrightarrow>
     (\<exists>ss. map qi_Key items = map seqToKey ss \<and> sorted_wrt (<) (lo # ss @ [hi]))"

text \<open>The write-ahead log holds every entry of a list under its key.\<close>

definition logged :: "'d queue_env \<Rightarrow> (string \<rightharpoonup> bytes) \<Rightarrow> queuedItem list \<Rightarrow> bool" where
  "logged env wal items \<longleftrightarrow>
     (\<forall>item \<in> set items. qi_Batch item \<noteq> [] \<and> q_Marshal env (qi_Batch item) \<noteq> None \<and>
        wal (CHR ''/'' # qi_Key item) = q_Marshal env (qi_Batch item))"

definition queue_inv :: "'d queue_env \<Rightarrow> ('d \<Rightarrow> (string \<rightharpoonup> bytes)) \<Rightarrow> 'd BatchQueue \<Rightarrow> bool" where
  "queue_inv env view q \<longleftrightarrow>
     bq_head q \<le> length (bq_queue q) \<and>
     distinct (map (q_sha256 env) (items_txs (live q))) \<and>
     bq_txSeen q = q_sha256 env ` set (items_txs (live q)) \<and>
     distinct (map (q_sha256 env) (bq_inFlightPostponed q)) \<and>
     set (bq_inFlightPostponed q) \<subseteq> set (items_txs (bq_inFlight q)) \<and>
     (\<forall>item. bq_postponedItem q = Some item \<longrightarrow>
        qi_Batch item = bq_inFlightPostponed q \<and> bq_inFlightPostponed q \<noteq> []) \<and>
     keys_ok (bq_nextPrependSeq q) (bq_nextAddSeq q) (tracked q) \<and>
     logged env (view (bq_db q)) (tracked q)"

text \<open>Nothing else is in the log.\<close>

definition wal_exact :: "('d \<Rightarrow> (string \<rightharpoonup> bytes)) \<Rightarrow> 'd BatchQueue \<Rightarrow> bool" where
  "wal_exact view q \<longleftrightarrow>
     dom (view (bq_db q)) = (\<lambda>item. CHR ''/'' # qi_Key item) ` set (tracked q)"

lemma keys_ok_append_last:
  "keys_ok lo hi items \<Longrightarrow> hi < hi + 1 \<Longrightarrow> qi_Key item = seqToKey hi \<Longrightarrow> keys_ok lo (hi + 1) (items @ [item])"
  unfolding keys_ok_def
proof (elim exE conjE)
  fix ss assume "map qi_Key items = map seqToKey ss" "sorted_wrt (<) (lo # ss @ [hi])"
    and h: "hi < hi + 1" "qi_Key item = seqToKey hi"
  then show "\<exists>ss. map qi_Key (items @ [item]) = map seqToKey ss \<and> sorted_wrt (<) (lo # ss @ [hi + 1])"
    by (intro exI [of _ "ss @ [hi]"]) (auto simp: sorted_wrt_append)
qed

lemma keys_ok_Cons_first:
  "keys_ok lo hi items \<Longrightarrow> lo - 1 < lo \<Longrightarrow> qi_Key item = seqToKey lo \<Longrightarrow> keys_ok (lo - 1) hi (item # items)"
  unfolding keys_ok_def
proof (elim exE conjE)
  fix ss assume "map qi_Key items = map seqToKey ss" "sorted_wrt (<) (lo # ss @ [hi])"
    and h: "lo - 1 < lo" "qi_Key item = seqToKey lo"
  then show "\<exists>ss. map qi_Key (item # items) = map seqToKey ss \<and> sorted_wrt (<) ((lo - 1) # ss @ [hi])"
    by (intro exI [of _ "lo # ss"]) (auto simp: sorted_wrt_append)
qed

lemma keys_ok_suffix: "keys_ok lo hi (xs @ ys) \<Longrightarrow> keys_ok lo hi ys"
  unfolding keys_ok_def
proof (elim exE conjE)
  fix ss assume "map qi_Key (xs @ ys) = map seqToKey ss" and s: "sorted_wrt (<) (lo # ss @ [hi])"
  then obtain as bs where "ss = as @ bs" "map qi_Key ys = map seqToKey bs"
    by (auto simp: append_eq_map_conv)
  with s show "\<exists>ss. map qi_Key ys = map seqToKey ss \<and> sorted_wrt (<) (lo # ss @ [hi])"
    by (intro exI [of _ bs]) (auto simp: sorted_wrt_append)
qed

lemma keys_ok_prefixed_drop: "keys_ok lo hi (x # xs @ ys) \<Longrightarrow> keys_ok lo hi (x # ys)"
  unfolding keys_ok_def
proof (elim exE conjE)
  fix ss assume "map qi_Key (x # xs @ ys) = map seqToKey ss" and s: "sorted_wrt (<) (lo # ss @ [hi])"
  then obtain a as bs where "ss = a # as @ bs" "qi_Key x = seqToKey a" "map qi_Key ys = map seqToKey bs"
    by (auto simp: Cons_eq_map_conv append_eq_map_conv)
  with s show "\<exists>ss. map qi_Key (x # ys) = map seqToKey ss \<and> sorted_wrt (<) (lo # ss @ [hi])"
    by (intro exI [of _ "a # bs"]) (auto simp: sorted_wrt_append)
qed

lemma keys_ok_distinct: "keys_ok lo hi items \<Longrightarrow> distinct (map qi_Key items)"
proof -
  assume "keys_ok lo hi items"
  then obtain ss where ss: "map qi_Key items = map seqToKey ss" and s: "sorted_wrt (<) (lo # ss @ [hi])"
    by (auto simp: keys_ok_def)
  from s have "sorted_wrt (<) ss" by (simp add: sorted_wrt_append)
  then have "distinct ss" by (simp add: strict_sorted_iff)
  then show ?thesis by (simp add: ss distinct_map inj_on_def)
qed

lemma keys_ok_keys: "keys_ok lo hi items \<Longrightarrow> item \<in> set items \<Longrightarrow> \<exists>s. qi_Key item = seqToKey s \<and> lo < s \<and> s < hi"
proof -
  assume "keys_ok lo hi items" "item \<in> set items"
  then obtain ss where ss: "map qi_Key items = map seqToKey ss" and s: "sorted_wrt (<) (lo # ss @ [hi])"
    by (auto simp: keys_ok_def)
  have "qi_Key item \<in> set (map qi_Key items)" using \<open>item \<in> set items\<close> by simp
  with ss s show ?thesis by (auto simp: sorted_wrt_append)
qed

lemma keys_ok_bounds: "keys_ok lo hi items \<Longrightarrow> lo < hi"
  by (auto simp: keys_ok_def)

lemma logged_simps [simp]:
  "logged env wal []"
  "logged env wal (x # xs) \<longleftrightarrow> qi_Batch x \<noteq> [] \<and> q_Marshal env (qi_Batch x) \<noteq> None \<and>
     wal (CHR ''/'' # qi_Key x) = q_Marshal env (qi_Batch x) \<and> logged env wal xs"
  "logged env wal (xs @ ys) \<longleftrightarrow> logged env wal xs \<and> logged env wal ys"
  by (auto simp: logged_def)

lemma logged_cong: "(\<And>item. item \<in> set items \<Longrightarrow> wal' (CHR ''/'' # qi_Key item) = wal (CHR ''/'' # qi_Key item)) \<Longrightarrow>
   logged env wal' items \<longleftrightarrow> logged env wal items"
  by (simp add: logged_def)

section \<open>Functional behaviour of the operations\<close>

text \<open>Rolling back, compacting and prepending move entries between the array and the in-flight list;
  in terms of \<^const>\<open>pending\<close> they are list operations.\<close>

lemma rollback_queue:
  assumes "bq_head q \<le> length (bq_queue q)"
  shows "pending (rollbackInFlight env q) = live q"
    and "bq_inFlight (rollbackInFlight env q) = []"
    and "bq_head (rollbackInFlight env q) \<le> length (bq_queue (rollbackInFlight env q))"
proof -
  have "pending (rollbackInFlight env q) = live q \<and> bq_inFlight (rollbackInFlight env q) = [] \<and>
    bq_head (rollbackInFlight env q) \<le> length (bq_queue (rollbackInFlight env q))"
    using assms fill_slots_rev [of "bq_inFlight q" "bq_head q" "bq_queue q"]
    by (cases "bq_postponedItem q") (auto simp: rollbackInFlight_def Let_def pending_def live_def)
  then show "pending (rollbackInFlight env q) = live q"
    and "bq_inFlight (rollbackInFlight env q) = []"
    and "bq_head (rollbackInFlight env q) \<le> length (bq_queue (rollbackInFlight env q))"
    by blast+
qed

lemma rollback_fields [simp]:
  "bq_txSeen (rollbackInFlight env q) = bq_txSeen q"
  "bq_nextAddSeq (rollbackInFlight env q) = bq_nextAddSeq q"
  "bq_nextPrependSeq (rollbackInFlight env q) = bq_nextPrependSeq q"
  "bq_maxQueueSize (rollbackInFlight env q) = bq_maxQueueSize q"
  by (auto simp: rollbackInFlight_def Let_def split: option.splits prod.splits)

lemma compact_pending [simp]:
  "pending (compact q) = pending q"
  "bq_head q \<le> length (bq_queue q) \<Longrightarrow> bq_head (compact q) \<le> length (bq_queue (compact q))"
  "bq_inFlight (compact q) = bq_inFlight q" "bq_txSeen (compact q) = bq_txSeen q"
  "bq_inFlightPostponed (compact q) = bq_inFlightPostponed q"
  "bq_postponedItem (compact q) = bq_postponedItem q"
  "bq_nextAddSeq (compact q) = bq_nextAddSeq q"
  "bq_nextPrependSeq (compact q) = bq_nextPrependSeq q" "bq_db (compact q) = bq_db q"
  "bq_maxQueueSize (compact q) = bq_maxQueueSize q"
  by (simp_all add: compact_def pending_def)

lemma prependItem_pending [simp]:
  "bq_head q \<le> length (bq_queue q) \<Longrightarrow> pending (prependItem q item) = item # pending q"
  "bq_head q \<le> length (bq_queue q) \<Longrightarrow>
   bq_head (prependItem q item) \<le> length (bq_queue (prependItem q item))"
  "bq_inFlight (prependItem q item) = bq_inFlight q" "bq_txSeen (prependItem q item) = bq_txSeen q"
  "bq_nextAddSeq (prependItem q item) = bq_nextAddSeq q"
  "bq_nextPrependSeq (prependItem q item) = bq_nextPrependSeq q"
  "bq_db (prependItem q item) = bq_db q"
  "bq_maxQueueSize (prependItem q item) = bq_maxQueueSize q"
proof -
  assume "bq_head q \<le> length (bq_queue q)"
  then show "pending (prependItem q item) = item # pending q"
    using Cons_nth_drop_Suc [of "bq_head q - 1" "(bq_queue q)[bq_head q - 1 := item]"]
    by (cases "bq_head q") (auto simp: prependItem_def pending_def)
qed (auto simp: prependItem_def)

text \<open>How many of the waiting entries one \<open>Drain\<close> takes, as a function of the waiting list alone.\<close>

fun drain_count :: "u64 \<Rightarrow> u64 \<Rightarrow> bool \<Rightarrow> queuedItem list \<Rightarrow> nat" where
  "drain_count maxBytes tot some [] = 0"
| "drain_count maxBytes tot some (item # items) =
     (if 0 < maxBytes \<and> maxBytes < tot + entryBytes (qi_Batch item) \<and> some then 0
      else Suc (drain_count maxBytes (tot + entryBytes (qi_Batch item))
                 (some \<or> qi_Batch item \<noteq> []) items))"

lemma drain_count_le: "drain_count maxBytes tot some items \<le> length items"
  by (induction maxBytes tot some items rule: drain_count.induct) auto

lemma drain_loop_eq:
  "head \<le> length queue \<Longrightarrow>
   drain_loop maxBytes queue head tot txs infl =
     (let items = drop head queue; n = drain_count maxBytes tot (txs \<noteq> []) items
      in (take head queue @ replicate n emptyItem @ drop (head + n) queue, head + n,
          txs @ items_txs (take n items), infl @ take n items))"
proof (induction maxBytes queue head tot txs infl rule: drain_loop.induct)
  case (1 maxBytes queue head tot txs infl)
  show ?case
  proof (cases "head < length queue")
    case False
    with "1.prems" show ?thesis by (simp add: drain_loop.simps)
  next
    case True
    let ?item = "queue ! head"
    let ?stop = "0 < maxBytes \<and> maxBytes < tot + entryBytes (qi_Batch ?item) \<and> txs \<noteq> []"
    have d: "drop head queue = ?item # drop (Suc head) queue"
      using True by (rule Cons_nth_drop_Suc [symmetric])
    show ?thesis
    proof (cases ?stop)
      case st: True
      then show ?thesis
        using True by (subst drain_loop.simps) (simp add: Let_def d id_take_nth_drop [OF True, symmetric])
    next
      case st: False
      have "take (Suc head) (queue[head := emptyItem]) = take head queue @ [emptyItem]"
        using True by (simp add: take_Suc_conv_app_nth)
      moreover have "drain_loop maxBytes queue head tot txs infl =
        drain_loop maxBytes (queue[head := emptyItem]) (Suc head) (tot + entryBytes (qi_Batch ?item))
          (txs @ qi_Batch ?item) (infl @ [?item])"
        using True st by (subst drain_loop.simps) (simp only: Let_def if_True if_False)
      ultimately show ?thesis
        using "1.IH" [OF True refl refl st] st True
        by (simp add: d Let_def drop_update_cancel)
    qed
  qed
qed

lemma Drain_eq:
  fixes env q maxBytes
  defines "n \<equiv> drain_count maxBytes 0 False (live q)"
  assumes "bq_head q \<le> length (bq_queue q)" "Drain env q maxBytes = (q', txs)"
  shows "bq_inFlight q' = take n (live q)" "pending q' = drop n (live q)"
    "txs = items_txs (bq_inFlight q')" "bq_head q' \<le> length (bq_queue q')"
    "bq_txSeen q' = bq_txSeen q" "bq_nextAddSeq q' = bq_nextAddSeq q"
    "bq_nextPrependSeq q' = bq_nextPrependSeq q" "bq_db q' = bq_db (rollbackInFlight env q)"
    "bq_inFlightPostponed q' = bq_inFlightPostponed (rollbackInFlight env q)"
    "bq_postponedItem q' = bq_postponedItem (rollbackInFlight env q)"
    "bq_maxQueueSize q' = bq_maxQueueSize q"
proof -
  let ?r = "rollbackInFlight env q"
  note r = rollback_queue [OF assms(2), of env]
  have l: "drop (bq_head ?r) (bq_queue ?r) = live q"
    using r(1) by (simp add: pending_def)
  have n: "n \<le> length (live q)" unfolding n_def by (rule drain_count_le)
  then have h: "bq_head ?r + n \<le> length (bq_queue ?r)"
    using r(3) l by (metis add_le_cancel_left le_add_diff_inverse length_drop)
  let ?queue = "take (bq_head ?r) (bq_queue ?r) @ replicate n emptyItem @ drop (bq_head ?r + n) (bq_queue ?r)"
  let ?q = "?r\<lparr>bq_queue := ?queue, bq_head := bq_head ?r + n, bq_inFlight := take n (live q)\<rparr>"
  have p: "pending ?q = drop n (live q)" and hd: "bq_head ?q \<le> length (bq_queue ?q)"
    using h by (auto simp: pending_def min_def l [symmetric] add.commute)
  have "length (bq_queue ?r) \<le> bq_head ?r \<Longrightarrow> live q = []"
    by (metis l drop_all)
  then have "q' = ?r \<and> live q = [] \<and> txs = [] \<or> q' = compact ?q \<and> txs = items_txs (take n (live q))"
    using assms(3) r by (auto simp: Drain_def Let_def drain_loop_eq l n_def pending_def split: if_splits)
  then have "bq_inFlight q' = take n (live q) \<and> pending q' = drop n (live q) \<and>
    txs = items_txs (bq_inFlight q') \<and> bq_head q' \<le> length (bq_queue q') \<and>
    bq_txSeen q' = bq_txSeen q \<and> bq_nextAddSeq q' = bq_nextAddSeq q \<and>
    bq_nextPrependSeq q' = bq_nextPrependSeq q \<and> bq_db q' = bq_db ?r \<and>
    bq_inFlightPostponed q' = bq_inFlightPostponed ?r \<and> bq_postponedItem q' = bq_postponedItem ?r \<and>
    bq_maxQueueSize q' = bq_maxQueueSize q"
    using r n p hd by (elim disjE conjE) simp_all
  then show "bq_inFlight q' = take n (live q)" "pending q' = drop n (live q)"
    "txs = items_txs (bq_inFlight q')" "bq_head q' \<le> length (bq_queue q')"
    "bq_txSeen q' = bq_txSeen q" "bq_nextAddSeq q' = bq_nextAddSeq q"
    "bq_nextPrependSeq q' = bq_nextPrependSeq q" "bq_db q' = bq_db ?r"
    "bq_inFlightPostponed q' = bq_inFlightPostponed ?r" "bq_postponedItem q' = bq_postponedItem ?r"
    "bq_maxQueueSize q' = bq_maxQueueSize q"
    by blast+
qed

section \<open>How much one drain returns\<close>

definition txs_size :: "bytes list \<Rightarrow> nat" where
  "txs_size txs = sum_list (map length txs)"

lemma txs_size_simps [simp]:
  "txs_size [] = 0" "txs_size (tx # txs) = length tx + txs_size txs"
  "txs_size (xs @ ys) = txs_size xs + txs_size ys"
  by (simp_all add: txs_size_def)

lemma unat_entryBytes: "txs_size txs < 2 ^ 64 \<Longrightarrow> unat (entryBytes txs) = txs_size txs"
proof (induction txs)
  case (Cons tx txs)
  then have "unat (word_of_nat (length tx) :: u64) = length tx" "unat (entryBytes txs) = txs_size txs"
    by simp_all
  with Cons.prems show ?case by (simp add: unat_add_no_wrap)
qed simp

lemma drain_count_props:
  assumes "\<forall>item \<in> set items. qi_Batch item \<noteq> []" "unat tot + txs_size (items_txs items) < 2 ^ 64"
    and "n = drain_count maxBytes tot some items" "0 < maxBytes"
    "some \<Longrightarrow> tot \<le> maxBytes"
  shows "(some \<longrightarrow> unat tot + txs_size (items_txs (take n items)) \<le> unat maxBytes)
     \<and> (\<not> some \<longrightarrow> 1 < n \<longrightarrow> unat tot + txs_size (items_txs (take n items)) \<le> unat maxBytes)
     \<and> (n < length items \<longrightarrow> unat maxBytes < unat tot + txs_size (items_txs (take (Suc n) items)))"
  using assms
proof (induction maxBytes tot some items arbitrary: n rule: drain_count.induct)
  case (2 maxBytes tot some item items)
  let ?t = "tot + entryBytes (qi_Batch item)"
  have b: "unat (entryBytes (qi_Batch item)) = txs_size (qi_Batch item)"
    using "2.prems"(2) by (intro unat_entryBytes) simp
  then have t: "unat ?t = unat tot + txs_size (qi_Batch item)"
    using "2.prems"(2) by (simp add: unat_add_no_wrap)
  show ?case
  proof (cases "0 < maxBytes \<and> maxBytes < ?t \<and> some")
    case True
    then show ?thesis using "2.prems" t by (simp add: word_less_nat_alt word_le_nat_alt)
  next
    case False
    show ?thesis
    proof (cases "?t \<le> maxBytes")
      case True
      with False "2.IH" [OF False, of "n - 1"] "2.prems" t show ?thesis
        by (auto simp: word_le_nat_alt)
    next
      case g: False
      with False "2.prems"(4) have "\<not> some" by auto
      moreover have "unat (?t + entryBytes (qi_Batch a)) = unat ?t + txs_size (qi_Batch a)"
        if "items = a # as" for a as
        using "2.prems"(2) t that by (simp add: unat_add_no_wrap unat_entryBytes)
      ultimately show ?thesis using False g "2.prems" t
        by (cases items) (auto simp: word_le_nat_alt word_less_nat_alt not_le)
    qed
  qed
qed (auto simp: word_le_nat_alt)

end
