(* ===== verification/Queue_Durability.thy ===== *)
theory Queue_Durability
  imports Batch_Queue "HOL-Library.Sublist"
begin

text \<open>
  Safety of the batch queue (\<open>pkg/sequencers/single/queue.go\<close>). \<open>batch_wal\<close> is the interface to the
  datastore and the codec, in which the invariant \<open>queue_inv\<close> is preserved by every call whatever fails;
  \<open>reliable_wal\<close> adds that nothing fails, and there the log holds exactly the tracked entries, so that
  a restart recovers them. Both are interpreted, on the datastore with a failure schedule and on the
  in-memory one.
\<close>

section \<open>The invariant under every operation\<close>

lemma pending_update [simp]:
  "pending (q\<lparr>bq_inFlight := x1\<rparr>) = pending q" "pending (q\<lparr>bq_inFlightPostponed := x2\<rparr>) = pending q"
  "pending (q\<lparr>bq_postponedItem := x3\<rparr>) = pending q" "pending (q\<lparr>bq_txSeen := x4\<rparr>) = pending q"
  "pending (q\<lparr>bq_nextAddSeq := x5\<rparr>) = pending q" "pending (q\<lparr>bq_nextPrependSeq := x5\<rparr>) = pending q"
  "pending (q\<lparr>bq_db := x6\<rparr>) = pending q"
  by (simp_all add: pending_def)

definition postponedItems :: "'d BatchQueue \<Rightarrow> queuedItem list" where
  "postponedItems q = (case bq_postponedItem q of None \<Rightarrow> [] | Some item \<Rightarrow> [item])"

lemma ack_finish_eq:
  assumes "bq_head q \<le> length (bq_queue q)"
  shows "pending (ack_finish env q) = postponedItems q @ pending q"
    "bq_head (ack_finish env q) \<le> length (bq_queue (ack_finish env q))"
    "bq_inFlight (ack_finish env q) = []" "bq_inFlightPostponed (ack_finish env q) = []"
    "bq_postponedItem (ack_finish env q) = None" "bq_db (ack_finish env q) = bq_db q"
    "bq_nextAddSeq (ack_finish env q) = bq_nextAddSeq q"
    "bq_nextPrependSeq (ack_finish env q) = bq_nextPrependSeq q"
    "bq_txSeen (ack_finish env q) = bq_txSeen q -
       (q_sha256 env ` set (items_txs (bq_inFlight q)) - q_sha256 env ` set (bq_inFlightPostponed q))"
  unfolding ack_finish_def Let_def items_txs_def [symmetric] postponedItems_def
  using assms by (cases "bq_postponedItem q"; simp)+

text \<open>What the queue needs of its environment: the datastore laws, and that a marshalled batch
  unmarshals to itself.\<close>

locale batch_wal = datastore_laws "q_ds env" view
  for env :: "'d queue_env" and view :: "'d \<Rightarrow> (string \<rightharpoonup> bytes)" +
  assumes unmarshal_marshal: "q_Marshal env b = Some v \<Longrightarrow> q_Unmarshal env v = Some b"
begin

abbreviation H where "H \<equiv> q_sha256 env"

lemma newKey_seq [simp]: "ds_NewKey (q_ds env) (seqToKey s) = CHR ''/'' # seqToKey s"
  by (rule newKey_relative [OF clean_seqToKey])

lemma newKey_slash_seq [simp]:
  "ds_NewKey (q_ds env) (CHR ''/'' # seqToKey s) = CHR ''/'' # seqToKey s"
  by (rule newKey_clean [OF clean_seqToKey])

lemma name_seq [simp]: "ds_Name (q_ds env) (CHR ''/'' # seqToKey s) = seqToKey s"
  by (rule name_plain [OF seqToKey_plain])

lemma persist_ok:
  assumes "persistBatch env d b (seqToKey s) = (d', None)"
  shows "q_Marshal env b \<noteq> None" "view d' = (view d)(CHR ''/'' # seqToKey s := q_Marshal env b)"
  using assms by (auto simp: persistBatch_def dest: put_ok split: option.splits prod.splits)

lemma persist_failed: "persistBatch env d b key = (d', Some e) \<Longrightarrow> view d' = view d"
  by (auto simp: persistBatch_def dest: put_failed split: option.splits prod.splits)

lemma delete_other:
  "k' \<noteq> k \<Longrightarrow> view (fst (ds_Delete (q_ds env) d k)) k' = view d k'"
  using delete_ok [of d k] delete_failed [of d k]
  by (cases "ds_Delete (q_ds env) d k"; cases "snd (ds_Delete (q_ds env) d k)") auto

lemma inv_D:
  assumes "queue_inv env view q"
  shows "bq_head q \<le> length (bq_queue q)"
    "distinct (map H (items_txs (live q)))"
    "bq_txSeen q = H ` set (items_txs (live q))"
    "distinct (map H (bq_inFlightPostponed q))"
    "set (bq_inFlightPostponed q) \<subseteq> set (items_txs (bq_inFlight q))"
    "\<And>item. bq_postponedItem q = Some item \<Longrightarrow>
       qi_Batch item = bq_inFlightPostponed q \<and> bq_inFlightPostponed q \<noteq> []"
    "keys_ok (bq_nextPrependSeq q) (bq_nextAddSeq q) (tracked q)"
    "logged env (view (bq_db q)) (tracked q)"
  using assms by (auto simp: queue_inv_def)

lemma NewBatchQueue_inv: "queue_inv env view (NewBatchQueue db maxSize)"
  by (simp add: queue_inv_def NewBatchQueue_def live_def pending_def tracked_def keys_ok_def initialSeqNum_def)

lemma inv_db_cong:
  "view d' = view (bq_db q) \<Longrightarrow> queue_inv env view (q\<lparr>bq_db := d'\<rparr>) = queue_inv env view q"
  by (simp add: queue_inv_def live_def pending_def tracked_def)

lemma AddBatch_stored_inv:
  assumes inv: "queue_inv env view q" and room: "bq_nextAddSeq q < bq_nextAddSeq q + 1"
    and d: "dedup H batch (bq_txSeen q) = (u, hs, seen)" and ne: "u \<noteq> []"
    and p: "persistBatch env (bq_db q) u (seqToKey (bq_nextAddSeq q)) = (db', None)"
  shows "queue_inv env view (q\<lparr>bq_txSeen := seen, bq_db := db', bq_nextAddSeq := bq_nextAddSeq q + 1,
    bq_queue := bq_queue q @ [\<lparr>qi_Batch = u, qi_Key = seqToKey (bq_nextAddSeq q)\<rparr>]\<rparr>)"
    (is "queue_inv env view ?q")
proof -
  let ?item = "\<lparr>qi_Batch = u, qi_Key = seqToKey (bq_nextAddSeq q)\<rparr>"
  note i = inv_D [OF inv] and dd = dedup_props [OF d]
  have live: "live ?q = live q @ [?item]" and tracked: "tracked ?q = tracked q @ [?item]"
    using i(1) by (simp_all add: live_def pending_def tracked_def)
  have "logged env (view db') (tracked q) = logged env (view (bq_db q)) (tracked q)"
    using keys_ok_keys [OF i(7)] by (intro logged_cong) (fastforce simp: persist_ok(2) [OF p])
  moreover have "keys_ok (bq_nextPrependSeq q) (bq_nextAddSeq q + 1) (tracked q @ [?item])"
    using keys_ok_append_last [OF i(7) room] by simp
  ultimately show ?thesis
    using i dd(1,3,4,5) persist_ok [OF p] ne unfolding queue_inv_def live tracked
    by (auto simp: image_Un)
qed

lemma AddBatch_inv:
  assumes inv: "queue_inv env view q" and room: "bq_nextAddSeq q < bq_nextAddSeq q + 1"
    and add: "AddBatch env q batch = (q', r)"
  shows "queue_inv env view q'"
proof -
  obtain u hs seen where d: "dedup H batch (bq_txSeen q) = (u, hs, seen)"
    by (metis prod_cases3)
  note dd = dedup_props [OF d]
  obtain db' r' where p: "persistBatch env (bq_db q) u (seqToKey (bq_nextAddSeq q)) = (db', r')"
    by fastforce
  have undo: "seen - set hs = bq_txSeen q" using dd by blast
  have same: "u = [] \<Longrightarrow> seen = bq_txSeen q" using dd by simp
  have "queue_inv env view (q\<lparr>bq_txSeen := bq_txSeen q, bq_db := bq_db q\<rparr>)"
    using inv by simp
  then have unchanged: "queue_inv env view (q\<lparr>bq_txSeen := bq_txSeen q, bq_db := d'\<rparr>)"
    if "view d' = view (bq_db q)" for d'
    using that inv_db_cong [of d' q] by simp
  consider "u = []" | "u \<noteq> []" "r = Some ErrQueueFull" | e where "u \<noteq> []" "r' = Some e"
    | "u \<noteq> []" "r' = None" "r \<noteq> Some ErrQueueFull"
    by (cases r') auto
  then show ?thesis
  proof cases
    case 1
    then show ?thesis using add inv same by (auto simp: AddBatch_def d)
  next
    case 2
    then show ?thesis
      using add unchanged [OF refl] undo
      by (auto simp: AddBatch_def d p Let_def split: if_splits option.splits)
  next
    case (3 e)
    then show ?thesis
      using add unchanged [of db'] unchanged [OF refl] undo persist_failed [of "bq_db q" u _ db' e] p
      by (auto simp: AddBatch_def d Let_def split: if_splits)
  next
    case 4
    then show ?thesis
      using add AddBatch_stored_inv [OF inv room d] p
      by (auto simp: AddBatch_def d Let_def split: if_splits)
  qed
qed

lemma SetPostponed_inv:
  "\<lbrakk>queue_inv env view q; distinct (map H txs); set txs \<subseteq> set (items_txs (bq_inFlight q))\<rbrakk> \<Longrightarrow>
   queue_inv env view (SetPostponed q txs)"
  by (auto simp: queue_inv_def SetPostponed_def live_def pending_def tracked_def)

lemma rollback_inv:
  assumes inv: "queue_inv env view q"
  shows "bq_inFlightPostponed (rollbackInFlight env q) = []"
    "bq_postponedItem (rollbackInFlight env q) = None"
    "logged env (view (bq_db (rollbackInFlight env q))) (live q)"
    "keys_ok (bq_nextPrependSeq q) (bq_nextAddSeq q) (live q)"
proof -
  note i = inv_D [OF inv]
  have l: "logged env (view (bq_db q)) (live q)" using i(8) by (simp add: tracked_def)
  show keys: "keys_ok (bq_nextPrependSeq q) (bq_nextAddSeq q) (live q)"
    using i(7) keys_ok_suffix by (auto simp: tracked_def)
  have "bq_inFlight q = [] \<Longrightarrow> bq_inFlightPostponed q = [] \<and> bq_postponedItem q = None"
    using i(5,6) by (cases "bq_postponedItem q") auto
  then show "bq_inFlightPostponed (rollbackInFlight env q) = []"
    "bq_postponedItem (rollbackInFlight env q) = None"
    by (auto simp: rollbackInFlight_def Let_def split: option.splits prod.splits)
  show "logged env (view (bq_db (rollbackInFlight env q))) (live q)"
  proof (cases "bq_postponedItem q")
    case None
    then have "bq_db (rollbackInFlight env q) = bq_db q"
      by (simp add: rollbackInFlight_def Let_def split: prod.splits)
    with l show ?thesis by simp
  next
    case (Some item)
    have "tracked q = item # live q" using Some by (simp add: tracked_def)
    then have d: "qi_Key item \<notin> qi_Key ` set (live q)" and "item \<in> set (tracked q)"
      using keys_ok_distinct [OF i(7)] by simp_all
    then obtain s where s: "qi_Key item = seqToKey s" using keys_ok_keys [OF i(7)] by blast
    have "bq_db (rollbackInFlight env q) = bq_db q \<or> bq_db (rollbackInFlight env q) =
      fst (ds_Delete (q_ds env) (bq_db q) (CHR ''/'' # qi_Key item))"
      using Some s by (auto simp: rollbackInFlight_def Let_def split: prod.splits)
    moreover have "logged env (view (fst (ds_Delete (q_ds env) (bq_db q) (CHR ''/'' # qi_Key item)))) (live q)
        = logged env (view (bq_db q)) (live q)"
      using d by (intro logged_cong delete_other) (metis image_eqI list.inject)
    ultimately show ?thesis using l by auto
  qed
qed

lemma Drain_inv:
  assumes inv: "queue_inv env view q" and drain: "Drain env q maxBytes = (q', txs)"
  shows "queue_inv env view q'" "live q' = live q"
proof -
  note i = inv_D [OF inv] and d = Drain_eq [OF inv_D(1) [OF inv] drain]
  show live: "live q' = live q" unfolding live_def [of q'] d(1,2) by simp
  have "tracked q' = live q" using live by (simp add: tracked_def d(10) rollback_inv(2) [OF inv])
  then show "queue_inv env view q'"
    using i(2,3) d(4) rollback_inv [OF inv] unfolding queue_inv_def live d(5-10)
    by simp
qed

lemma ack_persist_inv:
  assumes inv: "queue_inv env view q" and room: "bq_nextPrependSeq q - 1 < bq_nextPrependSeq q"
    and p: "ack_persist env q = (q', r)"
  shows "queue_inv env view q'" "live q' = live q" "bq_inFlight q' = bq_inFlight q"
    "pending q' = pending q" "bq_inFlightPostponed q' = bq_inFlightPostponed q"
    "r = None \<Longrightarrow> bq_inFlightPostponed q \<noteq> [] \<Longrightarrow> bq_postponedItem q' \<noteq> None"
    "bq_nextAddSeq q' = bq_nextAddSeq q"
proof -
  note i = inv_D [OF inv]
  let ?lo = "bq_nextPrependSeq q"
  obtain db' r' where s: "persistBatch env (bq_db q) (bq_inFlightPostponed q) (seqToKey ?lo) = (db', r')"
    by fastforce
  let ?item = "\<lparr>qi_Batch = bq_inFlightPostponed q, qi_Key = seqToKey ?lo\<rparr>"
  let ?stored = "q\<lparr>bq_db := db', bq_nextPrependSeq := ?lo - 1, bq_postponedItem := Some ?item\<rparr>"
  have stored: "queue_inv env view ?stored"
    if "bq_inFlightPostponed q \<noteq> []" "bq_postponedItem q = None" "r' = None"
  proof -
    note ok = persist_ok [OF s [unfolded \<open>r' = None\<close>]]
    have t: "tracked q = live q" "tracked ?stored = ?item # live q"
      using that by (simp_all add: tracked_def live_def pending_def)
    have l: "logged env (view db') (live q) = logged env (view (bq_db q)) (live q)"
      using keys_ok_keys [OF i(7)] t by (intro logged_cong) (fastforce simp: ok(2))
    have "keys_ok (?lo - 1) (bq_nextAddSeq q) (?item # live q)"
      using keys_ok_Cons_first [OF i(7) room] t by simp
    moreover have "live ?stored = live q" by (simp add: live_def pending_def)
    ultimately show ?thesis
      using i(1-5) i(8) that(1) ok l unfolding queue_inv_def t by simp
  qed
  have failed: "queue_inv env view (q\<lparr>bq_db := db'\<rparr>)" if "r' = Some e" for e
    using inv inv_db_cong [OF persist_failed [OF s [unfolded that]]] by simp
  consider "q' = q" "r = None" "bq_inFlightPostponed q = [] \<or> bq_postponedItem q \<noteq> None"
    | "bq_inFlightPostponed q \<noteq> []" "bq_postponedItem q = None" "r' = None" "q' = ?stored" "r = None"
    | e where "r' = Some e" "q' = q\<lparr>bq_db := db'\<rparr>" "r = Some (ErrPersistPostponed e)"
  proof (cases "bq_inFlightPostponed q \<noteq> [] \<and> bq_postponedItem q = None")
    case True
    with p s that(2,3) show ?thesis by (cases r') (simp_all add: ack_persist_def)
  next
    case False
    with p that(1) show ?thesis by (simp add: ack_persist_def split: if_splits)
  qed
  then have "queue_inv env view q' \<and> live q' = live q \<and> bq_inFlight q' = bq_inFlight q \<and>
    pending q' = pending q \<and> bq_inFlightPostponed q' = bq_inFlightPostponed q \<and>
    (r = None \<longrightarrow> bq_inFlightPostponed q \<noteq> [] \<longrightarrow> bq_postponedItem q' \<noteq> None) \<and>
    bq_nextAddSeq q' = bq_nextAddSeq q"
  proof cases
    case 1
    then show ?thesis using inv by auto
  next
    case 2
    then show ?thesis using stored by (simp add: live_def pending_def)
  next
    case (3 e)
    then show ?thesis using failed by (simp add: live_def pending_def)
  qed
  then show "queue_inv env view q'" "live q' = live q" "bq_inFlight q' = bq_inFlight q"
    "pending q' = pending q" "bq_inFlightPostponed q' = bq_inFlightPostponed q"
    "r = None \<Longrightarrow> bq_inFlightPostponed q \<noteq> [] \<Longrightarrow> bq_postponedItem q' \<noteq> None"
    "bq_nextAddSeq q' = bq_nextAddSeq q"
    by blast+
qed

lemma add_deletes_ok:
  "add_deletes env db ops items = Inr ops' \<Longrightarrow>
   ops' = ops @ map (\<lambda>item. DDelete (ds_NewKey (q_ds env) (qi_Key item))) items"
  by (induction env db ops items rule: add_deletes.induct) (auto simp: Let_def split: option.splits)

lemma ack_delete_eq:
  assumes keys: "keys_ok lo hi (tracked q)" and d: "ack_delete env q = (q', r)"
  shows "\<exists>db'. q' = q\<lparr>bq_db := db'\<rparr> \<and>
    view db' = (if r = None then (\<lambda>k. if k \<in> (\<lambda>item. CHR ''/'' # qi_Key item) ` set (bq_inFlight q)
                                     then None else view (bq_db q) k)
                else view (bq_db q))"
proof -
  define keys where "keys = map (\<lambda>item. CHR ''/'' # qi_Key item) (bq_inFlight q)"
  have "\<And>item. item \<in> set (bq_inFlight q) \<Longrightarrow> ds_NewKey (q_ds env) (qi_Key item) = CHR ''/'' # qi_Key item"
    using keys_ok_keys [OF assms(1)] by (fastforce simp: tracked_def live_def)
  then have ops: "add_deletes env db [] (bq_inFlight q) = Inr ops \<Longrightarrow> ops = map DDelete keys" for db ops
    using add_deletes_ok [of db "[]" "bq_inFlight q" ops] by (simp add: keys_def)
  have none: ?thesis if "q' = q" "r \<noteq> None \<or> bq_inFlight q = []"
    using that by (intro exI [of _ "bq_db q"]) auto
  show ?thesis
  proof (cases "\<exists>ops. bq_inFlight q \<noteq> [] \<and> ds_Batch (q_ds env) (bq_db q) = None \<and>
      add_deletes env (bq_db q) [] (bq_inFlight q) = Inr ops")
    case False
    with d show ?thesis
      by (intro none) (auto simp: ack_delete_def split: if_splits option.splits sum.splits)
  next
    case True
    obtain db' c where c: "ds_Commit (q_ds env) (bq_db q) (map DDelete keys) = (db', c)"
      by fastforce
    from True ops have "add_deletes env (bq_db q) [] (bq_inFlight q) = Inr (map DDelete keys)"
      by auto
    with True d c have "q' = q\<lparr>bq_db := db'\<rparr>" and r: "r = map_option ErrCommitDeletes c"
      by (cases c; simp add: ack_delete_def)+
    moreover have "view db' = (if r = None then apply_ops (view (bq_db q)) (map DDelete keys) else view (bq_db q))"
      using commit_ok commit_failed c by (cases c) (auto simp: r)
    ultimately show ?thesis
      by (intro exI [of _ db']) (simp add: apply_ops_deletes keys_def [symmetric] flip: set_map)
  qed
qed

lemma ack_finish_inv:
  assumes inv: "queue_inv env view q"
    and p: "bq_inFlightPostponed q = [] \<or> bq_postponedItem q \<noteq> None"
    and v: "view db' = (\<lambda>k. if k \<in> (\<lambda>item. CHR ''/'' # qi_Key item) ` set (bq_inFlight q)
                                     then None else view (bq_db q) k)"
  defines "q' \<equiv> ack_finish env (q\<lparr>bq_db := db'\<rparr>)"
  shows "queue_inv env view q'" "bq_inFlight q' = []" "bq_inFlightPostponed q' = []"
    "items_txs (pending q') = bq_inFlightPostponed q @ items_txs (pending q)"
    "bq_nextPrependSeq q' = bq_nextPrependSeq q" "bq_nextAddSeq q' = bq_nextAddSeq q"
proof -
  note i = inv_D [OF inv]
  let ?post = "case bq_postponedItem q of None \<Rightarrow> [] | Some item \<Rightarrow> [item]"
  let ?items = "?post @ pending q"
  have post: "items_txs ?post = bq_inFlightPostponed q"
    using i(6) p by (cases "bq_postponedItem q") auto
  have pend: "pending q' = ?items" and q': "bq_head q' \<le> length (bq_queue q')" "bq_inFlight q' = []"
    "bq_inFlightPostponed q' = []" "bq_postponedItem q' = None" "bq_db q' = db'"
    "bq_nextAddSeq q' = bq_nextAddSeq q" "bq_nextPrependSeq q' = bq_nextPrependSeq q"
    "bq_txSeen q' = bq_txSeen q - (H ` set (items_txs (bq_inFlight q)) - H ` set (bq_inFlightPostponed q))"
    using i(1) ack_finish_eq [of "q\<lparr>bq_db := db'\<rparr>" env] by (simp_all add: q'_def postponedItems_def)
  show "bq_inFlight q' = []" "bq_inFlightPostponed q' = []"
    "items_txs (pending q') = bq_inFlightPostponed q @ items_txs (pending q)"
    "bq_nextPrependSeq q' = bq_nextPrependSeq q" "bq_nextAddSeq q' = bq_nextAddSeq q"
    using q' post by (simp_all add: pend)
  have live: "live q' = ?items" "tracked q' = ?items"
    using q' pend by (simp_all add: live_def tracked_def)
  have tr: "tracked q = ?post @ bq_inFlight q @ pending q"
    by (simp add: tracked_def live_def)
  have keys: "keys_ok (bq_nextPrependSeq q) (bq_nextAddSeq q) ?items"
    using i(7) keys_ok_suffix keys_ok_prefixed_drop unfolding tr
    by (cases "bq_postponedItem q") auto
  have "qi_Key ` set ?items \<inter> qi_Key ` set (bq_inFlight q) = {}"
    using keys_ok_distinct [OF i(7)] unfolding tr by auto
  then have "logged env (view db') ?items = logged env (view (bq_db q)) ?items"
    by (intro logged_cong) (auto simp: v)
  then have log: "logged env (view db') ?items"
    using i(8) unfolding tr by simp
  have dis: "H ` set (items_txs (bq_inFlight q)) \<inter> H ` set (items_txs (pending q)) = {}"
    and dist: "distinct (map H (items_txs (pending q)))"
    using i(2) by (simp_all add: live_def)
  have disp: "H ` set (bq_inFlightPostponed q) \<inter> H ` set (items_txs (pending q)) = {}"
    and sub: "H ` set (bq_inFlightPostponed q) \<subseteq> H ` set (items_txs (bq_inFlight q))"
    using dis i(5) by blast+
  have "bq_txSeen q' = H ` set (bq_inFlightPostponed q) \<union> H ` set (items_txs (pending q))"
    using dis sub unfolding q'(8) i(3) live_def by (simp add: image_Un) blast
  then show "queue_inv env view q'"
    using i(4) q'(1-7) keys log dist disp unfolding queue_inv_def live by (simp add: post image_Un)
qed

lemma Ack_inv:
  assumes inv: "queue_inv env view q" and room: "bq_nextPrependSeq q - 1 < bq_nextPrependSeq q"
    and ack: "Ack env q = (q', r)"
  shows "queue_inv env view q'"
    "r \<noteq> None \<Longrightarrow> bq_inFlight q' = bq_inFlight q \<and> pending q' = pending q \<and>
       bq_inFlightPostponed q' = bq_inFlightPostponed q"
    "r = None \<Longrightarrow> bq_inFlight q' = [] \<and> bq_inFlightPostponed q' = [] \<and>
       items_txs (pending q') = bq_inFlightPostponed q @ items_txs (pending q)"
proof -
  obtain q1 r1 where a: "ack_persist env q = (q1, r1)" by fastforce
  note p = ack_persist_inv [OF inv room a]
  obtain q2 r2 where b: "ack_delete env q1 = (q2, r2)" by fastforce
  obtain db' where db': "q2 = q1\<lparr>bq_db := db'\<rparr>"
    "view db' = (if r2 = None then (\<lambda>k. if k \<in> (\<lambda>item. CHR ''/'' # qi_Key item) ` set (bq_inFlight q1)
                                     then None else view (bq_db q1) k)
                else view (bq_db q1))"
    using ack_delete_eq [OF inv_D(7) [OF p(1)] b] by auto
  consider e where "r1 = Some e" "q' = q1" "r = Some e" | e where "r2 = Some e" "q' = q2" "r = Some e"
    | "r1 = None" "r2 = None" "q' = ack_finish env q2" "r = None"
    using ack a b by (cases r1; cases r2) (auto simp: Ack_def)
  then have "queue_inv env view q' \<and> (r \<noteq> None \<longrightarrow> bq_inFlight q' = bq_inFlight q \<and> pending q' = pending q \<and>
       bq_inFlightPostponed q' = bq_inFlightPostponed q) \<and>
    (r = None \<longrightarrow> bq_inFlight q' = [] \<and> bq_inFlightPostponed q' = [] \<and>
       items_txs (pending q') = bq_inFlightPostponed q @ items_txs (pending q))"
  proof cases
    case 1
    then show ?thesis using p by simp
  next
    case 2
    then show ?thesis using p db' inv_db_cong [of db' q1] by simp
  next
    case 3
    have "bq_inFlightPostponed q1 = [] \<or> bq_postponedItem q1 \<noteq> None" using p(5,6) 3 by auto
    from ack_finish_inv [OF p(1) this, of db'] db' 3 p(3,4,5) show ?thesis by simp
  qed
  then show "queue_inv env view q'"
    "r \<noteq> None \<Longrightarrow> bq_inFlight q' = bq_inFlight q \<and> pending q' = pending q \<and>
       bq_inFlightPostponed q' = bq_inFlightPostponed q"
    "r = None \<Longrightarrow> bq_inFlight q' = [] \<and> bq_inFlightPostponed q' = [] \<and>
       items_txs (pending q') = bq_inFlightPostponed q @ items_txs (pending q)"
    by blast+
qed

end

section \<open>Restart\<close>

lemma keys_ok_iff:
  "keys_ok lo hi items \<longleftrightarrow> lo < hi \<and> sorted_wrt (<) (map qi_Key items) \<and>
     (\<forall>item \<in> set items. \<exists>s. qi_Key item = seqToKey s \<and> lo < s \<and> s < hi)" (is "_ = ?rhs")
proof
  assume k: "keys_ok lo hi items"
  then obtain ss where ss: "map qi_Key items = map seqToKey ss" and s: "sorted_wrt (<) (lo # ss @ [hi])"
    by (auto simp: keys_ok_def)
  have "sorted_wrt (<) (map seqToKey ss)"
    using s by (simp add: sorted_wrt_map sorted_wrt_append)
  then show ?rhs
    using keys_ok_keys [OF k] keys_ok_bounds [OF k] ss by simp
next
  assume r: ?rhs
  then obtain f where f: "\<And>item. item \<in> set items \<Longrightarrow> qi_Key item = seqToKey (f item) \<and> lo < f item \<and> f item < hi"
    by metis
  then have m: "map qi_Key items = map seqToKey (map f items)" by simp
  then have "sorted_wrt (<) (map f items)"
    using r by (metis (mono_tags, lifting) seqToKey_less sorted_wrt_map sorted_wrt_mono_rel)
  then show "keys_ok lo hi items"
    unfolding keys_ok_def using r f m
    by (intro exI [of _ "map f items"]) (auto simp: sorted_wrt_append)
qed

text \<open>A query ordered by key returns the bindings of a map in one order only.\<close>

lemma ordered_bindings_unique:
  assumes "ordered_bindings m xs" "ordered_bindings m ys"
  shows "xs = ys"
proof -
  have s: "sorted_wrt (<) (map fst xs)" "sorted_wrt (<) (map fst ys)" and m: "map_of xs = map_of ys"
    using assms by (auto simp: ordered_bindings_def)
  then have d: "distinct (map fst xs)" "distinct (map fst ys)"
    by (simp_all add: strict_sorted_iff)
  have "set (map fst xs) = set (map fst ys)"
    using m by (metis dom_map_of_conv_image_fst list.set_map)
  with s have "map fst xs = map fst ys" by (metis strict_sorted_equal)
  moreover have "set xs = set ys" using m d map_of_inject_set by blast
  ultimately show ?thesis
    using d(1) map_inj_on [of fst xs ys] by (simp add: distinct_map)
qed

lemma dedup_full: "dedup H txs seen = (u, hs, seen') \<Longrightarrow> length u = length txs \<Longrightarrow> u = txs"
proof (induction H txs seen arbitrary: u hs seen' rule: dedup.induct)
  case (2 H tx txs seen)
  show ?case
  proof (cases "H tx \<in> seen")
    case True
    then show ?thesis using "2.prems" dedup_props(7) [of H txs seen u hs seen'] by simp
  next
    case False
    then show ?thesis using "2.prems" "2.IH"(2) [OF False] by (auto split: prod.splits)
  qed
qed simp

definition entry :: "'d queue_env \<Rightarrow> queuedItem \<Rightarrow> string \<times> bytes" where
  "entry env item = (CHR ''/'' # qi_Key item, the (q_Marshal env (qi_Batch item)))"

lemma ordered_bindings_entries:
  assumes keys: "keys_ok lo hi items" and log: "logged env wal items"
    and dom: "dom wal = (\<lambda>item. CHR ''/'' # qi_Key item) ` set items"
  shows "ordered_bindings wal (map (entry env) items)"
proof -
  have fst: "map fst (map (entry env) items) = map (Cons (CHR ''/'')) (map qi_Key items)"
    by (simp add: entry_def)
  have s: "sorted_wrt (<) (map fst (map (entry env) items))"
    using keys unfolding fst keys_ok_iff by (simp add: sorted_wrt_map)
  have "map_of (map (entry env) items) k = wal k" for k
  proof (cases "k \<in> dom wal")
    case True
    then obtain item where i: "item \<in> set items" "k = CHR ''/'' # qi_Key item" using dom by auto
    have "distinct (map fst (map (entry env) items))"
      using s by (simp add: strict_sorted_iff)
    moreover have "entry env item \<in> set (map (entry env) items)" using i by simp
    ultimately have "map_of (map (entry env) items) k = Some (the (q_Marshal env (qi_Batch item)))"
      using i by (simp add: entry_def map_of_eq_Some_iff del: set_map)
    then show ?thesis using log i by (auto simp: logged_def)
  next
    case False
    then have "k \<notin> fst ` set (map (entry env) items)" using dom by (auto simp: entry_def)
    with False show ?thesis by (metis domIff map_of_eq_None_iff)
  qed
  with s show ?thesis by (auto simp: ordered_bindings_def)
qed

text \<open>The loop of \<open>Load\<close> over the entries \<open>rest\<close> still to be read, the queue holding those read.\<close>

definition loading :: "'d queue_env \<Rightarrow> ('d \<Rightarrow> (string \<rightharpoonup> bytes)) \<Rightarrow> 'd BatchQueue \<Rightarrow> queuedItem list \<Rightarrow> bool" where
  "loading env view q rest \<longleftrightarrow>
     bq_head q = 0 \<and> bq_inFlight q = [] \<and> bq_inFlightPostponed q = [] \<and> bq_postponedItem q = None \<and>
     distinct (map (q_sha256 env) (items_txs (bq_queue q))) \<and> bq_txSeen q = q_sha256 env ` set (items_txs (bq_queue q)) \<and>
     keys_ok (bq_nextPrependSeq q) (bq_nextAddSeq q) (bq_queue q) \<and>
     sorted_wrt (<) (map qi_Key (bq_queue q @ rest)) \<and>
     (\<forall>item \<in> set rest. \<exists>s. qi_Key item = seqToKey s \<and> s < s + 1 \<and> s - 1 < s) \<and>
     logged env (view (bq_db q)) (bq_queue q @ rest) \<and>
     dom (view (bq_db q)) = (\<lambda>item. CHR ''/'' # qi_Key item) ` set (bq_queue q @ rest)"

lemma bumpSeq_fields [simp]:
  "bq_head (bumpSeq q s) = bq_head q" "bq_inFlight (bumpSeq q s) = bq_inFlight q"
  "bq_inFlightPostponed (bumpSeq q s) = bq_inFlightPostponed q"
  "bq_postponedItem (bumpSeq q s) = bq_postponedItem q" "bq_queue (bumpSeq q s) = bq_queue q"
  "bq_txSeen (bumpSeq q s) = bq_txSeen q" "bq_db (bumpSeq q s) = bq_db q"
  by (simp_all add: bumpSeq_def Let_def)

lemma bumpSeq_bounds:
  assumes "s < s + 1" "s - 1 < s" "bq_nextPrependSeq q < bq_nextAddSeq q"
  shows "bq_nextPrependSeq (bumpSeq q s) < s" "s < bq_nextAddSeq (bumpSeq q s)"
    "bq_nextPrependSeq (bumpSeq q s) \<le> bq_nextPrependSeq q" "bq_nextAddSeq q \<le> bq_nextAddSeq (bumpSeq q s)"
  using assms by (auto simp: bumpSeq_def Let_def)

text \<open>With a datastore that does not fail and a total codec.\<close>

locale reliable_wal = batch_wal env view + reliable_datastore "q_ds env" view
  for env :: "'d queue_env" and view :: "'d \<Rightarrow> (string \<rightharpoonup> bytes)" +
  assumes marshal_total: "q_Marshal env b \<noteq> None"
begin

lemma persist_view:
  "view (fst (persistBatch env d b (seqToKey s))) = (view d)(CHR ''/'' # seqToKey s := q_Marshal env b)"
  "snd (persistBatch env d b (seqToKey s)) = None"
  using marshal_total [of b] put_total put_view
  by (auto simp: persistBatch_def split: option.splits prod.splits) (metis fst_conv snd_conv option.distinct(1))+

lemma dedupAndEnqueue_eq:
  assumes d: "dedup H b (bq_txSeen q) = (f, hs, seen)"
    and v: "view (bq_db q) (CHR ''/'' # seqToKey s) = q_Marshal env b"
  shows "\<exists>db'. dedupAndEnqueue env q b (seqToKey s) = q\<lparr>bq_txSeen := seen, bq_db := db',
      bq_queue := bq_queue q @ (if f = [] then [] else [\<lparr>qi_Batch = f, qi_Key = seqToKey s\<rparr>])\<rparr> \<and>
    view db' = (view (bq_db q))(CHR ''/'' # seqToKey s := if f = [] then None else q_Marshal env f) \<and>
    (f = b \<longrightarrow> f \<noteq> [] \<longrightarrow> db' = bq_db q)"
proof (cases "f = []")
  case True
  then show ?thesis
    using delete_view [of "bq_db q"] by (auto simp: dedupAndEnqueue_def d intro!: exI)
next
  case ne: False
  show ?thesis
  proof (cases "length f < length b")
    case True
    with ne show ?thesis
      using persist_view(1) [of "bq_db q" f] by (auto simp: dedupAndEnqueue_def d intro!: exI)
  next
    case False
    then have "f = b" using dedup_full [OF d] dedup_props(7) [OF d] by simp
    with ne False v show ?thesis
      by (intro exI [of _ "bq_db q"]) (auto simp: dedupAndEnqueue_def d fun_upd_idem)
  qed
qed

lemma loading_step:
  assumes l: "loading env view q (item # rest)" and key: "qi_Key item = seqToKey s" and s: "s < s + 1" "s - 1 < s"
  defines "q' \<equiv> dedupAndEnqueue env (bumpSeq q s) (qi_Batch item) (seqToKey s)"
  shows "loading env view q' rest"
    "H ` set (items_txs (bq_queue q')) = H ` set (items_txs (bq_queue q @ [item]))"
    "distinct (map H (items_txs (bq_queue q @ [item]))) \<Longrightarrow> bq_queue q' = bq_queue q @ [item] \<and> bq_db q' = bq_db q"
proof -
  let ?q = "bumpSeq q s" and ?k = "CHR ''/'' # seqToKey s"
  obtain f hs seen where d: "dedup H (qi_Batch item) (bq_txSeen ?q) = (f, hs, seen)"
    by (metis prod_cases3)
  note dd = dedup_props [OF d]
  have v: "view (bq_db ?q) ?k = q_Marshal env (qi_Batch item)"
    using l key by (simp add: loading_def)
  obtain db' where q': "q' = ?q\<lparr>bq_txSeen := seen, bq_db := db',
      bq_queue := bq_queue q @ (if f = [] then [] else [\<lparr>qi_Batch = f, qi_Key = seqToKey s\<rparr>])\<rparr>"
    and db': "view db' = (view (bq_db q))(?k := if f = [] then None else q_Marshal env f)"
    and same: "f = qi_Batch item \<longrightarrow> f \<noteq> [] \<longrightarrow> db' = bq_db q"
    using dedupAndEnqueue_eq [OF d v] unfolding q'_def by auto
  let ?new = "\<lparr>qi_Batch = f, qi_Key = seqToKey s\<rparr>"
  have queue': "bq_queue q' = bq_queue q @ (if f = [] then [] else [?new])"
    and txs: "items_txs (bq_queue q') = items_txs (bq_queue q) @ f"
    by (simp_all add: q')
  have seen: "bq_txSeen q = H ` set (items_txs (bq_queue q))" using l by (simp add: loading_def)
  show "H ` set (items_txs (bq_queue q')) = H ` set (items_txs (bq_queue q @ [item]))"
    using dd(1-3) seen by (simp add: txs image_Un)
  show "bq_queue q' = bq_queue q @ [item] \<and> bq_db q' = bq_db q"
    if "distinct (map H (items_txs (bq_queue q @ [item])))"
  proof -
    have "f = qi_Batch item" using that d dedup_fresh [of H "qi_Batch item" "bq_txSeen q"] seen
      by (auto simp: Int_commute)
    moreover have "qi_Batch item \<noteq> []" using l by (simp add: loading_def)
    ultimately show ?thesis using same key by (auto simp: q')
  qed
  have sorted: "sorted_wrt (<) (map qi_Key (bq_queue q @ item # rest))"
    using l by (simp add: loading_def)
  then have sorted': "sorted_wrt (<) (map qi_Key (bq_queue q' @ rest))"
    using key by (auto simp: queue' sorted_wrt_append)
  have other: "qi_Key x \<noteq> seqToKey s" if "x \<in> set (bq_queue q @ rest)" for x
    using sorted key that by (auto simp: sorted_wrt_append)
  have "logged env (view db') (bq_queue q @ rest) = logged env (view (bq_db q)) (bq_queue q @ rest)"
    using other by (intro logged_cong) (simp add: db')
  then have log: "logged env (view (bq_db q')) (bq_queue q' @ rest)"
    using l marshal_total by (auto simp: queue' loading_def db' q')
  have D: "dom (view (bq_db q)) = insert ?k ((\<lambda>item. CHR ''/'' # qi_Key item) ` set (bq_queue q @ rest))"
    using l key by (auto simp: loading_def)
  have K: "?k \<notin> (\<lambda>item. CHR ''/'' # qi_Key item) ` set (bq_queue q @ rest)"
    using other by (metis (no_types, lifting) imageE list.inject)
  have dq: "bq_db q' = db'" by (simp add: q')
  have dom: "dom (view (bq_db q')) = (\<lambda>item. CHR ''/'' # qi_Key item) ` set (bq_queue q' @ rest)"
    unfolding dq db' dom_fun_upd D queue' using K by (cases "f = []") (simp_all add: image_Un marshal_total)
  have ko: "keys_ok (bq_nextPrependSeq q) (bq_nextAddSeq q) (bq_queue q)"
    using l by (simp add: loading_def)
  note bs = bumpSeq_bounds [OF s keys_ok_bounds [OF ko]]
  have "keys_ok (bq_nextPrependSeq ?q) (bq_nextAddSeq ?q) (bq_queue q')"
    unfolding keys_ok_iff
  proof (intro conjI ballI)
    show "bq_nextPrependSeq ?q < bq_nextAddSeq ?q" using bs by simp
    show "sorted_wrt (<) (map qi_Key (bq_queue q'))" using sorted' by (simp add: sorted_wrt_append)
    fix x assume "x \<in> set (bq_queue q')"
    then consider "x \<in> set (bq_queue q)" | "x = ?new" by (auto simp: queue' split: if_splits)
    then show "\<exists>s'. qi_Key x = seqToKey s' \<and> bq_nextPrependSeq ?q < s' \<and> s' < bq_nextAddSeq ?q"
      using keys_ok_keys [OF ko] bs by cases (fastforce, auto)
  qed
  then show "loading env view q' rest"
    using l log dom sorted' dd(1,3-5) seen
    by (auto simp: loading_def txs q')
qed

lemma load_loop_entries:
  "loading env view q rest \<Longrightarrow>
   \<exists>q'. load_loop env (map (Inr \<circ> entry env) rest) q legacy = (q', Inr legacy) \<and> loading env view q' [] \<and>
     H ` set (items_txs (bq_queue q')) = H ` set (items_txs (bq_queue q @ rest)) \<and>
     (distinct (map H (items_txs (bq_queue q @ rest))) \<longrightarrow> bq_queue q' = bq_queue q @ rest \<and> bq_db q' = bq_db q)"
proof (induction rest arbitrary: q)
  case (Cons item rest)
  obtain s where s: "qi_Key item = seqToKey s" "s < s + 1" "s - 1 < s"
    using Cons.prems by (auto simp: loading_def)
  let ?q = "dedupAndEnqueue env (bumpSeq q s) (qi_Batch item) (seqToKey s)"
  note step = loading_step [OF Cons.prems s]
  obtain v where v: "q_Marshal env (qi_Batch item) = Some v" using marshal_total by auto
  have eq: "load_loop env (map (Inr \<circ> entry env) (item # rest)) q legacy
      = load_loop env (map (Inr \<circ> entry env) rest) ?q legacy"
    using v unmarshal_marshal [OF v] by (simp add: entry_def s(1))
  obtain q' where *: "load_loop env (map (Inr \<circ> entry env) rest) ?q legacy = (q', Inr legacy)"
    "loading env view q' []"
    "H ` set (items_txs (bq_queue q')) = H ` set (items_txs (bq_queue ?q @ rest))"
    "distinct (map H (items_txs (bq_queue ?q @ rest))) \<longrightarrow> bq_queue q' = bq_queue ?q @ rest \<and> bq_db q' = bq_db ?q"
    using Cons.IH [OF step(1)] by blast
  then show ?case
    unfolding eq
  proof (intro exI [of _ q'] conjI impI)
    show "H ` set (items_txs (bq_queue q')) = H ` set (items_txs (bq_queue q @ item # rest))"
      using * step(2) by (simp add: image_Un Un_assoc)
    assume d: "distinct (map H (items_txs (bq_queue q @ item # rest)))"
    then have "distinct (map H (items_txs (bq_queue q @ [item])))" by auto
    then have "bq_queue ?q = bq_queue q @ [item]" "bq_db ?q = bq_db q" using step(3) by auto
    with * d show "bq_queue q' = bq_queue q @ item # rest" "bq_db q' = bq_db q" by auto
  qed
qed simp

lemma loading_done:
  "loading env view q [] \<Longrightarrow> queue_inv env view q \<and> wal_exact view q \<and> live q = bq_queue q \<and> bq_inFlight q = []"
  by (simp add: loading_def queue_inv_def wal_exact_def live_def pending_def tracked_def)

lemma Load_recovers:
  assumes inv: "queue_inv env view q" and exact: "wal_exact view q" and db: "bq_db q0 = bq_db q"
    and load: "Load env q0 = (q', r)"
  shows "r = None" "queue_inv env view q'" "wal_exact view q'" "bq_inFlight q' = []"
    "H ` set (items_txs (live q')) = H ` set (items_txs (live q))"
    "bq_postponedItem q = None \<Longrightarrow> live q' = live q \<and> bq_db q' = bq_db q"
proof -
  note i = inv_D [OF inv]
  obtain kvs where kvs: "ds_Query (q_ds env) (bq_db q) = Inr (map Inr kvs)"
    using query_total by blast
  have "kvs = map (entry env) (tracked q)"
    using query_ok [OF kvs] ordered_bindings_entries [OF i(7,8)] exact ordered_bindings_unique
    by (auto simp: wal_exact_def)
  then have results: "ds_Query (q_ds env) (bq_db (load_reset q0)) = Inr (map (Inr \<circ> entry env) (tracked q))"
    using kvs db by (simp add: load_reset_def)
  have seqs: "\<exists>s. qi_Key item = seqToKey s \<and> s < s + 1 \<and> s - 1 < s" if it: "item \<in> set (tracked q)" for item
  proof -
    obtain s where "qi_Key item = seqToKey s" "bq_nextPrependSeq q < s" "s < bq_nextAddSeq q"
      using keys_ok_keys [OF i(7) it] by blast
    then show ?thesis
      by (intro exI [of _ s]) (auto intro: u64_less_succ u64_pred_less)
  qed
  have "loading env view (load_reset q0) (tracked q)"
    using i exact db seqs keys_ok_iff [of "bq_nextPrependSeq q" "bq_nextAddSeq q" "tracked q"]
    by (simp add: loading_def load_reset_def wal_exact_def keys_ok_def [of _ _ "[]"] initialSeqNum_def)
  from load_loop_entries [OF this, of "[]"] obtain q'' where
    l: "load_loop env (map (Inr \<circ> entry env) (tracked q)) (load_reset q0) [] = (q'', Inr [])"
    "loading env view q'' []" "H ` set (items_txs (bq_queue q'')) = H ` set (items_txs (tracked q))"
    "distinct (map H (items_txs (tracked q))) \<longrightarrow> bq_queue q'' = tracked q \<and> bq_db q'' = bq_db q"
    using db by (auto simp: load_reset_def)
  have "q' = q''" "r = None"
    using load results l(1) by (simp_all add: Load_def Let_def)
  have sub: "H ` set (items_txs (tracked q)) = H ` set (items_txs (live q))"
    using i(5,6) by (cases "bq_postponedItem q") (auto simp: tracked_def live_def)
  show "r = None" by fact
  show "queue_inv env view q'" "wal_exact view q'" "bq_inFlight q' = []"
    using loading_done [OF l(2)] \<open>q' = q''\<close> by auto
  show "H ` set (items_txs (live q')) = H ` set (items_txs (live q))"
    using loading_done [OF l(2)] \<open>q' = q''\<close> l(3) sub by simp
  show "live q' = live q \<and> bq_db q' = bq_db q" if "bq_postponedItem q = None"
    using that loading_done [OF l(2)] \<open>q' = q''\<close> l(4) i(2) by (simp add: tracked_def)
qed

end

lemma wal_exact_iff:
  "wal_exact view q \<longleftrightarrow> dom (view (bq_db q)) = Cons (CHR ''/'') ` qi_Key ` set (tracked q)"
  by (simp add: wal_exact_def image_image)

context reliable_wal
begin

lemma AddBatch_exact:
  assumes inv: "queue_inv env view q" and exact: "wal_exact view q" and add: "AddBatch env q batch = (q', r)"
  shows "wal_exact view q'"
proof -
  obtain u hs seen where d: "dedup H batch (bq_txSeen q) = (u, hs, seen)"
    by (metis prod_cases3)
  let ?s = "seqToKey (bq_nextAddSeq q)"
  obtain db' where p: "persistBatch env (bq_db q) u ?s = (db', None)"
    and db': "view db' = (view (bq_db q))(CHR ''/'' # ?s := q_Marshal env u)"
    using persist_view [of "bq_db q" u "bq_nextAddSeq q"] by (metis prod.collapse)
  have same: ?thesis if "bq_db q' = bq_db q" "tracked q' = tracked q"
    using that exact by (simp add: wal_exact_def)
  have new: ?thesis if "bq_db q' = db'" "tracked q' = tracked q @ [\<lparr>qi_Batch = u, qi_Key = ?s\<rparr>]"
    using that exact unfolding wal_exact_iff by (simp add: db' marshal_total)
  show ?thesis
  proof (cases "u = [] \<or> 0 < bq_maxQueueSize q \<and> bq_maxQueueSize q \<le> Size q")
    case True
    with add show ?thesis
      by (intro same) (auto simp: AddBatch_def d Let_def Size_def tracked_def live_def split: if_splits)
  next
    case False
    then have "q' = q\<lparr>bq_txSeen := seen, bq_db := db', bq_nextAddSeq := bq_nextAddSeq q + 1,
        bq_queue := bq_queue q @ [\<lparr>qi_Batch = u, qi_Key = ?s\<rparr>]\<rparr>"
      using add by (auto simp: AddBatch_def d p Size_def Let_def)
    then show ?thesis
      using inv_D(1) [OF inv] by (intro new) (simp_all add: tracked_def live_def pending_def)
  qed
qed

lemma Drain_exact:
  assumes inv: "queue_inv env view q" and exact: "wal_exact view q" and drain: "Drain env q maxBytes = (q', txs)"
  shows "wal_exact view q'"
proof -
  note i = inv_D [OF inv] and d = Drain_eq [OF inv_D(1) [OF inv] drain]
  have t: "tracked q' = live q"
    using Drain_inv(2) [OF inv drain] by (simp add: tracked_def d(10) rollback_inv(2) [OF inv])
  show ?thesis
  proof (cases "bq_postponedItem q")
    case None
    then have "bq_db (rollbackInFlight env q) = bq_db q" "tracked q = live q"
      by (simp_all add: rollbackInFlight_def Let_def tracked_def split: prod.splits)
    with exact t show ?thesis by (simp add: wal_exact_def d(8))
  next
    case (Some item)
    have tr: "tracked q = item # live q" using Some by (simp add: tracked_def)
    then have k: "qi_Key item \<notin> qi_Key ` set (live q)" and "item \<in> set (tracked q)"
      using keys_ok_distinct [OF i(7)] by simp_all
    then obtain s where s: "qi_Key item = seqToKey s" using keys_ok_keys [OF i(7)] by blast
    have "bq_inFlight q \<noteq> []" using i(5,6) Some by auto
    then have "bq_db q' = fst (ds_Delete (q_ds env) (bq_db q) (CHR ''/'' # qi_Key item))"
      using Some s by (auto simp: d(8) rollbackInFlight_def Let_def split: prod.splits)
    moreover have "CHR ''/'' # qi_Key item \<notin> Cons (CHR ''/'') ` qi_Key ` set (live q)"
      using k by blast
    ultimately show ?thesis
      using exact unfolding wal_exact_iff t tr by (simp add: delete_view)
  qed
qed

lemma add_deletes_total: "\<exists>ops'. add_deletes env db ops items = Inr ops'"
  by (induction items arbitrary: ops) (simp_all add: batchAdd_total)

lemma Ack_exact:
  assumes inv: "queue_inv env view q" and exact: "wal_exact view q"
    and room: "bq_nextPrependSeq q - 1 < bq_nextPrependSeq q" and ack: "Ack env q = (q', r)"
  shows "r = None" "wal_exact view q'"
proof -
  obtain q1 r1 where a: "ack_persist env q = (q1, r1)" by fastforce
  note p = ack_persist_inv [OF inv room a]
  obtain q2 r2 where b: "ack_delete env q1 = (q2, r2)" by fastforce
  have r1: "r1 = None"
    using a persist_view(2) [of "bq_db q" "bq_inFlightPostponed q" "bq_nextPrependSeq q"]
    by (auto simp: ack_persist_def Let_def split: if_splits prod.splits option.splits)
  have exact1: "wal_exact view q1"
  proof (cases "bq_inFlightPostponed q \<noteq> [] \<and> bq_postponedItem q = None")
    case False
    then show ?thesis using a exact by (auto simp: ack_persist_def)
  next
    case True
    let ?s = "seqToKey (bq_nextPrependSeq q)"
    obtain db' where "persistBatch env (bq_db q) (bq_inFlightPostponed q) ?s = (db', None)"
      and db': "view db' = (view (bq_db q))(CHR ''/'' # ?s := q_Marshal env (bq_inFlightPostponed q))"
      using persist_view [of "bq_db q" _ "bq_nextPrependSeq q"] by (metis prod.collapse)
    with True a have "q1 = q\<lparr>bq_db := db', bq_nextPrependSeq := bq_nextPrependSeq q - 1,
        bq_postponedItem := Some \<lparr>qi_Batch = bq_inFlightPostponed q, qi_Key = ?s\<rparr>\<rparr>"
      by (simp add: ack_persist_def)
    then show ?thesis
      using exact True unfolding wal_exact_iff by (simp add: tracked_def live_def db' marshal_total)
  qed
  have r2: "r2 = None"
    using b add_deletes_total [of "bq_db q1" "[]" "bq_inFlight q1"] commit_total [of "bq_db q1"] batch_total
    by (auto simp: ack_delete_def split: if_splits sum.splits prod.splits option.splits)
       (metis option.distinct(1) snd_conv)
  show "r = None" using ack a b r1 r2 by (simp add: Ack_def)
  let ?infl = "Cons (CHR ''/'') ` qi_Key ` set (bq_inFlight q1)"
  obtain db' where q2: "q2 = q1\<lparr>bq_db := db'\<rparr>"
    and db': "view db' = (\<lambda>k. if k \<in> ?infl then None else view (bq_db q1) k)"
    using ack_delete_eq [OF inv_D(7) [OF p(1)] b] r2 by (auto simp: image_image)
  have q': "q' = ack_finish env q2" using ack a b r1 r2 by (simp add: Ack_def)
  have tr: "tracked q1 = postponedItems q1 @ bq_inFlight q1 @ pending q1"
    by (simp add: tracked_def live_def postponedItems_def)
  have tr': "tracked q' = postponedItems q1 @ pending q1"
    using inv_D(1) [OF p(1)] ack_finish_eq [of q2 env]
    by (simp add: q' q2 tracked_def live_def postponedItems_def)
  have "?infl \<inter> Cons (CHR ''/'') ` qi_Key ` set (tracked q') = {}"
    using keys_ok_distinct [OF inv_D(7) [OF p(1)]] unfolding tr tr' by auto
  moreover have "dom (view db') = dom (view (bq_db q1)) - ?infl"
    by (auto simp: db' split: if_splits)
  moreover have "bq_db q' = db'"
    using inv_D(1) [OF p(1)] ack_finish_eq(6) [of q2 env] by (simp add: q' q2)
  moreover have "dom (view (bq_db q1)) = Cons (CHR ''/'') ` qi_Key ` set (tracked q') \<union> ?infl"
    using exact1 unfolding wal_exact_iff tr tr' by (simp add: image_Un Un_ac)
  ultimately have "dom (view (bq_db q')) = (Cons (CHR ''/'') ` qi_Key ` set (tracked q') \<union> ?infl) - ?infl"
    "?infl \<inter> Cons (CHR ''/'') ` qi_Key ` set (tracked q') = {}"
    by simp_all
  then show "wal_exact view q'" unfolding wal_exact_iff by (simp add: Un_Diff Diff_triv Int_commute)
qed

end

section \<open>Reconciling with the last block\<close>

lemma drop_txs_eq:
  "drop_txs H inc txs seen n =
     (filter (\<lambda>tx. H tx \<notin> inc) txs, seen - (inc \<inter> H ` set txs), n + length (filter (\<lambda>tx. H tx \<in> inc) txs))"
  by (induction H inc txs seen n rule: drop_txs.induct) auto

definition excluding :: "(bytes \<Rightarrow> bytes) \<Rightarrow> bytes set \<Rightarrow> queuedItem list \<Rightarrow> queuedItem list" where
  "excluding H inc items =
     filter (\<lambda>item. qi_Batch item \<noteq> [])
       (map (\<lambda>item. item\<lparr>qi_Batch := filter (\<lambda>tx. H tx \<notin> inc) (qi_Batch item)\<rparr>) items)"

lemma excluding_simps [simp]:
  "excluding H inc [] = []"
  "excluding H inc (xs @ ys) = excluding H inc xs @ excluding H inc ys"
  by (simp_all add: excluding_def)

lemma excluding_txs: "items_txs (excluding H inc items) = filter (\<lambda>tx. H tx \<notin> inc) (items_txs items)"
  by (induction items) (auto simp: excluding_def)

lemma excluding_single:
  "excluding H inc [item] = (let f = filter (\<lambda>tx. H tx \<notin> inc) (qi_Batch item)
     in if f = [] then [] else [item\<lparr>qi_Batch := f\<rparr>])"
  by (auto simp: excluding_def Let_def)

lemma image_filter_disjoint:
  assumes "distinct (map H (xs @ ys @ zs))"
  shows "H ` set (xs @ filter (\<lambda>tx. H tx \<notin> inc) ys @ zs) = H ` set (xs @ ys @ zs) - (inc \<inter> H ` set ys)"
  using assms by auto

lemma distinct_filter_middle:
  "distinct (map H (xs @ ys @ zs)) \<Longrightarrow> distinct (map H (xs @ filter P ys @ zs))"
  by (auto simp: distinct_map_filter)

lemma keys_ok_middle:
  assumes "keys_ok lo hi (xs @ item # ys)" "set zs \<subseteq> {item'}" "length zs \<le> 1" "qi_Key item' = qi_Key item"
  shows "keys_ok lo hi (xs @ zs @ ys)"
proof -
  have "zs = [] \<or> zs = [item']" using assms(2,3) by (cases zs) auto
  with assms(1,4) show ?thesis unfolding keys_ok_iff by (auto simp: sorted_wrt_append)
qed

context reliable_wal
begin

lemma exclude_one:
  assumes keys: "keys_ok lo hi (xs @ item # ys)" and log: "logged env wal (xs @ item # ys)"
    and dom: "dom wal = Cons (CHR ''/'') ` qi_Key ` set (xs @ item # ys)"
    and f: "f = filter (\<lambda>tx. H tx \<notin> inc) (qi_Batch item)"
    and wal': "wal' = wal(CHR ''/'' # qi_Key item := if f = [] then None else q_Marshal env f)"
  shows "keys_ok lo hi (xs @ excluding H inc [item] @ ys)" "logged env wal' (xs @ excluding H inc [item] @ ys)"
    "dom wal' = Cons (CHR ''/'') ` qi_Key ` set (xs @ excluding H inc [item] @ ys)"
proof -
  let ?k = "CHR ''/'' # qi_Key item"
  have ex: "excluding H inc [item] = (if f = [] then [] else [item\<lparr>qi_Batch := f\<rparr>])"
    by (simp add: excluding_single f Let_def)
  show "keys_ok lo hi (xs @ excluding H inc [item] @ ys)"
    by (rule keys_ok_middle [OF keys, of _ "item\<lparr>qi_Batch := f\<rparr>"]) (simp_all add: ex)
  have other: "qi_Key item \<notin> qi_Key ` set (xs @ ys)"
    using keys_ok_distinct [OF keys] by auto
  then have k: "?k \<notin> Cons (CHR ''/'') ` qi_Key ` set (xs @ ys)" by blast
  have "logged env wal' (xs @ ys) = logged env wal (xs @ ys)"
    unfolding wal' using other by (intro logged_cong) (metis fun_upd_other image_eqI list.inject)
  then show "logged env wal' (xs @ excluding H inc [item] @ ys)"
    using log unfolding ex by (simp add: wal' marshal_total)
  have "dom wal = insert ?k (Cons (CHR ''/'') ` qi_Key ` set (xs @ ys))" using dom by simp
  then show "dom wal' = Cons (CHR ''/'') ` qi_Key ` set (xs @ excluding H inc [item] @ ys)"
    unfolding wal' dom_fun_upd ex using k by (simp add: marshal_total)
qed

end

text \<open>The loop of \<open>DropIncluded\<close>: \<open>w\<close> entries of the array are final, \<open>rest\<close> is still to be scanned.\<close>

definition dropping :: "'d queue_env \<Rightarrow> ('d \<Rightarrow> (string \<rightharpoonup> bytes)) \<Rightarrow> 'd BatchQueue \<Rightarrow> nat \<Rightarrow> queuedItem list \<Rightarrow> bool" where
  "dropping env view q w rest \<longleftrightarrow>
     bq_head q \<le> w \<and> w + length rest \<le> length (bq_queue q) \<and>
     bq_inFlight q = [] \<and> bq_inFlightPostponed q = [] \<and> bq_postponedItem q = None \<and>
     (let items = drop (bq_head q) (take w (bq_queue q)) @ rest
      in distinct (map (q_sha256 env) (items_txs items)) \<and>
         bq_txSeen q = q_sha256 env ` set (items_txs items) \<and>
         keys_ok (bq_nextPrependSeq q) (bq_nextAddSeq q) items \<and> logged env (view (bq_db q)) items \<and>
         dom (view (bq_db q)) = Cons (CHR ''/'') ` qi_Key ` set items)"

lemma dropping_D:
  assumes "dropping env view q w rest"
  shows "keys_ok (bq_nextPrependSeq q) (bq_nextAddSeq q) (drop (bq_head q) (take w (bq_queue q)) @ rest)"
    "logged env (view (bq_db q)) (drop (bq_head q) (take w (bq_queue q)) @ rest)"
  using assms unfolding dropping_def Let_def by blast+

context reliable_wal
begin

lemma dropping_step:
  assumes d: "dropping env view q w (item # rest)"
    and f: "f = filter (\<lambda>tx. H tx \<notin> inc) (qi_Batch item)"
    and v: "view db' = (view (bq_db q))(CHR ''/'' # qi_Key item := if f = [] then None else q_Marshal env f)"
    and q': "q' = q\<lparr>bq_txSeen := bq_txSeen q - (inc \<inter> H ` set (qi_Batch item)), bq_db := db',
          bq_queue := (if f = [] then bq_queue q else (bq_queue q)[w := item\<lparr>qi_Batch := f\<rparr>])\<rparr>"
  shows "dropping env view q' (if f = [] then w else Suc w) rest"
    "drop (bq_head q') (take (if f = [] then w else Suc w) (bq_queue q')) =
       drop (bq_head q) (take w (bq_queue q)) @ excluding H inc [item]"
proof -
  let ?A = "drop (bq_head q) (take w (bq_queue q))" and ?w = "if f = [] then w else Suc w"
  let ?items = "?A @ excluding H inc [item] @ rest"
  have bounds: "bq_head q \<le> w" "w < length (bq_queue q)" "Suc w + length rest \<le> length (bq_queue q)"
    and misc: "bq_inFlight q = []" "bq_inFlightPostponed q = []" "bq_postponedItem q = None"
    and dist: "distinct (map H (items_txs ?A @ qi_Batch item @ items_txs rest))"
    and seen: "bq_txSeen q = H ` set (items_txs ?A @ qi_Batch item @ items_txs rest)"
    and keys: "keys_ok (bq_nextPrependSeq q) (bq_nextAddSeq q) (?A @ item # rest)"
    and log: "logged env (view (bq_db q)) (?A @ item # rest)"
    and dom: "dom (view (bq_db q)) = Cons (CHR ''/'') ` qi_Key ` set (?A @ item # rest)"
    using d by (simp_all add: dropping_def Let_def)
  note one = exclude_one [OF keys log dom f v]
  show A': "drop (bq_head q') (take ?w (bq_queue q')) = ?A @ excluding H inc [item]"
    using bounds by (simp add: q' excluding_single f [symmetric] Let_def take_Suc_conv_app_nth)
  have "items_txs ?items = items_txs ?A @ filter (\<lambda>tx. H tx \<notin> inc) (qi_Batch item) @ items_txs rest"
    using excluding_txs [of H inc "[item]"] by simp
  then have "distinct (map H (items_txs ?items))"
    "bq_txSeen q' = H ` set (items_txs ?items)"
    using distinct_filter_middle [OF dist] image_filter_disjoint [OF dist, of inc] seen
    by (simp_all add: q')
  moreover have "keys_ok (bq_nextPrependSeq q') (bq_nextAddSeq q') ?items"
    "logged env (view (bq_db q')) ?items" "dom (view (bq_db q')) = Cons (CHR ''/'') ` qi_Key ` set ?items"
    using one by (simp_all add: q')
  moreover have "bq_head q' \<le> ?w" "?w + length rest \<le> length (bq_queue q')"
    "bq_inFlight q' = []" "bq_inFlightPostponed q' = []" "bq_postponedItem q' = None"
    using bounds misc by (simp_all add: q')
  ultimately show "dropping env view q' ?w rest"
    unfolding dropping_def A' Let_def append_assoc by blast
qed

lemma dropping_done:
  assumes "dropping env view q w []"
  shows "queue_inv env view (q\<lparr>bq_queue := take w (bq_queue q)\<rparr>)"
    "wal_exact view (q\<lparr>bq_queue := take w (bq_queue q)\<rparr>)"
    "live (q\<lparr>bq_queue := take w (bq_queue q)\<rparr>) = drop (bq_head q) (take w (bq_queue q))"
  using assms
  by (simp_all add: dropping_def Let_def queue_inv_def wal_exact_iff live_def pending_def tracked_def)

lemma drop_loop_step:
  assumes d: "dropping env view q w (item # rest)"
    and f: "f = filter (\<lambda>tx. H tx \<notin> inc) (qi_Batch item)"
  shows "\<exists>db'. view db' = (view (bq_db q))(CHR ''/'' # qi_Key item := if f = [] then None else q_Marshal env f) \<and>
    drop_loop env inc (item # rest) q w n =
    drop_loop env inc rest
      (q\<lparr>bq_txSeen := bq_txSeen q - (inc \<inter> H ` set (qi_Batch item)), bq_db := db',
         bq_queue := (if f = [] then bq_queue q else (bq_queue q)[w := item\<lparr>qi_Batch := f\<rparr>])\<rparr>)
      (if f = [] then w else Suc w) (n + length (filter (\<lambda>tx. H tx \<in> inc) (qi_Batch item)))"
proof -
  obtain s where s: "qi_Key item = seqToKey s"
    using keys_ok_keys [OF dropping_D(1) [OF d], of item] by auto
  have ne: "qi_Batch item \<noteq> []" and v: "view (bq_db q) (CHR ''/'' # qi_Key item) = q_Marshal env (qi_Batch item)"
    using dropping_D(2) [OF d] by simp_all
  consider "length f = length (qi_Batch item)" | "length f \<noteq> length (qi_Batch item)" "f = []"
    | "length f \<noteq> length (qi_Batch item)" "f \<noteq> []" by blast
  then show ?thesis
  proof cases
    case 1
    then have same: "f = qi_Batch item"
      unfolding f by (metis filter_id_conv filter_True length_filter_less nat_neq_iff)
    show ?thesis
      by (intro exI [of _ "bq_db q"])
        (use ne v same in \<open>simp add: drop_txs_eq f [symmetric] fun_upd_idem\<close>)
  next
    case 2
    have "snd (ds_Delete (q_ds env) (bq_db q) (CHR ''/'' # seqToKey s)) = None" by (rule delete_total)
    then show ?thesis
      using 2 ne delete_view [of "bq_db q" "CHR ''/'' # seqToKey s"] s
      by (intro exI [of _ "fst (ds_Delete (q_ds env) (bq_db q) (CHR ''/'' # seqToKey s))"])
        (auto simp: drop_txs_eq f [symmetric] split: prod.splits option.splits)
  next
    case 3
    then show ?thesis
      using persist_view [of "bq_db q" f s] s
      by (intro exI [of _ "fst (persistBatch env (bq_db q) f (seqToKey s))"])
        (auto simp: drop_txs_eq f [symmetric] Let_def split: prod.splits option.splits)
  qed
qed

end

context reliable_wal
begin

lemma drop_loop_eq:
  "dropping env view q w rest \<Longrightarrow>
   \<exists>q'. drop_loop env inc rest q w n = (q', n + length (filter (\<lambda>tx. H tx \<in> inc) (items_txs rest)), None) \<and>
     queue_inv env view q' \<and> wal_exact view q' \<and>
     live q' = drop (bq_head q) (take w (bq_queue q)) @ excluding H inc rest \<and> bq_inFlight q' = []"
proof (induction rest arbitrary: q w n)
  case Nil
  from dropping_done [OF this] Nil show ?case by (simp add: dropping_def)
next
  case (Cons item rest)
  define f where "f = filter (\<lambda>tx. H tx \<notin> inc) (qi_Batch item)"
  obtain db' where v: "view db' = (view (bq_db q))(CHR ''/'' # qi_Key item := if f = [] then None else q_Marshal env f)"
    and eq: "drop_loop env inc (item # rest) q w n =
    drop_loop env inc rest
      (q\<lparr>bq_txSeen := bq_txSeen q - (inc \<inter> H ` set (qi_Batch item)), bq_db := db',
         bq_queue := (if f = [] then bq_queue q else (bq_queue q)[w := item\<lparr>qi_Batch := f\<rparr>])\<rparr>)
      (if f = [] then w else Suc w) (n + length (filter (\<lambda>tx. H tx \<in> inc) (qi_Batch item)))"
    using drop_loop_step [OF Cons.prems f_def] by blast
  note step = dropping_step [OF Cons.prems f_def v refl]
  have "excluding H inc (item # rest) = excluding H inc [item] @ excluding H inc rest"
    using excluding_simps(2) [of H inc "[item]" rest] by simp
  then show ?case
    using Cons.IH [OF step(1), of "n + length (filter (\<lambda>tx. H tx \<in> inc) (qi_Batch item))"]
    unfolding eq step(2) by (simp add: add.assoc)
qed

lemma DropIncluded_ok:
  assumes inv: "queue_inv env view q" and exact: "wal_exact view q" and idle: "bq_inFlight q = []"
    and drop: "DropIncluded env q included = (q', n, r)"
  shows "r = None" "queue_inv env view q'" "wal_exact view q'"
    "live q' = excluding H (H ` set included) (live q)"
    "n = length (filter (\<lambda>tx. H tx \<in> H ` set included) (items_txs (live q)))" "bq_inFlight q' = []"
proof -
  note i = inv_D [OF inv]
  have none: "bq_inFlightPostponed q = []" "bq_postponedItem q = None"
    using i(5,6) idle by (cases "bq_postponedItem q"; auto)+
  then have t: "tracked q = live q" "live q = drop (bq_head q) (bq_queue q)"
    using idle by (simp_all add: tracked_def live_def pending_def)
  have "dropping env view q (bq_head q) (live q)"
    using i(1-3,7,8) exact none idle unfolding t(1) wal_exact_iff
    by (simp add: dropping_def Let_def) (simp add: t(2))
  from drop_loop_eq [OF this, of "H ` set included" 0] drop
  show "r = None" "queue_inv env view q'" "wal_exact view q'"
    "live q' = excluding H (H ` set included) (live q)"
    "n = length (filter (\<lambda>tx. H tx \<in> H ` set included) (items_txs (live q)))" "bq_inFlight q' = []"
    by (auto simp: DropIncluded_def t(2) [symmetric])
qed

end

section \<open>Runs\<close>

text \<open>One call on the queue by the sequencer, whatever the datastore answers. The two sequence counters
  must not have reached the ends of their range; the postponed transactions are drained ones.\<close>

inductive queue_step :: "'d queue_env \<Rightarrow> 'd BatchQueue \<Rightarrow> 'd BatchQueue \<Rightarrow> bool" for env where
  add: "\<lbrakk>bq_nextAddSeq q < bq_nextAddSeq q + 1; AddBatch env q batch = (q', r)\<rbrakk> \<Longrightarrow> queue_step env q q'"
| drain: "Drain env q maxBytes = (q', txs) \<Longrightarrow> queue_step env q q'"
| postpone: "\<lbrakk>distinct (map (q_sha256 env) txs); set txs \<subseteq> set (items_txs (bq_inFlight q))\<rbrakk> \<Longrightarrow>
    queue_step env q (SetPostponed q txs)"
| ack: "\<lbrakk>bq_nextPrependSeq q - 1 < bq_nextPrependSeq q; Ack env q = (q', r)\<rbrakk> \<Longrightarrow> queue_step env q q'"

text \<open>A run of a process that may crash: the memory is lost and \<open>Load\<close> reads the log again, after which
  \<open>DropIncluded\<close> removes the transactions of the last block.\<close>

inductive queue_run_step :: "'d queue_env \<Rightarrow> 'd BatchQueue \<Rightarrow> 'd BatchQueue \<Rightarrow> bool" for env where
  call: "queue_step env q q' \<Longrightarrow> queue_run_step env q q'"
| restart: "Load env (NewBatchQueue (bq_db q) maxSize) = (q', r) \<Longrightarrow> queue_run_step env q q'"
| reconcile: "\<lbrakk>bq_inFlight q = []; DropIncluded env q included = (q', n, r)\<rbrakk> \<Longrightarrow> queue_run_step env q q'"

inductive_cases queue_stepE: "queue_step env q q'"
inductive_cases queue_run_stepE: "queue_run_step env q q'"

context batch_wal
begin

lemma step_inv: "queue_step env q q' \<Longrightarrow> queue_inv env view q \<Longrightarrow> queue_inv env view q'"
proof (induction rule: queue_step.induct)
  case (add q batch q' r)
  then show ?case using AddBatch_inv by blast
next
  case (drain q maxBytes q' txs)
  then show ?case using Drain_inv by blast
next
  case (postpone txs q)
  then show ?case using SetPostponed_inv by blast
next
  case (ack q q' r)
  then show ?case using Ack_inv by blast
qed

lemma steps_inv: "(queue_step env)\<^sup>*\<^sup>* q q' \<Longrightarrow> queue_inv env view q \<Longrightarrow> queue_inv env view q'"
  by (induction rule: rtranclp_induct) (auto intro: step_inv)

end

context reliable_wal
begin

lemma step_exact:
  "queue_step env q q' \<Longrightarrow> queue_inv env view q \<Longrightarrow> wal_exact view q \<Longrightarrow> wal_exact view q'"
proof (induction rule: queue_step.induct)
  case (add q batch q' r)
  then show ?case using AddBatch_exact by blast
next
  case (drain q maxBytes q' txs)
  then show ?case using Drain_exact by blast
next
  case (postpone txs q)
  then show ?case by (simp add: SetPostponed_def wal_exact_def tracked_def live_def)
next
  case (ack q q' r)
  then show ?case using Ack_exact by blast
qed

lemma run_step_inv:
  "queue_run_step env q q' \<Longrightarrow> queue_inv env view q \<and> wal_exact view q \<Longrightarrow>
   queue_inv env view q' \<and> wal_exact view q'"
proof (induction rule: queue_run_step.induct)
  case (call q q')
  then show ?case using step_inv step_exact by blast
next
  case (restart q maxSize q' r)
  have "bq_db (NewBatchQueue (bq_db q) maxSize) = bq_db q" by (simp add: NewBatchQueue_def)
  from Load_recovers(2,3) [OF _ _ this restart.hyps] restart.prems show ?case by blast
next
  case (reconcile q included q' n r)
  then show ?case using DropIncluded_ok by blast
qed

lemma run_inv:
  "(queue_run_step env)\<^sup>*\<^sup>* q q' \<Longrightarrow> queue_inv env view q \<and> wal_exact view q \<Longrightarrow>
   queue_inv env view q' \<and> wal_exact view q'"
  by (induction rule: rtranclp_induct) (auto dest: run_step_inv)

end

lemma dedup_subseq: "dedup H txs seen = (u, hs, seen') \<Longrightarrow> subseq u txs"
  by (induction H txs seen arbitrary: u hs seen' rule: dedup.induct)
    (auto split: if_splits prod.splits)

section \<open>Instances\<close>

text \<open>A total codec for batches, and the queue's environment over the two in-memory datastores.\<close>

fun enc_tx :: "bytes \<Rightarrow> bytes" where
  "enc_tx [] = [1]"
| "enc_tx (b # bs) = 0 # b # enc_tx bs"

definition enc_batch :: "bytes list \<Rightarrow> bytes option" where
  "enc_batch txs = Some (concat (map enc_tx txs))"

fun dec_batch :: "bytes \<Rightarrow> bytes \<Rightarrow> bytes list option" where
  "dec_batch cur [] = (if cur = [] then Some [] else None)"
| "dec_batch cur [x] = (if x = 1 then Some [cur] else None)"
| "dec_batch cur (x # b # bs) =
     (if x = 1 then map_option (Cons cur) (dec_batch [] (b # bs)) else dec_batch (cur @ [b]) bs)"

lemma dec_enc_tx: "dec_batch cur (enc_tx tx @ rest) = map_option (Cons (cur @ tx)) (dec_batch [] rest)"
proof (induction tx arbitrary: cur)
  case Nil
  show ?case by (cases rest) simp_all
qed simp

lemma dec_enc_batch: "dec_batch [] (concat (map enc_tx txs)) = Some txs"
  by (induction txs) (simp_all add: dec_enc_tx)

definition queue_env_on :: "'d datastore \<Rightarrow> 'd queue_env" where
  "queue_env_on DS = \<lparr>q_ds = DS, q_sha256 = (\<lambda>tx. tx), q_Marshal = enc_batch, q_Unmarshal = dec_batch []\<rparr>"

lemma queue_env_on_simps [simp]:
  "q_ds (queue_env_on DS) = DS" "q_sha256 (queue_env_on DS) = (\<lambda>tx. tx)"
  "q_Marshal (queue_env_on DS) = enc_batch" "q_Unmarshal (queue_env_on DS) = dec_batch []"
  by (simp_all add: queue_env_on_def)

interpretation mem_wal: reliable_wal "queue_env_on mem_ds" map_of
proof -
  have "reliable_datastore (q_ds (queue_env_on mem_ds)) map_of"
    using mem.reliable_datastore_axioms by simp
  then show "reliable_wal (queue_env_on mem_ds) map_of"
    by (auto simp: reliable_wal_def batch_wal_def batch_wal_axioms_def reliable_wal_axioms_def
        reliable_datastore_def enc_batch_def dec_enc_batch)
qed

interpretation faulty_wal: batch_wal "queue_env_on faulty_ds" "\<lambda>s. map_of (fst s)"
  using faulty.datastore_laws_axioms
  by (auto simp: batch_wal_def batch_wal_axioms_def enc_batch_def dec_enc_batch)

section \<open>Properties\<close>

text \<open>
  C2: whatever the datastore answers, after any sequence of \<open>AddBatch\<close>, \<open>Drain\<close>, \<open>SetPostponed\<close> and \<open>Ack\<close>
  calls on a new queue, no transaction is queued twice, the dedup set holds exactly the hashes of the
  queued and in-flight transactions, the keys increase along the queue, and every queued, in-flight or
  postponed entry is in the write-ahead log under its key.
\<close>

theorem queue_invariant:
  assumes "batch_wal env view" and "(queue_step env)\<^sup>*\<^sup>* (NewBatchQueue db maxSize) q"
  shows "queue_inv env view q"
  using batch_wal.steps_inv [OF assms] batch_wal.NewBatchQueue_inv [OF assms(1)] .

text \<open>The state the witnesses start from: one batch of two transactions (one repeated) was added and
  drained, and the second transaction postponed. On \<open>faulty_ds\<close> every write after the first fails.\<close>

definition sample_queue :: "'d datastore \<Rightarrow> 'd \<Rightarrow> 'd BatchQueue" where
  "sample_queue DS db =
     SetPostponed
       (fst (Drain (queue_env_on DS)
          (fst (AddBatch (queue_env_on DS) (NewBatchQueue db 0) [[1], [2], [1]])) 0)) [[2]]"

abbreviation faulty_sample :: "faulty BatchQueue" where
  "faulty_sample \<equiv> sample_queue faulty_ds ([], [False, True])"

abbreviation mem_sample :: "mem BatchQueue" where
  "mem_sample \<equiv> sample_queue mem_ds []"

lemmas queue_eval = AddBatch_def NewBatchQueue_def persistBatch_def queue_env_on_def faulty_ds_def
  mem_ds_def faulty_write_def enc_batch_def Size_def Drain_def drain_loop.simps rollbackInFlight_def
  compact_def SetPostponed_def emptyItem_def pending_def live_def Let_def

lemma faulty_sample_eval:
  "bq_inFlight faulty_sample = [\<lparr>qi_Batch = [[1], [2]], qi_Key = seqToKey initialSeqNum\<rparr>]"
  "pending faulty_sample = []" "bq_inFlightPostponed faulty_sample = [[2]]"
  "bq_nextPrependSeq faulty_sample = initialSeqNum - 1"
  by (simp_all add: sample_queue_def queue_eval)

lemma mem_sample_eval:
  "bq_inFlight mem_sample = [\<lparr>qi_Batch = [[1], [2]], qi_Key = seqToKey initialSeqNum\<rparr>]"
  "pending mem_sample = []" "bq_inFlightPostponed mem_sample = [[2]]"
  "bq_nextPrependSeq mem_sample = initialSeqNum - 1" "bq_postponedItem mem_sample = None"
  by (simp_all add: sample_queue_def queue_eval)

lemma sample_reached:
  assumes "items_txs (bq_inFlight (sample_queue DS db)) = [[1], [2]]"
  shows "(queue_step (queue_env_on DS))\<^sup>*\<^sup>* (NewBatchQueue db 0) (sample_queue DS db)"
proof -
  let ?E = "queue_env_on DS" and ?q0 = "NewBatchQueue db 0"
  let ?q1 = "fst (AddBatch ?E ?q0 [[1], [2], [1]])"
  let ?q2 = "fst (Drain ?E ?q1 0)"
  have "queue_step ?E ?q0 ?q1"
    by (rule queue_step.add [of _ _ "[[1], [2], [1]]" _ "snd (AddBatch ?E ?q0 [[1], [2], [1]])"])
      (simp_all add: NewBatchQueue_def initialSeqNum_def)
  moreover have "queue_step ?E ?q1 ?q2"
    by (rule queue_step.drain [of _ _ 0 _ "snd (Drain ?E ?q1 0)"]) simp
  moreover have "bq_inFlight ?q2 = bq_inFlight (sample_queue DS db)"
    by (simp add: sample_queue_def SetPostponed_def)
  then have "set [[2]] \<subseteq> set (items_txs (bq_inFlight ?q2))"
    using assms by simp
  then have "queue_step ?E ?q2 (sample_queue DS db)"
    unfolding sample_queue_def by (intro queue_step.postpone) simp_all
  ultimately show ?thesis by (meson converse_rtranclp_into_rtranclp rtranclp.rtrancl_refl)
qed

lemma faulty_sample_reached: "(queue_step (queue_env_on faulty_ds))\<^sup>*\<^sup>* (NewBatchQueue ([], [False, True]) 0) faulty_sample"
  by (rule sample_reached) (simp add: faulty_sample_eval)

lemma mem_sample_reached: "(queue_step (queue_env_on mem_ds))\<^sup>*\<^sup>* (NewBatchQueue [] 0) mem_sample"
  by (rule sample_reached) (simp add: mem_sample_eval)

lemma mem_sample_run: "(queue_run_step (queue_env_on mem_ds))\<^sup>*\<^sup>* (NewBatchQueue [] 0) mem_sample"
  using mem_sample_reached by (rule rtranclp_mono [THEN predicate2D, rotated]) (auto intro: queue_run_step.call)

lemma NewBatchQueue_exact: "view db = Map.empty \<Longrightarrow> wal_exact view (NewBatchQueue db maxSize)"
  by (simp add: wal_exact_def NewBatchQueue_def tracked_def live_def pending_def)

lemma mem_sample_inv: "queue_inv (queue_env_on mem_ds) map_of mem_sample" "wal_exact map_of mem_sample"
  using mem_wal.run_inv [OF mem_sample_run] mem_wal.NewBatchQueue_inv NewBatchQueue_exact [of map_of "[]"]
  by auto

lemma faulty_sample_inv: "queue_inv (queue_env_on faulty_ds) (\<lambda>s. map_of (fst s)) faulty_sample"
  using faulty_wal.steps_inv [OF faulty_sample_reached] faulty_wal.NewBatchQueue_inv by blast

theorem queue_invariant_witness:
  "queue_inv (queue_env_on faulty_ds) (\<lambda>s. map_of (fst s)) faulty_sample \<and>
   items_txs (bq_inFlight faulty_sample) = [[1], [2]]"
  using queue_invariant [OF faulty_wal.batch_wal_axioms faulty_sample_reached] faulty_sample_eval(1)
  by simp



lemma drain_count_pos: "items \<noteq> [] \<Longrightarrow> 0 < drain_count maxBytes tot False items"
  by (cases items) simp_all

lemma inv_nonempty: "queue_inv env view q \<Longrightarrow> \<forall>item \<in> set (live q). qi_Batch item \<noteq> []"
  by (auto simp: queue_inv_def logged_def tracked_def)

lemma drain_nonempty:
  assumes "queue_inv env view q" "Drain env q maxBytes = (q', txs)" "live q \<noteq> []"
  shows "txs \<noteq> []"
proof -
  have h: "bq_head q \<le> length (bq_queue q)" using assms(1) by (simp add: queue_inv_def)
  obtain item items where l: "live q = item # items" using assms(3) by (cases "live q") auto
  then have "qi_Batch item \<noteq> []" using inv_nonempty [OF assms(1)] by simp
  then show ?thesis
    using Drain_eq(1,3) [OF h assms(2)] drain_count_pos [OF assms(3), of maxBytes 0] l
    by (cases "drain_count maxBytes 0 False (live q)") auto
qed

text \<open>
  C4: \<open>Drain\<close> hands out the longest prefix of the queue (rolled-back in-flight entries first) that fits
  \<open>maxBytes\<close>: what is drained and what stays are the queue as it was, the size of more than one entry never
  exceeds the limit, the first entry is handed out even when it is larger, and the next entry
  would not have fitted.
\<close>

theorem Drain_longest_prefix:
  assumes "queue_inv env view q" and "Drain env q maxBytes = (q', txs)" and "0 < maxBytes"
    and "txs_size (items_txs (live q)) < 2 ^ 64"
  shows "txs = items_txs (bq_inFlight q') \<and> bq_inFlight q' @ pending q' = live q \<and>
    (live q \<noteq> [] \<longrightarrow> txs \<noteq> []) \<and>
    (length (bq_inFlight q') \<le> 1 \<or> txs_size txs \<le> unat maxBytes) \<and>
    (pending q' \<noteq> [] \<longrightarrow> unat maxBytes < txs_size (txs @ qi_Batch (hd (pending q'))))"
proof -
  define n where "n = drain_count maxBytes 0 False (live q)"
  have h: "bq_head q \<le> length (bq_queue q)" using assms(1) by (simp add: queue_inv_def)
  note d = Drain_eq [OF h assms(2), folded n_def]
  have "n \<le> length (live q)" unfolding n_def by (rule drain_count_le)
  note c = drain_count_props [OF inv_nonempty [OF assms(1)] _ n_def assms(3)]
  have more: "take (Suc n) (live q) = take n (live q) @ [hd (pending q')]" if "pending q' \<noteq> []"
    using that d(2) by (simp add: take_hd_drop)
  have "n < length (live q)" if "pending q' \<noteq> []"
    using that d(2) by (simp add: not_le [symmetric])
  then show ?thesis
    using c assms(4) d(1-3) drain_nonempty [OF assms(1,2)] more \<open>n \<le> length (live q)\<close>
    by (auto simp: min_def)
qed

theorem Drain_longest_prefix_witness:
  "txs_size (items_txs (live mem_sample)) < 2 ^ 64 \<and>
   snd (Drain (queue_env_on mem_ds) mem_sample 1) \<noteq> []"
proof -
  have "txs_size (items_txs (live mem_sample)) < 2 ^ 64" "live mem_sample \<noteq> []"
    using mem_sample_eval by (simp_all add: live_def)
  then show ?thesis
    using Drain_longest_prefix [OF mem_sample_inv(1) surjective_pairing, of 1] by auto
qed

text \<open>
  C5: a drained batch that was not acknowledged is handed out again: if \<open>Ack\<close> fails at any of its writes,
  the next \<open>Drain\<close> with the same limit returns the same transactions, postponed ones included, and
  nothing left the queue.
\<close>

theorem redrain_after_failed_Ack:
  assumes "batch_wal env view" and "queue_inv env view q" and "Drain env q maxBytes = (q1, txs)"
    and "distinct (map (q_sha256 env) post)" and "set post \<subseteq> set txs"
    and "bq_nextPrependSeq q - 1 < bq_nextPrependSeq q"
    and "Ack env (SetPostponed q1 post) = (q2, Some e)" and "Drain env q2 maxBytes = (q3, txs')"
  shows "txs' = txs \<and> live q3 = live q \<and> bq_inFlight q3 = bq_inFlight q1"
proof -
  have h: "bq_head q \<le> length (bq_queue q)" using assms(2) by (simp add: queue_inv_def)
  note d = Drain_eq [OF h assms(3)] and i1 = batch_wal.Drain_inv [OF assms(1,2,3)]
  let ?q = "SetPostponed q1 post"
  have q: "queue_inv env view ?q" and s: "bq_nextPrependSeq ?q = bq_nextPrependSeq q"
    "bq_inFlight ?q = bq_inFlight q1" "pending ?q = pending q1"
    using batch_wal.SetPostponed_inv [OF assms(1) i1(1)] assms(4,5) d(3,7)
    by (simp_all add: SetPostponed_def)
  have room: "bq_nextPrependSeq ?q - 1 < bq_nextPrependSeq ?q" using assms(6) by (simp add: s)
  note a = batch_wal.Ack_inv [OF assms(1) q room assms(7)]
  have live: "live q2 = live q" using a(2) s i1(2) by (simp add: live_def)
  have h2: "bq_head q2 \<le> length (bq_queue q2)" using a(1) by (simp add: queue_inv_def)
  show ?thesis
    using Drain_eq(1-3) [OF h2 assms(8)] batch_wal.Drain_inv(2) [OF assms(1) a(1) assms(8)] d(1,3)
    by (simp add: live)
qed

text \<open>The queue before the drain of \<open>faulty_sample\<close>.\<close>

definition faulty_added :: "faulty BatchQueue" where
  "faulty_added = fst (AddBatch (queue_env_on faulty_ds) (NewBatchQueue ([], [False, True]) 0) [[1], [2], [1]])"

lemma faulty_added_inv: "queue_inv (queue_env_on faulty_ds) (\<lambda>s. map_of (fst s)) faulty_added"
  unfolding faulty_added_def
  by (rule faulty_wal.AddBatch_inv [OF faulty_wal.NewBatchQueue_inv _ surjective_pairing])
    (simp add: NewBatchQueue_def initialSeqNum_def)

lemma faulty_added_drain: "fst (Drain (queue_env_on faulty_ds) faulty_added 0) = faulty_sample\<lparr>bq_inFlightPostponed := []\<rparr>"
  "snd (Drain (queue_env_on faulty_ds) faulty_added 0) = [[1], [2]]"
  "bq_nextPrependSeq faulty_added = initialSeqNum - 1"
  by (simp_all add: faulty_added_def sample_queue_def queue_eval)

theorem redrain_after_failed_Ack_witness:
  "\<exists>e. snd (Ack (queue_env_on faulty_ds)
        (SetPostponed (fst (Drain (queue_env_on faulty_ds) faulty_added 0)) [[2]])) = Some e \<and>
     snd (Drain (queue_env_on faulty_ds) (fst (Ack (queue_env_on faulty_ds)
        (SetPostponed (fst (Drain (queue_env_on faulty_ds) faulty_added 0)) [[2]]))) 0) = [[1], [2]]"
proof -
  let ?E = "queue_env_on faulty_ds"
  let ?q = "SetPostponed (fst (Drain ?E faulty_added 0)) [[2]]"
  have fail: "Ack ?E ?q = (fst (Ack ?E ?q), Some (ErrPersistPostponed (ErrPutBatch (ErrDatastore ''write''))))"
    by (simp add: faulty_added_def queue_eval Ack_def ack_persist_def)
  have "snd (Drain ?E (fst (Ack ?E ?q)) 0) = snd (Drain ?E faulty_added 0)"
    using redrain_after_failed_Ack [OF faulty_wal.batch_wal_axioms faulty_added_inv surjective_pairing _ _ _
        fail surjective_pairing] by (simp add: faulty_added_drain initialSeqNum_def)
  then show ?thesis using fail faulty_added_drain(2) by (metis snd_conv)
qed

text \<open>
  C6: \<open>AddBatch\<close> appends the transactions whose hash is not yet queued or in flight, each once, in the order of
  the batch; on an error (queue full, or the log write failed) the queue, the in-flight entries and
  the dedup set are as before, and the queue is reported full only when it is.
\<close>

theorem AddBatch_appends_new:
  assumes "queue_inv env view q" and "AddBatch env q batch = (q', r)"
  shows "bq_inFlight q' = bq_inFlight q \<and>
    (case r of
       None \<Rightarrow> \<exists>new. subseq new batch \<and> distinct (map (q_sha256 env) new) \<and>
                 items_txs (pending q') = items_txs (pending q) @ new \<and>
                 q_sha256 env ` set new = q_sha256 env ` set batch - bq_txSeen q
     | Some e \<Rightarrow> pending q' = pending q \<and> bq_txSeen q' = bq_txSeen q \<and>
                 (e = ErrQueueFull \<longleftrightarrow> 0 < bq_maxQueueSize q \<and> bq_maxQueueSize q \<le> Size q))"
proof -
  let ?H = "q_sha256 env"
  obtain u hs seen where d: "dedup ?H batch (bq_txSeen q) = (u, hs, seen)"
    by (metis prod_cases3)
  note dd = dedup_props [OF d]
  have h: "bq_head q \<le> length (bq_queue q)" using assms(1) by (simp add: queue_inv_def)
  have undo: "seen - set hs = bq_txSeen q" using dd(3,5) by blast
  have new: "?H ` set u = ?H ` set batch - bq_txSeen q"
  proof -
    have "set hs = ?H ` set u" using dd(1) by simp
    then show ?thesis using dd(2,3,5) by blast
  qed
  obtain db' r' where p: "persistBatch env (bq_db q) u (seqToKey (bq_nextAddSeq q)) = (db', r')"
    by fastforce
  show ?thesis
  proof (cases r)
    case None
    then have "bq_inFlight q' = bq_inFlight q" "items_txs (pending q') = items_txs (pending q) @ u"
      using assms(2) h p
      by (auto simp: AddBatch_def d Let_def pending_def split: if_splits option.splits)
    moreover have "distinct (map ?H u)" using dd(1,4) by simp
    ultimately show ?thesis using None new dedup_subseq [OF d] by auto
  next
    case (Some e)
    have sz: "Size (q\<lparr>bq_txSeen := seen\<rparr>) = Size q" by (simp add: Size_def)
    have ne: "u \<noteq> []" using Some assms(2) by (auto simp: AddBatch_def d)
    show ?thesis
    proof (cases "0 < bq_maxQueueSize q \<and> bq_maxQueueSize q \<le> Size q")
      case True
      with Some ne assms(2) undo show ?thesis by (auto simp: AddBatch_def d sz)
    next
      case False
      have "AddBatch env q batch = (case r' of
          None \<Rightarrow> (q\<lparr>bq_txSeen := seen, bq_db := db', bq_nextAddSeq := bq_nextAddSeq q + 1, bq_queue :=
            bq_queue q @ [\<lparr>qi_Batch = u, qi_Key = seqToKey (bq_nextAddSeq q)\<rparr>]\<rparr>, None)
        | Some e \<Rightarrow> (q\<lparr>bq_txSeen := bq_txSeen q, bq_db := db'\<rparr>, Some (ErrPersistBatch (seqToKey (bq_nextAddSeq q)) e)))"
        using ne undo p by (simp add: AddBatch_def d sz Let_def if_not_P [OF False] split: option.splits)
      with False Some assms(2) show ?thesis by (cases r') auto
    qed
  qed
qed

theorem AddBatch_appends_new_witness:
  "\<exists>new. subseq new [[2], [3]] \<and>
     items_txs (pending (fst (AddBatch (queue_env_on mem_ds) mem_sample [[2], [3]]))) =
       items_txs (pending mem_sample) @ new \<and> set new = set [[2], [3]] - bq_txSeen mem_sample"
proof -
  have "snd (AddBatch (queue_env_on mem_ds) mem_sample [[2], [3]]) = None"
    by (simp add: sample_queue_def queue_eval)
  then show ?thesis
    using AddBatch_appends_new [OF mem_sample_inv(1) surjective_pairing, of "[[2], [3]]"] by auto
qed

text \<open>
  C7: a successful \<open>Ack\<close> commits the drained batch: nothing is in flight any more, the postponed transactions are
  at the front of the queue followed by what was waiting, only these are remembered for deduplication,
  and the log holds exactly the queued entries, so the committed ones are gone for good. On a reliable
  datastore \<open>Ack\<close> succeeds.
\<close>

theorem Ack_commits:
  assumes "reliable_wal env view" and "queue_inv env view q" and "wal_exact view q"
    and "bq_nextPrependSeq q - 1 < bq_nextPrependSeq q" and "Ack env q = (q', r)"
  shows "r = None \<and> bq_inFlight q' = [] \<and> queue_inv env view q' \<and>
    items_txs (pending q') = bq_inFlightPostponed q @ items_txs (pending q) \<and>
    bq_txSeen q' = q_sha256 env ` set (bq_inFlightPostponed q @ items_txs (pending q)) \<and>
    dom (view (bq_db q')) = (\<lambda>item. CHR ''/'' # qi_Key item) ` set (pending q')"
proof -
  have bw: "batch_wal env view" using assms(1) by (simp add: reliable_wal_def)
  note a = batch_wal.Ack_inv [OF bw assms(2,4,5)] and e = reliable_wal.Ack_exact [OF assms]
  have infl: "bq_inFlight q' = []" "bq_inFlightPostponed q' = []" using a(3) e(1) by auto
  have "bq_postponedItem q' = None"
    using a(1) infl by (cases "bq_postponedItem q'") (auto simp: queue_inv_def)
  then have "live q' = pending q'" "tracked q' = pending q'"
    using infl by (simp_all add: tracked_def live_def)
  then show ?thesis
    using a(1,3) e by (auto simp: queue_inv_def wal_exact_def)
qed

theorem Ack_commits_witness:
  "items_txs (pending (fst (Ack (queue_env_on mem_ds) mem_sample))) = [[2]] \<and>
   bq_txSeen (fst (Ack (queue_env_on mem_ds) mem_sample)) = {[2]}"
  using Ack_commits [OF mem_wal.reliable_wal_axioms mem_sample_inv _ surjective_pairing]
  by (simp add: mem_sample_eval initialSeqNum_def)

text \<open>
  C8: on a freshly loaded queue \<open>DropIncluded\<close> removes exactly the queued transactions that the last block
  includes, keeps the others in order and under their keys, reports how many it removed, and rewrites
  the log to match, so a later reload does not bring them back.
\<close>

theorem DropIncluded_exact:
  assumes "reliable_wal env view" and "queue_inv env view q" and "wal_exact view q"
    and "bq_inFlight q = []" and "DropIncluded env q included = (q', n, r)"
  shows "r = None \<and> n = length (filter (\<lambda>tx. q_sha256 env tx \<in> q_sha256 env ` set included) (items_txs (live q))) \<and>
    items_txs (live q') = filter (\<lambda>tx. q_sha256 env tx \<notin> q_sha256 env ` set included) (items_txs (live q)) \<and>
    subseq (map qi_Key (live q')) (map qi_Key (live q)) \<and> queue_inv env view q' \<and> wal_exact view q'"
proof -
  note d = reliable_wal.DropIncluded_ok [OF assms]
  have "subseq (map qi_Key (excluding H inc items)) (map qi_Key items)" for H inc items
    by (induction items) (auto simp: excluding_def)
  then show ?thesis using d by (simp add: excluding_txs)
qed

theorem DropIncluded_exact_witness:
  "items_txs (live (fst (DropIncluded (queue_env_on mem_ds) (fst (Ack (queue_env_on mem_ds) mem_sample)) [[2], [9]]))) = []"
proof -
  let ?q = "fst (Ack (queue_env_on mem_ds) mem_sample)"
  have room: "bq_nextPrependSeq mem_sample - 1 < bq_nextPrependSeq mem_sample"
    by (simp add: mem_sample_eval initialSeqNum_def)
  note a = mem_wal.Ack_inv [OF mem_sample_inv(1) room surjective_pairing]
    and e = mem_wal.Ack_exact [OF mem_sample_inv room surjective_pairing]
  have "items_txs (live ?q) = [[2]]" "bq_inFlight ?q = []"
    using a(3) [OF e(1)] by (simp_all add: live_def mem_sample_eval)
  then show ?thesis
    using DropIncluded_exact [OF mem_wal.reliable_wal_axioms a(1) e(2), of "[[2], [9]]"
        "fst (DropIncluded (queue_env_on mem_ds) ?q [[2], [9]])"
        "fst (snd (DropIncluded (queue_env_on mem_ds) ?q [[2], [9]]))"
        "snd (snd (DropIncluded (queue_env_on mem_ds) ?q [[2], [9]]))"] by simp
qed

end
