(* ===== verification/Block_Types.thy ===== *)
theory Block_Types
  imports Prelude
begin

text \<open>
  Headers, data and state of the chain (\<open>types/header.go\<close>, \<open>types/data.go\<close>, \<open>types/signer.go\<close>,
  \<open>types/state.go\<close>), the protobuf messages they are converted to (\<open>proto/evnode/v1\<close>), and the
  parameters that stand for code outside the repository: SHA-256, the protobuf runtime and the libp2p
  keys. A \<open>nil\<close> byte slice and an empty one are the same list except in \<open>LegacyHeaderFields\<close>, where
  the code distinguishes them; a pointer that may be \<open>nil\<close> is an \<open>option\<close>. Instants are nanoseconds
  since the Unix epoch.
\<close>

section \<open>The chain's data\<close>

record Version =
  ver_Block :: u64
  ver_App :: u64

record BaseHeader =
  bh_Height :: u64
  bh_Time :: u64
  bh_ChainID :: string

record LegacyHeaderFields =
  lg_LastCommitHash :: "bytes option"
  lg_ConsensusHash :: "bytes option"
  lg_LastResultsHash :: "bytes option"

record Header =
  h_BaseHeader :: BaseHeader
  h_Version :: Version
  h_LastHeaderHash :: bytes
  h_DataHash :: bytes
  h_AppHash :: bytes
  h_ValidatorHash :: bytes
  h_ProposerAddress :: bytes
  h_Legacy :: "LegacyHeaderFields option"
  h_cachedHash :: "bytes option"

record Metadata =
  md_ChainID :: string
  md_Height :: u64
  md_Time :: u64
  md_LastDataHash :: bytes

record Data =
  d_Metadata :: "Metadata option"
  d_Txs :: "bytes list"

record 'k Signer =
  sg_PubKey :: "'k option"
  sg_Address :: bytes
  sg_marshalledPubKey :: bytes

record 'k SignedHeader =
  sh_Header :: Header
  sh_Signature :: bytes
  sh_Signer :: "'k Signer"
  sh_aggregatorProvider :: "(Header \<Rightarrow> bytes option) option"
  sh_syncNodeProvider :: "(Header \<Rightarrow> Data \<Rightarrow> bytes option) option"

record 'k SignedData =
  sd_Data :: Data
  sd_Signature :: bytes
  sd_Signer :: "'k Signer"

record State =
  st_Version :: Version
  st_ChainID :: string
  st_InitialHeight :: u64
  st_LastBlockHeight :: u64
  st_LastBlockTime :: instant
  st_LastHeaderHash :: bytes
  st_DAHeight :: u64
  st_AppHash :: bytes
  st_NextProposerAddress :: bytes

definition second :: int where
  "second = 1000000000"

definition MaxClockDrift :: int where
  "MaxClockDrift = 60 * second"

text \<open>\<open>time.Unix(0, int64(t))\<close>, and the zero \<open>time.Time\<close>, which is the first instant of year 1.\<close>

definition unix_nano :: "u64 \<Rightarrow> instant" where
  "unix_nano t = sint t"

definition zero_time :: instant where
  "zero_time = -62135596800 * second"

definition Header_ChainID :: "Header \<Rightarrow> string" where
  "Header_ChainID h = bh_ChainID (h_BaseHeader h)"

definition Header_Height :: "Header \<Rightarrow> u64" where
  "Header_Height h = bh_Height (h_BaseHeader h)"

definition Header_Time :: "Header \<Rightarrow> instant" where
  "Header_Time h = unix_nano (bh_Time (h_BaseHeader h))"

section \<open>Legacy fields\<close>

definition olen :: "bytes option \<Rightarrow> nat" where
  "olen b = (case b of None \<Rightarrow> 0 | Some bs \<Rightarrow> length bs)"

definition obytes :: "bytes option \<Rightarrow> bytes" where
  "obytes b = (case b of None \<Rightarrow> [] | Some bs \<Rightarrow> bs)"

definition cloneBytes :: "bytes option \<Rightarrow> bytes option" where
  "cloneBytes b = (if olen b = 0 then None else b)"

definition Legacy_IsZero :: "LegacyHeaderFields option \<Rightarrow> bool" where
  "Legacy_IsZero l = (case l of None \<Rightarrow> True
     | Some l \<Rightarrow> olen (lg_LastCommitHash l) = 0 \<and> olen (lg_ConsensusHash l) = 0 \<and>
                 olen (lg_LastResultsHash l) = 0)"

definition EnsureDefaults :: "LegacyHeaderFields \<Rightarrow> LegacyHeaderFields" where
  "EnsureDefaults l =
     (if lg_ConsensusHash l = None then l\<lparr>lg_ConsensusHash := Some (replicate 32 0)\<rparr> else l)"

definition Legacy_Clone :: "LegacyHeaderFields option \<Rightarrow> LegacyHeaderFields option" where
  "Legacy_Clone l = (case l of None \<Rightarrow> None
     | Some l \<Rightarrow> Some \<lparr>lg_LastCommitHash = cloneBytes (lg_LastCommitHash l),
                       lg_ConsensusHash = cloneBytes (lg_ConsensusHash l),
                       lg_LastResultsHash = cloneBytes (lg_LastResultsHash l)\<rparr>)"

definition emptyLegacy :: LegacyHeaderFields where
  "emptyLegacy = \<lparr>lg_LastCommitHash = None, lg_ConsensusHash = None, lg_LastResultsHash = None\<rparr>"

definition InvalidateHash :: "Header \<Rightarrow> Header" where
  "InvalidateHash h = h\<lparr>h_cachedHash := None\<rparr>"

definition ApplyLegacyDefaults :: "Header \<Rightarrow> Header" where
  "ApplyLegacyDefaults h =
     (let l = (case h_Legacy h of None \<Rightarrow> emptyLegacy | Some l \<Rightarrow> l)
      in InvalidateHash (h\<lparr>h_Legacy := Some (EnsureDefaults l)\<rparr>))"

definition Header_Clone :: "Header \<Rightarrow> Header" where
  "Header_Clone h = h\<lparr>h_Legacy := Legacy_Clone (h_Legacy h), h_cachedHash := None\<rparr>"

section \<open>Protobuf messages\<close>

record pbHeader =
  pbh_Version :: "Version option"
  pbh_Height :: u64
  pbh_Time :: u64
  pbh_LastHeaderHash :: bytes
  pbh_DataHash :: bytes
  pbh_AppHash :: bytes
  pbh_ProposerAddress :: bytes
  pbh_ValidatorHash :: bytes
  pbh_ChainId :: string
  pbh_unknown :: bytes

record pbSigner =
  pbsg_Address :: bytes
  pbsg_PubKey :: bytes

record pbSignedHeader =
  pbsh_Header :: "pbHeader option"
  pbsh_Signature :: bytes
  pbsh_Signer :: "pbSigner option"

record pbDAHeaderEnvelope =
  pbe_Header :: "pbHeader option"
  pbe_Signature :: bytes
  pbe_Signer :: "pbSigner option"
  pbe_EnvelopeSignature :: bytes

record pbMetadata =
  pbm_ChainId :: string
  pbm_Height :: u64
  pbm_Time :: u64
  pbm_LastDataHash :: bytes

record pbData =
  pbd_Metadata :: "pbMetadata option"
  pbd_Txs :: "bytes list"

record pbSignedData =
  pbsd_Data :: "pbData option"
  pbsd_Signature :: bytes
  pbsd_Signer :: "pbSigner option"

record pbTimestamp =
  pbt_Seconds :: int
  pbt_Nanos :: int

record pbState =
  pbs_Version :: "Version option"
  pbs_ChainId :: string
  pbs_InitialHeight :: u64
  pbs_LastBlockHeight :: u64
  pbs_LastBlockTime :: "pbTimestamp option"
  pbs_DaHeight :: u64
  pbs_AppHash :: bytes
  pbs_LastHeaderHash :: bytes
  pbs_NextProposerAddress :: bytes

record pbP2PSignedHeader =
  pbph_Header :: "pbHeader option"
  pbph_Signature :: bytes
  pbph_Signer :: "pbSigner option"
  pbph_DaHeightHint :: "u64 option"

record pbP2PData =
  pbpd_Metadata :: "pbMetadata option"
  pbpd_Txs :: "bytes list"
  pbpd_DaHeightHint :: "u64 option"

section \<open>Code outside the repository\<close>

text \<open>
  \<open>crypto.PubKey\<close> of libp2p and \<open>sha256.Sum256\<close>: a \<open>None\<close> is the error of the Go function.
\<close>

record 'k crypto =
  c_sha256 :: "bytes \<Rightarrow> bytes"
  c_Raw :: "'k \<Rightarrow> bytes option"
  c_Verify :: "'k \<Rightarrow> bytes \<Rightarrow> bytes \<Rightarrow> bool option"
  c_MarshalPublicKey :: "'k \<Rightarrow> bytes option"
  c_UnmarshalPublicKey :: "bytes \<Rightarrow> 'k option"

text \<open>
  \<open>encoding/protowire\<close>: wire types are numbers (0 varint, 1 fixed64, 2 bytes, 5 fixed32), a consuming
  function returns how many bytes it read, \<open>None\<close> is a negative length. A tag takes at least one
  byte, so \<open>pw_ConsumeTag\<close> returns how many it read after the first.
\<close>

record protowire =
  pw_AppendTag :: "bytes \<Rightarrow> nat \<Rightarrow> nat \<Rightarrow> bytes"
  pw_AppendVarint :: "bytes \<Rightarrow> u64 \<Rightarrow> bytes"
  pw_ConsumeTag :: "bytes \<Rightarrow> (nat \<times> nat \<times> nat) option"
  pw_ConsumeBytes :: "bytes \<Rightarrow> (bytes \<times> nat) option"
  pw_ConsumeFieldValue :: "nat \<Rightarrow> nat \<Rightarrow> bytes \<Rightarrow> nat option"

text \<open>\<open>proto.Marshal\<close> and \<open>proto.Unmarshal\<close> at the message types used.\<close>

record codec =
  m_Version :: "Version \<Rightarrow> bytes option"
  m_Header :: "pbHeader \<Rightarrow> bytes option"
  u_Header :: "bytes \<Rightarrow> pbHeader option"
  m_SignedHeader :: "pbSignedHeader \<Rightarrow> bytes option"
  u_SignedHeader :: "bytes \<Rightarrow> pbSignedHeader option"
  m_Envelope :: "pbDAHeaderEnvelope \<Rightarrow> bytes option"
  u_Envelope :: "bytes \<Rightarrow> pbDAHeaderEnvelope option"
  m_Metadata :: "pbMetadata \<Rightarrow> bytes option"
  u_Metadata :: "bytes \<Rightarrow> pbMetadata option"
  m_Data :: "pbData \<Rightarrow> bytes option"
  u_Data :: "bytes \<Rightarrow> pbData option"
  m_SignedData :: "pbSignedData \<Rightarrow> bytes option"
  u_SignedData :: "bytes \<Rightarrow> pbSignedData option"
  m_State :: "pbState \<Rightarrow> bytes option"
  u_State :: "bytes \<Rightarrow> pbState option"
  m_P2PSignedHeader :: "pbP2PSignedHeader \<Rightarrow> bytes option"
  u_P2PSignedHeader :: "bytes \<Rightarrow> pbP2PSignedHeader option"
  m_P2PData :: "pbP2PData \<Rightarrow> bytes option"
  u_P2PData :: "bytes \<Rightarrow> pbP2PData option"

section \<open>Signers\<close>

text \<open>\<open>types/signer.go\<close>. \<open>MarshalledPubKey\<close> also returns the signer, whose cache it fills.\<close>

definition MarshalledPubKey :: "'k crypto \<Rightarrow> 'k Signer \<Rightarrow> 'k Signer \<times> bytes option" where
  "MarshalledPubKey C s =
     (if sg_marshalledPubKey s \<noteq> [] then (s, Some (sg_marshalledPubKey s))
      else case sg_PubKey s of
        None \<Rightarrow> (s, Some [])
      | Some k \<Rightarrow> (case c_MarshalPublicKey C k of
                    None \<Rightarrow> (s, None)
                  | Some bz \<Rightarrow> (s\<lparr>sg_marshalledPubKey := bz\<rparr>, Some bz)))"

definition NewSigner :: "'k crypto \<Rightarrow> 'k \<Rightarrow> 'k Signer option" where
  "NewSigner C k =
     (case c_Raw C k of None \<Rightarrow> None
      | Some bz \<Rightarrow> (case c_MarshalPublicKey C k of None \<Rightarrow> None
          | Some m \<Rightarrow> Some \<lparr>sg_PubKey = Some k, sg_Address = c_sha256 C bz, sg_marshalledPubKey = m\<rparr>))"

definition KeyAddress :: "'k crypto \<Rightarrow> 'k \<Rightarrow> bytes" where
  "KeyAddress C k = (case c_Raw C k of None \<Rightarrow> [] | Some bz \<Rightarrow> c_sha256 C bz)"

definition emptySigner :: "'k Signer" where
  "emptySigner = \<lparr>sg_PubKey = None, sg_Address = [], sg_marshalledPubKey = []\<rparr>"

end
