(* ===== verification/Serialization.thy ===== *)
theory Serialization
  imports Block_Types
begin

text \<open>
  Binary encoding and hashing of the chain's data (\<open>types/serialization.go\<close>, \<open>types/hashing.go\<close>,
  \<open>types/p2p_envelope.go\<close>): conversion to and from the protobuf messages, the legacy header fields kept
  as unknown fields, the legacy header payload, and the hashes over these encodings. The object pools of
  the source only save allocations and are left out. An error of \<open>FromProto\<close> leaves a partly written
  receiver that no caller reads; the model returns the error alone.
\<close>

datatype wire_error =
    ErrMarshal
  | ErrUnmarshal
  | ErrNilMessage string
  | ErrParse
  | ErrUnknownTooLarge nat
  | ErrLegacyHashTooLarge nat nat
  | ErrPubKey

section \<open>Legacy header fields\<close>

definition legacyLastCommitHashField :: nat where "legacyLastCommitHashField = 5"
definition legacyConsensusHashField :: nat where "legacyConsensusHashField = 7"
definition legacyLastResultsHashField :: nat where "legacyLastResultsHashField = 9"
definition maxUnknownFieldSize :: nat where "maxUnknownFieldSize = 1024 * 1024"
definition maxLegacyHashSize :: nat where "maxLegacyHashSize = 1024"

lemmas legacy_consts = legacyLastCommitHashField_def legacyConsensusHashField_def
  legacyLastResultsHashField_def maxUnknownFieldSize_def maxLegacyHashSize_def

text \<open>\<open>append([]byte(nil), value...)\<close> of an empty slice is \<open>nil\<close>.\<close>

definition copied :: "bytes \<Rightarrow> bytes option" where
  "copied value = (if value = [] then None else Some value)"

definition setLegacyField :: "nat \<Rightarrow> bytes \<Rightarrow> LegacyHeaderFields \<Rightarrow> LegacyHeaderFields" where
  "setLegacyField fieldNum value l =
     (if fieldNum = legacyLastCommitHashField then l\<lparr>lg_LastCommitHash := copied value\<rparr>
      else if fieldNum = legacyConsensusHashField then l\<lparr>lg_ConsensusHash := copied value\<rparr>
      else l\<lparr>lg_LastResultsHash := copied value\<rparr>)"

function decode_loop :: "protowire \<Rightarrow> bytes \<Rightarrow> LegacyHeaderFields \<Rightarrow> wire_error + LegacyHeaderFields" where
  "decode_loop W unknown legacy =
     (if unknown = [] then Inr legacy
      else case pw_ConsumeTag W unknown of
        None \<Rightarrow> Inl ErrParse
      | Some (fieldNum, typ, n) \<Rightarrow>
          if fieldNum = legacyLastCommitHashField \<or> fieldNum = legacyConsensusHashField \<or>
             fieldNum = legacyLastResultsHashField
          then
            (if typ \<noteq> 2
             then (case pw_ConsumeFieldValue W fieldNum typ (drop (Suc n) unknown) of
                     None \<Rightarrow> Inl ErrParse
                   | Some size' \<Rightarrow> decode_loop W (drop size' (drop (Suc n) unknown)) legacy)
             else (case pw_ConsumeBytes W (drop (Suc n) unknown) of
                     None \<Rightarrow> Inl ErrParse
                   | Some (value, size') \<Rightarrow>
                       if maxLegacyHashSize < length value
                       then Inl (ErrLegacyHashTooLarge fieldNum (length value))
                       else decode_loop W (drop size' (drop (Suc n) unknown))
                              (setLegacyField fieldNum value legacy)))
          else
            (case pw_ConsumeFieldValue W fieldNum typ (drop (Suc n) unknown) of
               None \<Rightarrow> Inl ErrParse
             | Some size' \<Rightarrow> decode_loop W (drop size' (drop (Suc n) unknown)) legacy))"
  by pat_completeness auto
termination
  by (relation "measure (\<lambda>(_, unknown, _). length unknown)") (auto simp: length_greater_0_conv [symmetric]
    simp del: length_greater_0_conv)

declare decode_loop.simps [simp del]

definition decodeLegacyHeaderFields :: "protowire \<Rightarrow> pbHeader \<Rightarrow> wire_error + LegacyHeaderFields option" where
  "decodeLegacyHeaderFields W p =
     (let unknown = pbh_unknown p
      in if unknown = [] then Inr None
         else if maxUnknownFieldSize < length unknown then Inl (ErrUnknownTooLarge (length unknown))
         else case decode_loop W unknown emptyLegacy of
                Inl e \<Rightarrow> Inl e
              | Inr legacy \<Rightarrow> if Legacy_IsZero (Some legacy) then Inr None else Inr (Some legacy))"

definition appendBytesField :: "protowire \<Rightarrow> bytes \<Rightarrow> nat \<Rightarrow> bytes \<Rightarrow> bytes" where
  "appendBytesField W buf number value =
     pw_AppendVarint W (pw_AppendTag W buf number 2) (word_of_nat (length value)) @ value"

definition appendOptField :: "protowire \<Rightarrow> nat \<Rightarrow> bytes \<Rightarrow> bytes \<Rightarrow> bytes" where
  "appendOptField W number value buf =
     (if value = [] then buf else appendBytesField W buf number value)"

definition encodeLegacyUnknownFields :: "protowire \<Rightarrow> LegacyHeaderFields option \<Rightarrow> bytes" where
  "encodeLegacyUnknownFields W legacy =
     (case legacy of None \<Rightarrow> []
      | Some l \<Rightarrow>
          if Legacy_IsZero legacy then []
          else appendOptField W legacyLastResultsHashField (obytes (lg_LastResultsHash l))
                 (appendOptField W legacyConsensusHashField (obytes (lg_ConsensusHash l))
                   (appendOptField W legacyLastCommitHashField (obytes (lg_LastCommitHash l)) [])))"

section \<open>Headers\<close>

definition Header_ToProto :: "protowire \<Rightarrow> Header \<Rightarrow> pbHeader" where
  "Header_ToProto W h =
     \<lparr>pbh_Version = Some (h_Version h), pbh_Height = bh_Height (h_BaseHeader h),
      pbh_Time = bh_Time (h_BaseHeader h), pbh_LastHeaderHash = h_LastHeaderHash h,
      pbh_DataHash = h_DataHash h, pbh_AppHash = h_AppHash h,
      pbh_ProposerAddress = h_ProposerAddress h, pbh_ValidatorHash = h_ValidatorHash h,
      pbh_ChainId = bh_ChainID (h_BaseHeader h),
      pbh_unknown = encodeLegacyUnknownFields W (h_Legacy h)\<rparr>"

definition zeroVersion :: Version where
  "zeroVersion = \<lparr>ver_Block = 0, ver_App = 0\<rparr>"

definition Header_FromProto :: "protowire \<Rightarrow> pbHeader option \<Rightarrow> wire_error + Header" where
  "Header_FromProto W p =
     (case p of None \<Rightarrow> Inl (ErrNilMessage ''header'')
      | Some p \<Rightarrow>
          (case decodeLegacyHeaderFields W p of
             Inl e \<Rightarrow> Inl e
           | Inr legacy \<Rightarrow>
               Inr \<lparr>h_BaseHeader = \<lparr>bh_Height = pbh_Height p, bh_Time = pbh_Time p,
                                     bh_ChainID = pbh_ChainId p\<rparr>,
                    h_Version = (case pbh_Version p of None \<Rightarrow> zeroVersion | Some v \<Rightarrow> v),
                    h_LastHeaderHash = pbh_LastHeaderHash p, h_DataHash = pbh_DataHash p,
                    h_AppHash = pbh_AppHash p, h_ValidatorHash = pbh_ValidatorHash p,
                    h_ProposerAddress = pbh_ProposerAddress p, h_Legacy = legacy,
                    h_cachedHash = None\<rparr>))"

definition Header_MarshalBinary :: "codec \<Rightarrow> protowire \<Rightarrow> Header \<Rightarrow> bytes option" where
  "Header_MarshalBinary P W h = m_Header P (Header_ToProto W h)"

definition Header_UnmarshalBinary :: "codec \<Rightarrow> protowire \<Rightarrow> bytes \<Rightarrow> wire_error + Header" where
  "Header_UnmarshalBinary P W bs =
     (case u_Header P bs of None \<Rightarrow> Inl ErrUnmarshal | Some p \<Rightarrow> Header_FromProto W (Some p))"

text \<open>The legacy payload is written field by field, always with version, height and time.\<close>

definition string_bytes :: "string \<Rightarrow> bytes" where
  "string_bytes s = map of_char s"

definition marshalLegacyHeader :: "codec \<Rightarrow> protowire \<Rightarrow> Header \<Rightarrow> bytes option" where
  "marshalLegacyHeader P W h =
     (let clone = ApplyLegacyDefaults (Header_Clone h);
          legacy = (case h_Legacy clone of None \<Rightarrow> emptyLegacy | Some l \<Rightarrow> l)
      in case m_Version P (h_Version clone) of
           None \<Rightarrow> None
         | Some versionBytes \<Rightarrow>
             (let payload = appendBytesField W [] 1 versionBytes;
                  payload = pw_AppendVarint W (pw_AppendTag W payload 2 0) (bh_Height (h_BaseHeader clone));
                  payload = pw_AppendVarint W (pw_AppendTag W payload 3 0) (bh_Time (h_BaseHeader clone));
                  payload = appendOptField W 4 (h_LastHeaderHash clone) payload;
                  payload = appendOptField W legacyLastCommitHashField (obytes (lg_LastCommitHash legacy)) payload;
                  payload = appendOptField W 6 (h_DataHash clone) payload;
                  payload = appendOptField W legacyConsensusHashField (obytes (lg_ConsensusHash legacy)) payload;
                  payload = appendOptField W 8 (h_AppHash clone) payload;
                  payload = appendOptField W legacyLastResultsHashField (obytes (lg_LastResultsHash legacy)) payload;
                  payload = appendOptField W 10 (h_ProposerAddress clone) payload;
                  payload = appendOptField W 11 (h_ValidatorHash clone) payload;
                  payload = appendOptField W 12 (string_bytes (bh_ChainID (h_BaseHeader clone))) payload
              in Some payload))"

definition Header_MarshalBinaryLegacy :: "codec \<Rightarrow> protowire \<Rightarrow> Header \<Rightarrow> bytes option" where
  "Header_MarshalBinaryLegacy P W h = marshalLegacyHeader P W h"

section \<open>Data\<close>

definition Metadata_ToProto :: "Metadata \<Rightarrow> pbMetadata" where
  "Metadata_ToProto m = \<lparr>pbm_ChainId = md_ChainID m, pbm_Height = md_Height m, pbm_Time = md_Time m,
     pbm_LastDataHash = md_LastDataHash m\<rparr>"

definition Metadata_FromProto :: "pbMetadata option \<Rightarrow> wire_error + Metadata" where
  "Metadata_FromProto p = (case p of None \<Rightarrow> Inl (ErrNilMessage ''metadata'')
     | Some p \<Rightarrow> Inr \<lparr>md_ChainID = pbm_ChainId p, md_Height = pbm_Height p, md_Time = pbm_Time p,
                      md_LastDataHash = pbm_LastDataHash p\<rparr>)"

definition Metadata_MarshalBinary :: "codec \<Rightarrow> Metadata \<Rightarrow> bytes option" where
  "Metadata_MarshalBinary P m = m_Metadata P (Metadata_ToProto m)"

definition Metadata_UnmarshalBinary :: "codec \<Rightarrow> bytes \<Rightarrow> wire_error + Metadata" where
  "Metadata_UnmarshalBinary P bs =
     (case u_Metadata P bs of None \<Rightarrow> Inl ErrUnmarshal | Some p \<Rightarrow> Metadata_FromProto (Some p))"

definition Data_ToProto :: "Data \<Rightarrow> pbData" where
  "Data_ToProto d = \<lparr>pbd_Metadata = map_option Metadata_ToProto (d_Metadata d), pbd_Txs = d_Txs d\<rparr>"

definition Data_FromProto :: "pbData option \<Rightarrow> wire_error + Data" where
  "Data_FromProto p =
     (case p of None \<Rightarrow> Inl (ErrNilMessage ''data'')
      | Some p \<Rightarrow>
          (case pbd_Metadata p of
             None \<Rightarrow> Inr \<lparr>d_Metadata = None, d_Txs = pbd_Txs p\<rparr>
           | Some m \<Rightarrow> (case Metadata_FromProto (Some m) of
                          Inl e \<Rightarrow> Inl e
                        | Inr md \<Rightarrow> Inr \<lparr>d_Metadata = Some md, d_Txs = pbd_Txs p\<rparr>)))"

definition Data_MarshalBinary :: "codec \<Rightarrow> Data \<Rightarrow> bytes option" where
  "Data_MarshalBinary P d = m_Data P (Data_ToProto d)"

definition Data_UnmarshalBinary :: "codec \<Rightarrow> bytes \<Rightarrow> wire_error + Data" where
  "Data_UnmarshalBinary P bs =
     (case u_Data P bs of None \<Rightarrow> Inl ErrUnmarshal | Some p \<Rightarrow> Data_FromProto (Some p))"

section \<open>Signed headers and signed data\<close>

text \<open>The \<open>Signer\<close> of a message, shared by the four messages that carry one.\<close>

definition Signer_ToProto :: "'k crypto \<Rightarrow> 'k Signer \<Rightarrow> pbSigner option" where
  "Signer_ToProto C s =
     (case sg_PubKey s of
        None \<Rightarrow> Some \<lparr>pbsg_Address = [], pbsg_PubKey = []\<rparr>
      | Some _ \<Rightarrow> (case snd (MarshalledPubKey C s) of
                    None \<Rightarrow> None
                  | Some pubKey \<Rightarrow> Some \<lparr>pbsg_Address = sg_Address s, pbsg_PubKey = pubKey\<rparr>))"

definition Signer_FromProto :: "'k crypto \<Rightarrow> pbSigner option \<Rightarrow> wire_error + 'k Signer" where
  "Signer_FromProto C p =
     (case p of
        None \<Rightarrow> Inr emptySigner
      | Some p \<Rightarrow>
          if pbsg_PubKey p = [] then Inr emptySigner
          else case c_UnmarshalPublicKey C (pbsg_PubKey p) of
                 None \<Rightarrow> Inl ErrPubKey
               | Some k \<Rightarrow> Inr \<lparr>sg_PubKey = Some k, sg_Address = pbsg_Address p,
                                sg_marshalledPubKey = pbsg_PubKey p\<rparr>)"

definition SignedHeader_ToProto :: "'k crypto \<Rightarrow> protowire \<Rightarrow> 'k SignedHeader \<Rightarrow> wire_error + pbSignedHeader" where
  "SignedHeader_ToProto C W sh =
     (case Signer_ToProto C (sh_Signer sh) of
        None \<Rightarrow> Inl ErrPubKey
      | Some sg \<Rightarrow> Inr \<lparr>pbsh_Header = Some (Header_ToProto W (sh_Header sh)),
                        pbsh_Signature = sh_Signature sh, pbsh_Signer = Some sg\<rparr>)"

text \<open>\<open>FromProto\<close> keeps the custom payload providers of its receiver \<open>sh\<close>.\<close>

definition SignedHeader_FromProto ::
  "'k crypto \<Rightarrow> protowire \<Rightarrow> 'k SignedHeader \<Rightarrow> pbSignedHeader option \<Rightarrow> wire_error + 'k SignedHeader" where
  "SignedHeader_FromProto C W sh p =
     (case p of
        None \<Rightarrow> Inl (ErrNilMessage ''signed header'')
      | Some p \<Rightarrow>
          if pbsh_Header p = None then Inl (ErrNilMessage ''signed header's Header'')
          else case Header_FromProto W (pbsh_Header p) of
                 Inl e \<Rightarrow> Inl e
               | Inr h \<Rightarrow> (case Signer_FromProto C (pbsh_Signer p) of
                              Inl e \<Rightarrow> Inl e
                            | Inr sg \<Rightarrow> Inr (sh\<lparr>sh_Header := h, sh_Signature := pbsh_Signature p,
                                               sh_Signer := sg\<rparr>)))"

definition newSignedHeader :: "'k SignedHeader" where
  "newSignedHeader = \<lparr>sh_Header = \<lparr>h_BaseHeader = \<lparr>bh_Height = 0, bh_Time = 0, bh_ChainID = []\<rparr>,
       h_Version = zeroVersion, h_LastHeaderHash = [], h_DataHash = [], h_AppHash = [],
       h_ValidatorHash = [], h_ProposerAddress = [], h_Legacy = None, h_cachedHash = None\<rparr>,
     sh_Signature = [], sh_Signer = emptySigner, sh_aggregatorProvider = None, sh_syncNodeProvider = None\<rparr>"

definition SignedHeader_MarshalBinary ::
  "'k crypto \<Rightarrow> codec \<Rightarrow> protowire \<Rightarrow> 'k SignedHeader \<Rightarrow> wire_error + bytes" where
  "SignedHeader_MarshalBinary C P W sh =
     (case SignedHeader_ToProto C W sh of
        Inl e \<Rightarrow> Inl e
      | Inr p \<Rightarrow> (case m_SignedHeader P p of None \<Rightarrow> Inl ErrMarshal | Some bs \<Rightarrow> Inr bs))"

definition SignedHeader_UnmarshalBinary ::
  "'k crypto \<Rightarrow> codec \<Rightarrow> protowire \<Rightarrow> 'k SignedHeader \<Rightarrow> bytes \<Rightarrow> wire_error + 'k SignedHeader" where
  "SignedHeader_UnmarshalBinary C P W sh bs =
     (case u_SignedHeader P bs of
        None \<Rightarrow> Inl ErrUnmarshal
      | Some p \<Rightarrow> SignedHeader_FromProto C W sh (Some p))"

definition ToDAEnvelopeProto ::
  "'k crypto \<Rightarrow> protowire \<Rightarrow> 'k SignedHeader \<Rightarrow> bytes \<Rightarrow> wire_error + pbDAHeaderEnvelope" where
  "ToDAEnvelopeProto C W sh envelopeSignature =
     (case Signer_ToProto C (sh_Signer sh) of
        None \<Rightarrow> Inl ErrPubKey
      | Some sg \<Rightarrow> Inr \<lparr>pbe_Header = Some (Header_ToProto W (sh_Header sh)),
                        pbe_Signature = sh_Signature sh, pbe_Signer = Some sg,
                        pbe_EnvelopeSignature = envelopeSignature\<rparr>)"

definition FromDAEnvelopeProto ::
  "'k crypto \<Rightarrow> protowire \<Rightarrow> 'k SignedHeader \<Rightarrow> pbDAHeaderEnvelope option \<Rightarrow> wire_error + 'k SignedHeader" where
  "FromDAEnvelopeProto C W sh p =
     (case p of
        None \<Rightarrow> Inl (ErrNilMessage ''da header envelope'')
      | Some p \<Rightarrow>
          if pbe_Header p = None then Inl (ErrNilMessage ''da header envelope's Header'')
          else case Header_FromProto W (pbe_Header p) of
                 Inl e \<Rightarrow> Inl e
               | Inr h \<Rightarrow> (case Signer_FromProto C (pbe_Signer p) of
                              Inl e \<Rightarrow> Inl e
                            | Inr sg \<Rightarrow> Inr (sh\<lparr>sh_Header := h, sh_Signature := pbe_Signature p,
                                               sh_Signer := sg\<rparr>)))"

definition MarshalDAEnvelope ::
  "'k crypto \<Rightarrow> codec \<Rightarrow> protowire \<Rightarrow> 'k SignedHeader \<Rightarrow> bytes \<Rightarrow> wire_error + bytes" where
  "MarshalDAEnvelope C P W sh envelopeSignature =
     (case ToDAEnvelopeProto C W sh envelopeSignature of
        Inl e \<Rightarrow> Inl e
      | Inr p \<Rightarrow> (case m_Envelope P p of None \<Rightarrow> Inl ErrMarshal | Some bs \<Rightarrow> Inr bs))"

definition UnmarshalDAEnvelope ::
  "'k crypto \<Rightarrow> codec \<Rightarrow> protowire \<Rightarrow> 'k SignedHeader \<Rightarrow> bytes \<Rightarrow> wire_error + 'k SignedHeader \<times> bytes" where
  "UnmarshalDAEnvelope C P W sh bs =
     (case u_Envelope P bs of
        None \<Rightarrow> Inl ErrUnmarshal
      | Some p \<Rightarrow> (case FromDAEnvelopeProto C W sh (Some p) of
                    Inl e \<Rightarrow> Inl e
                  | Inr sh' \<Rightarrow> Inr (sh', pbe_EnvelopeSignature p)))"

definition SignedData_ToProto :: "'k crypto \<Rightarrow> 'k SignedData \<Rightarrow> wire_error + pbSignedData" where
  "SignedData_ToProto C sd =
     (case Signer_ToProto C (sd_Signer sd) of
        None \<Rightarrow> Inl ErrPubKey
      | Some sg \<Rightarrow> Inr \<lparr>pbsd_Data = Some (Data_ToProto (sd_Data sd)), pbsd_Signature = sd_Signature sd,
                        pbsd_Signer = Some sg\<rparr>)"

text \<open>A message without data leaves the data of the receiver \<open>sd\<close>.\<close>

definition SignedData_FromProto ::
  "'k crypto \<Rightarrow> 'k SignedData \<Rightarrow> pbSignedData option \<Rightarrow> wire_error + 'k SignedData" where
  "SignedData_FromProto C sd p =
     (case p of
        None \<Rightarrow> Inl (ErrNilMessage ''signed data'')
      | Some p \<Rightarrow>
          (case (case pbsd_Data p of None \<Rightarrow> Inr (sd_Data sd) | Some d \<Rightarrow> Data_FromProto (Some d)) of
             Inl e \<Rightarrow> Inl e
           | Inr d \<Rightarrow> (case Signer_FromProto C (pbsd_Signer p) of
                          Inl e \<Rightarrow> Inl e
                        | Inr sg \<Rightarrow> Inr \<lparr>sd_Data = d, sd_Signature = pbsd_Signature p, sd_Signer = sg\<rparr>)))"

definition SignedData_MarshalBinary :: "'k crypto \<Rightarrow> codec \<Rightarrow> 'k SignedData \<Rightarrow> wire_error + bytes" where
  "SignedData_MarshalBinary C P sd =
     (case SignedData_ToProto C sd of
        Inl e \<Rightarrow> Inl e
      | Inr p \<Rightarrow> (case m_SignedData P p of None \<Rightarrow> Inl ErrMarshal | Some bs \<Rightarrow> Inr bs))"

definition SignedData_UnmarshalBinary ::
  "'k crypto \<Rightarrow> codec \<Rightarrow> 'k SignedData \<Rightarrow> bytes \<Rightarrow> wire_error + 'k SignedData" where
  "SignedData_UnmarshalBinary C P sd bs =
     (case u_SignedData P bs of
        None \<Rightarrow> Inl ErrUnmarshal
      | Some p \<Rightarrow> SignedData_FromProto C sd (Some p))"

section \<open>State\<close>

definition Timestamp_of :: "instant \<Rightarrow> pbTimestamp" where
  "Timestamp_of t = \<lparr>pbt_Seconds = t div second, pbt_Nanos = t mod second\<rparr>"

definition AsTime :: "pbTimestamp \<Rightarrow> instant" where
  "AsTime ts = pbt_Seconds ts * second + pbt_Nanos ts"

definition State_ToProto :: "State \<Rightarrow> pbState" where
  "State_ToProto s =
     \<lparr>pbs_Version = Some (st_Version s), pbs_ChainId = st_ChainID s,
      pbs_InitialHeight = st_InitialHeight s, pbs_LastBlockHeight = st_LastBlockHeight s,
      pbs_LastBlockTime = Some (Timestamp_of (st_LastBlockTime s)), pbs_DaHeight = st_DAHeight s,
      pbs_AppHash = st_AppHash s, pbs_LastHeaderHash = st_LastHeaderHash s,
      pbs_NextProposerAddress = st_NextProposerAddress s\<rparr>"

definition State_FromProto :: "pbState option \<Rightarrow> wire_error + State" where
  "State_FromProto p =
     (case p of None \<Rightarrow> Inl (ErrNilMessage ''state'')
      | Some p \<Rightarrow>
          Inr \<lparr>st_Version = (case pbs_Version p of None \<Rightarrow> zeroVersion | Some v \<Rightarrow> v),
               st_ChainID = pbs_ChainId p, st_InitialHeight = pbs_InitialHeight p,
               st_LastBlockHeight = pbs_LastBlockHeight p,
               st_LastBlockTime = (case pbs_LastBlockTime p of None \<Rightarrow> zero_time | Some t \<Rightarrow> AsTime t),
               st_LastHeaderHash = pbs_LastHeaderHash p, st_DAHeight = pbs_DaHeight p,
               st_AppHash = pbs_AppHash p, st_NextProposerAddress = pbs_NextProposerAddress p\<rparr>)"

definition State_MarshalBinary :: "codec \<Rightarrow> State \<Rightarrow> bytes option" where
  "State_MarshalBinary P s = m_State P (State_ToProto s)"

section \<open>P2P envelopes\<close>

record 'k P2PSignedHeader =
  ph_SignedHeader :: "'k SignedHeader"
  ph_DAHeightHint :: u64

record P2PData =
  pd_Data :: Data
  pd_DAHeightHint :: u64

definition P2PSignedHeader_MarshalBinary ::
  "'k crypto \<Rightarrow> codec \<Rightarrow> protowire \<Rightarrow> 'k P2PSignedHeader \<Rightarrow> wire_error + bytes" where
  "P2PSignedHeader_MarshalBinary C P W p =
     (case SignedHeader_ToProto C W (ph_SignedHeader p) of
        Inl e \<Rightarrow> Inl e
      | Inr psh \<Rightarrow>
          (case m_P2PSignedHeader P \<lparr>pbph_Header = pbsh_Header psh, pbph_Signature = pbsh_Signature psh,
                  pbph_Signer = pbsh_Signer psh, pbph_DaHeightHint = Some (ph_DAHeightHint p)\<rparr> of
             None \<Rightarrow> Inl ErrMarshal | Some bs \<Rightarrow> Inr bs))"

definition P2PSignedHeader_UnmarshalBinary ::
  "'k crypto \<Rightarrow> codec \<Rightarrow> protowire \<Rightarrow> 'k P2PSignedHeader \<Rightarrow> bytes \<Rightarrow> wire_error + 'k P2PSignedHeader" where
  "P2PSignedHeader_UnmarshalBinary C P W p bs =
     (case u_P2PSignedHeader P bs of
        None \<Rightarrow> Inl ErrUnmarshal
      | Some msg \<Rightarrow>
          (case SignedHeader_FromProto C W (ph_SignedHeader p)
                  (Some \<lparr>pbsh_Header = pbph_Header msg, pbsh_Signature = pbph_Signature msg,
                         pbsh_Signer = pbph_Signer msg\<rparr>) of
             Inl e \<Rightarrow> Inl e
           | Inr sh \<Rightarrow> Inr \<lparr>ph_SignedHeader = sh,
               ph_DAHeightHint = (case pbph_DaHeightHint msg of None \<Rightarrow> ph_DAHeightHint p | Some hint \<Rightarrow> hint)\<rparr>))"

definition P2PData_MarshalBinary :: "codec \<Rightarrow> P2PData \<Rightarrow> bytes option" where
  "P2PData_MarshalBinary P p =
     (let pData = Data_ToProto (pd_Data p)
      in m_P2PData P \<lparr>pbpd_Metadata = pbd_Metadata pData, pbpd_Txs = pbd_Txs pData,
                      pbpd_DaHeightHint = Some (pd_DAHeightHint p)\<rparr>)"

definition P2PData_UnmarshalBinary :: "codec \<Rightarrow> P2PData \<Rightarrow> bytes \<Rightarrow> wire_error + P2PData" where
  "P2PData_UnmarshalBinary P p bs =
     (case u_P2PData P bs of
        None \<Rightarrow> Inl ErrUnmarshal
      | Some msg \<Rightarrow>
          (case Data_FromProto (Some \<lparr>pbd_Metadata = pbpd_Metadata msg, pbd_Txs = pbpd_Txs msg\<rparr>) of
             Inl e \<Rightarrow> Inl e
           | Inr d \<Rightarrow> Inr \<lparr>pd_Data = d,
               pd_DAHeightHint = (case pbpd_DaHeightHint msg of None \<Rightarrow> pd_DAHeightHint p | Some hint \<Rightarrow> hint)\<rparr>))"

section \<open>Hashes\<close>

definition HashSlim :: "'k crypto \<Rightarrow> codec \<Rightarrow> protowire \<Rightarrow> Header \<Rightarrow> bytes option" where
  "HashSlim C P W h = map_option (c_sha256 C) (Header_MarshalBinary P W h)"

definition HashLegacy :: "'k crypto \<Rightarrow> codec \<Rightarrow> protowire \<Rightarrow> Header \<Rightarrow> bytes option" where
  "HashLegacy C P W h = map_option (c_sha256 C) (Header_MarshalBinaryLegacy P W h)"

text \<open>\<open>None\<close> is the \<open>nil\<close> hash of a header that cannot be encoded.\<close>

definition computeHash :: "'k crypto \<Rightarrow> codec \<Rightarrow> protowire \<Rightarrow> Header \<Rightarrow> bytes option" where
  "computeHash C P W h =
     (case (if \<not> Legacy_IsZero (h_Legacy h) then HashLegacy C P W h else None) of
        Some legacyHash \<Rightarrow> Some legacyHash
      | None \<Rightarrow> HashSlim C P W h)"

definition Header_Hash_opt :: "'k crypto \<Rightarrow> codec \<Rightarrow> protowire \<Rightarrow> Header \<Rightarrow> bytes option" where
  "Header_Hash_opt C P W h =
     (case h_cachedHash h of Some hash \<Rightarrow> Some hash | None \<Rightarrow> computeHash C P W h)"

definition Header_Hash :: "'k crypto \<Rightarrow> codec \<Rightarrow> protowire \<Rightarrow> Header \<Rightarrow> bytes" where
  "Header_Hash C P W h = obytes (Header_Hash_opt C P W h)"

definition MemoizeHash :: "'k crypto \<Rightarrow> codec \<Rightarrow> protowire \<Rightarrow> Header \<Rightarrow> Header \<times> bytes" where
  "MemoizeHash C P W h =
     (case h_cachedHash h of
        Some hash \<Rightarrow> (h, hash)
      | None \<Rightarrow> (case computeHash C P W h of
                  None \<Rightarrow> (h, [])
                | Some hash \<Rightarrow> (h\<lparr>h_cachedHash := Some hash\<rparr>, hash)))"

definition leafPrefix :: bytes where
  "leafPrefix = [0]"

definition leafHashOpt :: "'k crypto \<Rightarrow> bytes \<Rightarrow> bytes" where
  "leafHashOpt C leaf = c_sha256 C (leafPrefix @ leaf)"

definition Data_Hash :: "'k crypto \<Rightarrow> codec \<Rightarrow> Data \<Rightarrow> bytes" where
  "Data_Hash C P d = leafHashOpt C (obytes (Data_MarshalBinary P d))"

definition DACommitment :: "'k crypto \<Rightarrow> codec \<Rightarrow> Data \<Rightarrow> bytes" where
  "DACommitment C P d =
     leafHashOpt C (obytes (m_Data P \<lparr>pbd_Metadata = None, pbd_Txs = d_Txs d\<rparr>))"

end
