(* ===== verification/Validation.thy ===== *)
theory Validation
  imports Serialization
begin

text \<open>
  Validation of headers, data and their place in the chain (\<open>types/header.go\<close>, \<open>types/data.go\<close>,
  \<open>types/signed_header.go\<close>, \<open>types/state.go\<close>). \<open>time.Now()\<close> is the argument \<open>now\<close>. The two package
  variables of \<open>state.go\<close> that let one broken header link pass are the record \<open>link_tracking\<close>, threaded
  through the checks.
\<close>

datatype valid_error =
    ErrNoProposerAddress
  | ErrInvalidTimestamp
  | ErrSignatureEmpty
  | ErrSignerPubKeyMissing
  | ErrSignerAddressMismatch
  | ErrProposerAddressMismatch
  | ErrCustomProvider
  | ErrVerify
  | ErrEncodeHeader
  | ErrSignatureVerificationFailed
  | ErrLastHeaderHashMismatch
  | ErrHeaderDataMismatch
  | ErrDataHashMismatch
  | ErrDataMetadataNil
  | ErrDataChainID
  | ErrDataHeight
  | ErrDataTime
  | ErrLastDataHashMismatch
  | ErrUntrustedNil
  | PanicNilMetadata
  | ErrUnexpectedProposer
  | ErrInvalidChainID
  | ErrInvalidBlockHeight
  | ErrInvalidBlockTime
  | ErrInvalidLastHeaderHash
  | ErrInvalidLastAppHash

section \<open>Headers\<close>

definition Header_ValidateBasic :: "instant \<Rightarrow> Header \<Rightarrow> valid_error option" where
  "Header_ValidateBasic now h =
     (if h_ProposerAddress h = [] then Some ErrNoProposerAddress
      else if bh_Time (h_BaseHeader h) = 0 then Some ErrInvalidTimestamp
      else if now + MaxClockDrift < Header_Time h then Some ErrInvalidTimestamp
      else None)"

definition Signature_ValidateBasic :: "bytes \<Rightarrow> valid_error option" where
  "Signature_ValidateBasic sig = (if sig = [] then Some ErrSignatureEmpty else None)"

definition validateSignerIdentity :: "'k crypto \<Rightarrow> 'k SignedHeader \<Rightarrow> valid_error option" where
  "validateSignerIdentity C sh =
     (case sg_PubKey (sh_Signer sh) of
        None \<Rightarrow> Some ErrSignerPubKeyMissing
      | Some k \<Rightarrow> if KeyAddress C k \<noteq> sg_Address (sh_Signer sh) then Some ErrSignerAddressMismatch else None)"

text \<open>One attempt: the payloads tried so far, and whether the signature verifies (\<open>Inl\<close> its error).\<close>

definition tryPayload :: "'k crypto \<Rightarrow> 'k \<Rightarrow> bytes \<Rightarrow> bytes list \<Rightarrow> bytes \<Rightarrow> bytes list \<times> (valid_error + bool)" where
  "tryPayload C k sig tried payload =
     (if payload = [] then (tried, Inr False)
      else if payload \<in> set tried then (tried, Inr False)
      else (tried @ [payload],
            (case c_Verify C k payload sig of None \<Rightarrow> Inl ErrVerify | Some verified \<Rightarrow> Inr verified)))"

text \<open>The attempts of \<open>ValidateBasic\<close> and \<open>ValidateBasicWithData\<close>: the custom payload first (\<open>None\<close> when no
  provider is set, \<open>Some None\<close> when it fails), then the slim and the legacy encoding.\<close>

definition try_payloads ::
  "'k crypto \<Rightarrow> codec \<Rightarrow> protowire \<Rightarrow> 'k \<Rightarrow> bytes \<Rightarrow> bytes option option \<Rightarrow> Header \<Rightarrow> valid_error option" where
  "try_payloads C P W k sig custom h =
     (let legacy_attempt = (\<lambda>tried.
            case Header_MarshalBinaryLegacy P W h of
              None \<Rightarrow> Some ErrEncodeHeader
            | Some legacy \<Rightarrow>
                (case tryPayload C k sig tried legacy of
                   (_, Inl e) \<Rightarrow> Some e
                 | (_, Inr True) \<Rightarrow> None
                 | (_, Inr False) \<Rightarrow> Some ErrSignatureVerificationFailed));
          slim_attempt = (\<lambda>tried.
            case Header_MarshalBinary P W h of
              None \<Rightarrow> Some ErrEncodeHeader
            | Some slim \<Rightarrow>
                (case tryPayload C k sig tried slim of
                   (_, Inl e) \<Rightarrow> Some e
                 | (_, Inr True) \<Rightarrow> None
                 | (tried', Inr False) \<Rightarrow> legacy_attempt tried'))
      in case custom of
           None \<Rightarrow> slim_attempt []
         | Some None \<Rightarrow> Some ErrCustomProvider
         | Some (Some bz) \<Rightarrow>
             (case tryPayload C k sig [] bz of
                (_, Inl e) \<Rightarrow> Some e
              | (_, Inr True) \<Rightarrow> None
              | (tried', Inr False) \<Rightarrow> slim_attempt tried'))"

definition validate_signed ::
  "'k crypto \<Rightarrow> codec \<Rightarrow> protowire \<Rightarrow> instant \<Rightarrow> 'k SignedHeader \<Rightarrow> bytes option option \<Rightarrow> valid_error option" where
  "validate_signed C P W now sh custom =
     (case Header_ValidateBasic now (sh_Header sh) of
        Some e \<Rightarrow> Some e
      | None \<Rightarrow>
      (case Signature_ValidateBasic (sh_Signature sh) of
        Some e \<Rightarrow> Some e
      | None \<Rightarrow>
      (case validateSignerIdentity C sh of
        Some e \<Rightarrow> Some e
      | None \<Rightarrow>
         if h_ProposerAddress (sh_Header sh) \<noteq> sg_Address (sh_Signer sh) then Some ErrProposerAddressMismatch
         else (case sg_PubKey (sh_Signer sh) of
                 None \<Rightarrow> Some ErrSignerPubKeyMissing
               | Some k \<Rightarrow> try_payloads C P W k (sh_Signature sh) custom (sh_Header sh)))))"

definition SignedHeader_ValidateBasic ::
  "'k crypto \<Rightarrow> codec \<Rightarrow> protowire \<Rightarrow> instant \<Rightarrow> 'k SignedHeader \<Rightarrow> valid_error option" where
  "SignedHeader_ValidateBasic C P W now sh =
     validate_signed C P W now sh (map_option (\<lambda>f. f (sh_Header sh)) (sh_aggregatorProvider sh))"

definition ValidateBasicWithData ::
  "'k crypto \<Rightarrow> codec \<Rightarrow> protowire \<Rightarrow> instant \<Rightarrow> 'k SignedHeader \<Rightarrow> Data \<Rightarrow> valid_error option" where
  "ValidateBasicWithData C P W now sh data =
     validate_signed C P W now sh (map_option (\<lambda>f. f (sh_Header sh) data) (sh_syncNodeProvider sh))"

definition isAdjacent :: "'k SignedHeader \<Rightarrow> 'k SignedHeader \<Rightarrow> bool" where
  "isAdjacent sh untrstH \<longleftrightarrow> Header_Height (sh_Header sh) + 1 = Header_Height (sh_Header untrstH)"

definition verifyHeaderHash ::
  "'k crypto \<Rightarrow> codec \<Rightarrow> protowire \<Rightarrow> 'k SignedHeader \<Rightarrow> 'k SignedHeader \<Rightarrow> valid_error option" where
  "verifyHeaderHash C P W sh untrstH =
     (if Header_Hash C P W (sh_Header sh) \<noteq> h_LastHeaderHash (sh_Header untrstH)
      then Some ErrLastHeaderHashMismatch else None)"

definition SignedHeader_Verify ::
  "'k crypto \<Rightarrow> codec \<Rightarrow> protowire \<Rightarrow> 'k SignedHeader \<Rightarrow> 'k SignedHeader \<Rightarrow> valid_error option" where
  "SignedHeader_Verify C P W sh untrstH =
     (if isAdjacent sh untrstH then verifyHeaderHash C P W sh untrstH else None)"

definition P2PSignedHeader_Verify ::
  "'k crypto \<Rightarrow> codec \<Rightarrow> protowire \<Rightarrow> 'k P2PSignedHeader \<Rightarrow> 'k P2PSignedHeader \<Rightarrow> valid_error option" where
  "P2PSignedHeader_Verify C P W p untrusted =
     SignedHeader_Verify C P W (ph_SignedHeader p) (ph_SignedHeader untrusted)"

section \<open>Data\<close>

text \<open>\<open>types.Validate\<close>: the data belongs to the header. \<open>Verify\<close> reads the metadata of the untrusted data
  without a check, a \<open>nil\<close> dereference when it has none.\<close>

definition Validate :: "'k crypto \<Rightarrow> codec \<Rightarrow> 'k SignedHeader \<Rightarrow> Data \<Rightarrow> valid_error option" where
  "Validate C P sh data =
     (if (case d_Metadata data of None \<Rightarrow> False
          | Some m \<Rightarrow> Header_ChainID (sh_Header sh) \<noteq> md_ChainID m \<or>
                      Header_Height (sh_Header sh) \<noteq> md_Height m \<or>
                      Header_Time (sh_Header sh) \<noteq> unix_nano (md_Time m))
      then Some ErrHeaderDataMismatch
      else if DACommitment C P \<lparr>d_Metadata = None, d_Txs = d_Txs data\<rparr> \<noteq> h_DataHash (sh_Header sh)
      then Some ErrDataHashMismatch
      else None)"

definition Data_Verify :: "'k crypto \<Rightarrow> codec \<Rightarrow> Data \<Rightarrow> Data option \<Rightarrow> valid_error option" where
  "Data_Verify C P d untrusted =
     (case untrusted of
        None \<Rightarrow> Some ErrUntrustedNil
      | Some u \<Rightarrow> (case d_Metadata u of
                    None \<Rightarrow> Some PanicNilMetadata
                  | Some m \<Rightarrow> if Data_Hash C P d \<noteq> md_LastDataHash m then Some ErrLastDataHashMismatch else None))"

definition Data_Validate :: "instant \<Rightarrow> Data \<Rightarrow> valid_error option" where
  "Data_Validate now d =
     (case d_Metadata d of
        None \<Rightarrow> Some ErrDataMetadataNil
      | Some m \<Rightarrow>
          if md_ChainID m = [] then Some ErrDataChainID
          else if md_Height m = 0 then Some ErrDataHeight
          else if md_Time m = 0 then Some ErrDataTime
          else if now + MaxClockDrift < unix_nano (md_Time m) then Some ErrDataTime
          else None)"

definition Data_Height :: "Data \<Rightarrow> u64 option" where
  "Data_Height d = map_option md_Height (d_Metadata d)"

text \<open>Adjacent P2P data is checked as data; a missing metadata is a \<open>nil\<close> dereference.\<close>

definition P2PData_Verify :: "'k crypto \<Rightarrow> codec \<Rightarrow> P2PData \<Rightarrow> P2PData \<Rightarrow> valid_error option" where
  "P2PData_Verify C P p untrusted =
     (case (Data_Height (pd_Data p), Data_Height (pd_Data untrusted)) of
        (Some n, Some n') \<Rightarrow> if n + 1 \<noteq> n' then None else Data_Verify C P (pd_Data p) (Some (pd_Data untrusted))
      | _ \<Rightarrow> Some PanicNilMetadata)"

definition TxsByteSize :: "Data \<Rightarrow> nat" where
  "TxsByteSize d = foldl (\<lambda>n tx. n + length tx) 0 (d_Txs d)"

section \<open>State\<close>

definition NextState :: "'k crypto \<Rightarrow> codec \<Rightarrow> protowire \<Rightarrow> State \<Rightarrow> Header \<Rightarrow> bytes \<Rightarrow> bytes \<Rightarrow> State" where
  "NextState C P W s h stateRoot nextProposerAddress =
     (let nextProposer = (if nextProposerAddress \<noteq> [] then nextProposerAddress else st_NextProposerAddress s);
          nextProposer = (if nextProposer = [] then h_ProposerAddress h else nextProposer)
      in \<lparr>st_Version = st_Version s, st_ChainID = st_ChainID s, st_InitialHeight = st_InitialHeight s,
          st_LastBlockHeight = Header_Height h, st_LastBlockTime = Header_Time h,
          st_LastHeaderHash = Header_Hash C P W h, st_DAHeight = st_DAHeight s, st_AppHash = stateRoot,
          st_NextProposerAddress = nextProposer\<rparr>)"

record link_tracking =
  lt_once :: bool
  lt_errCount :: nat

definition newTracking :: link_tracking where
  "newTracking = \<lparr>lt_once = False, lt_errCount = 0\<rparr>"

definition AssertExpectedProposer :: "State \<Rightarrow> 'k SignedHeader \<Rightarrow> valid_error option" where
  "AssertExpectedProposer s sh =
     (if st_NextProposerAddress s \<noteq> [] \<and> h_ProposerAddress (sh_Header sh) \<noteq> st_NextProposerAddress s
      then Some ErrUnexpectedProposer else None)"

definition AssertValidSequence ::
  "link_tracking \<Rightarrow> State \<Rightarrow> 'k SignedHeader \<Rightarrow> link_tracking \<times> valid_error option" where
  "AssertValidSequence lt s sh =
     (let h = sh_Header sh in
      if Header_ChainID h \<noteq> st_ChainID s then (lt, Some ErrInvalidChainID)
      else if st_LastHeaderHash s = [] then (lt, None)
      else if Header_Height h \<noteq> st_LastBlockHeight s + 1 then (lt, Some ErrInvalidBlockHeight)
      else if Header_Time h < st_LastBlockTime s then (lt, Some ErrInvalidBlockTime)
      else if h_LastHeaderHash h \<noteq> st_LastHeaderHash s \<and> lt_errCount lt = 1
      then (lt, Some ErrInvalidLastHeaderHash)
      else let lt = (if h_LastHeaderHash h \<noteq> st_LastHeaderHash s \<and> \<not> lt_once lt
                     then \<lparr>lt_once = True, lt_errCount = lt_errCount lt + 1\<rparr> else lt)
           in if h_AppHash h \<noteq> st_AppHash s then (lt, Some ErrInvalidLastAppHash) else (lt, None))"

definition AssertValidForNextState ::
  "'k crypto \<Rightarrow> codec \<Rightarrow> link_tracking \<Rightarrow> State \<Rightarrow> 'k SignedHeader \<Rightarrow> Data \<Rightarrow> link_tracking \<times> valid_error option" where
  "AssertValidForNextState C P lt s sh data =
     (case AssertExpectedProposer s sh of
        Some e \<Rightarrow> (lt, Some e)
      | None \<Rightarrow> (case AssertValidSequence lt s sh of
                  (lt', Some e) \<Rightarrow> (lt', Some e)
                | (lt', None) \<Rightarrow> (lt', Validate C P sh data)))"

end
