(* ===== verification/Wire_Laws.thy ===== *)
theory Wire_Laws
  imports Validation
begin

text \<open>
  What the encodings of \<open>types/serialization.go\<close> promise: two locales state what the code relies on in
  \<open>encoding/protowire\<close>, in the protobuf runtime and in the libp2p keys, and the round trips of the legacy
  fields, headers, signed headers, data, state and envelopes are proved once inside them. The theory
  \<open>Protobuf\<close> interprets both on a concrete wire format.
\<close>

section \<open>The wire format round-trips\<close>

definition wire_field :: "protowire \<Rightarrow> nat \<Rightarrow> bytes \<Rightarrow> bytes" where
  "wire_field W n v = (if v = [] then [] else
     pw_AppendTag W [] n 2 @ pw_AppendVarint W [] (word_of_nat (length v)) @ v)"

definition legacy_small :: "LegacyHeaderFields option \<Rightarrow> bool" where
  "legacy_small l = (case l of None \<Rightarrow> True
     | Some l \<Rightarrow> olen (lg_LastCommitHash l) \<le> maxLegacyHashSize \<and> olen (lg_ConsensusHash l) \<le> maxLegacyHashSize \<and>
                 olen (lg_LastResultsHash l) \<le> maxLegacyHashSize)"

definition normLegacy :: "LegacyHeaderFields option \<Rightarrow> LegacyHeaderFields option" where
  "normLegacy l = (if Legacy_IsZero l then None else Legacy_Clone l)"

text \<open>The header and the signed header the receiver holds: cached values are gone, empty legacy fields
  are absent, the signer carries the encoded key, and the receiver \<open>recv\<close> keeps its payload providers.\<close>

definition normHeader :: "Header \<Rightarrow> Header" where
  "normHeader h = h\<lparr>h_Legacy := normLegacy (h_Legacy h), h_cachedHash := None\<rparr>"

definition received :: "'k crypto \<Rightarrow> 'k SignedHeader \<Rightarrow> 'k SignedHeader \<Rightarrow> 'k SignedHeader" where
  "received C recv sh = recv\<lparr>sh_Header := normHeader (sh_Header sh), sh_Signature := sh_Signature sh,
     sh_Signer := fst (MarshalledPubKey C (sh_Signer sh))\<rparr>"

text \<open>A signer built by \<open>NewSigner\<close> or read from the wire: no key and no address, or a key with its encoding
  cached or not yet computed.\<close>

definition signer_wf :: "'k crypto \<Rightarrow> 'k Signer \<Rightarrow> bool" where
  "signer_wf C s \<longleftrightarrow> (case sg_PubKey s of None \<Rightarrow> s = emptySigner
     | Some k \<Rightarrow> sg_marshalledPubKey s = [] \<or> c_MarshalPublicKey C k = Some (sg_marshalledPubKey s))"

text \<open>What the encoding relies on in \<open>encoding/protowire\<close>: appending appends, a tag and a
  length-prefixed byte string are read back, and both prefixes take at most ten bytes.\<close>

locale protowire_laws =
  fixes W :: protowire
  assumes append_tag: "pw_AppendTag W buf n t = buf @ pw_AppendTag W [] n t"
    and append_varint: "pw_AppendVarint W buf u = buf @ pw_AppendVarint W [] u"
    and consume_tag: "\<lbrakk>0 < n; n < 2 ^ 29; t < 8\<rbrakk> \<Longrightarrow>
      pw_ConsumeTag W (pw_AppendTag W [] n t @ rest) = Some (n, t, length (pw_AppendTag W [] n t) - 1)"
    and tag_nonempty: "pw_AppendTag W [] n t \<noteq> []"
    and tag_bound: "\<lbrakk>n < 2 ^ 29; t < 8\<rbrakk> \<Longrightarrow> length (pw_AppendTag W [] n t) \<le> 10"
    and varint_bound: "length (pw_AppendVarint W [] u) \<le> 10"
    and consume_bytes: "length v < 2 ^ 63 \<Longrightarrow>
      pw_ConsumeBytes W (pw_AppendVarint W [] (word_of_nat (length v)) @ v @ rest) =
        Some (v, length (pw_AppendVarint W [] (word_of_nat (length v))) + length v)"
begin

lemma appendOptField_eq: "appendOptField W n v buf = buf @ wire_field W n v"
proof -
  have "appendBytesField W buf n v = buf @ pw_AppendTag W [] n 2 @ pw_AppendVarint W [] (word_of_nat (length v)) @ v"
    unfolding appendBytesField_def
    by (subst append_varint, subst append_tag) simp
  then show ?thesis by (simp add: appendOptField_def wire_field_def)
qed

lemma length_field: "length v \<le> maxLegacyHashSize \<Longrightarrow> n < 2 ^ 29 \<Longrightarrow> length (wire_field W n v) \<le> 20 + maxLegacyHashSize"
  using tag_bound [of n 2] varint_bound [of "word_of_nat (length v)"] by (simp add: wire_field_def)

lemma decode_field:
  assumes n: "n = legacyLastCommitHashField \<or> n = legacyConsensusHashField \<or> n = legacyLastResultsHashField"
    and v: "v \<noteq> []" "length v \<le> maxLegacyHashSize"
  shows "decode_loop W (wire_field W n v @ rest) l = decode_loop W rest (setLegacyField n v l)"
proof -
  let ?tag = "pw_AppendTag W [] n 2" and ?len = "pw_AppendVarint W [] (word_of_nat (length v))"
  have "length ?tag \<noteq> 0" using tag_nonempty by simp
  then have tag: "pw_ConsumeTag W (?tag @ ?len @ v @ rest) = Some (n, 2, length ?tag - 1)"
    "drop (Suc (length ?tag - 1)) (?tag @ ?len @ v @ rest) = ?len @ v @ rest"
    using n consume_tag [of n 2 "?len @ v @ rest"] by (auto simp: legacy_consts)
  have "length v < 2 ^ 63" using v(2) by (simp add: legacy_consts)
  from consume_bytes [OF this, of rest]
  show ?thesis
    using n v tag by (subst decode_loop.simps) (auto simp: wire_field_def)
qed

lemma decode_opt_field:
  assumes "n = legacyLastCommitHashField \<or> n = legacyConsensusHashField \<or> n = legacyLastResultsHashField"
    and "length v \<le> maxLegacyHashSize"
  shows "decode_loop W (wire_field W n v @ rest) l =
    decode_loop W rest (if v = [] then l else setLegacyField n v l)"
  using decode_field [OF assms(1) _ assms(2)] by (simp add: wire_field_def)

lemma encodeLegacy_eq:
  "\<not> Legacy_IsZero (Some l) \<Longrightarrow> encodeLegacyUnknownFields W (Some l) =
     wire_field W legacyLastCommitHashField (obytes (lg_LastCommitHash l)) @
     wire_field W legacyConsensusHashField (obytes (lg_ConsensusHash l)) @
     wire_field W legacyLastResultsHashField (obytes (lg_LastResultsHash l))"
  by (simp add: encodeLegacyUnknownFields_def appendOptField_eq)

lemma legacy_roundtrip:
  assumes small: "legacy_small legacy" and p: "pbh_unknown p = encodeLegacyUnknownFields W legacy"
  shows "decodeLegacyHeaderFields W p = Inr (normLegacy legacy)"
proof (cases "Legacy_IsZero legacy")
  case True
  then have "pbh_unknown p = []" using p by (auto simp: encodeLegacyUnknownFields_def split: option.splits)
  with True show ?thesis by (simp add: decodeLegacyHeaderFields_def normLegacy_def)
next
  case False
  then obtain l where l: "legacy = Some l" by (cases legacy) (auto simp: Legacy_IsZero_def)
  let ?a = "obytes (lg_LastCommitHash l)" and ?b = "obytes (lg_ConsensusHash l)"
    and ?c = "obytes (lg_LastResultsHash l)"
  have sz: "length ?a \<le> maxLegacyHashSize" "length ?b \<le> maxLegacyHashSize" "length ?c \<le> maxLegacyHashSize"
    using small l by (auto simp: legacy_small_def obytes_def olen_def split: option.splits)
  have u: "pbh_unknown p = wire_field W legacyLastCommitHashField ?a @
      wire_field W legacyConsensusHashField ?b @ wire_field W legacyLastResultsHashField ?c"
    using p False l by (simp add: encodeLegacy_eq)
  have ne: "pbh_unknown p \<noteq> []"
    using False l tag_nonempty unfolding u by (auto simp: wire_field_def Legacy_IsZero_def obytes_def olen_def split: option.splits)
  have len: "length (pbh_unknown p) \<le> maxUnknownFieldSize"
    using length_field [OF sz(1), of legacyLastCommitHashField] length_field [OF sz(2), of legacyConsensusHashField]
      length_field [OF sz(3), of legacyLastResultsHashField]
    unfolding u by (simp add: legacy_consts)
  have dec: "decode_loop W (pbh_unknown p) emptyLegacy =
      Inr \<lparr>lg_LastCommitHash = copied ?a, lg_ConsensusHash = copied ?b, lg_LastResultsHash = copied ?c\<rparr>"
    unfolding u using sz
    by (simp add: decode_opt_field decode_opt_field [where rest = "[]", simplified] decode_loop.simps [of W "[]"]
        setLegacyField_def legacy_consts emptyLegacy_def copied_def)
  have clone: "copied (obytes x) = cloneBytes x" for x
    by (auto simp: copied_def cloneBytes_def obytes_def olen_def split: option.splits)
  have z: "\<not> Legacy_IsZero (Legacy_Clone legacy)"
    using False l by (auto simp: Legacy_IsZero_def Legacy_Clone_def cloneBytes_def olen_def split: option.splits)
  show ?thesis
    using ne len dec z False l
    by (simp add: decodeLegacyHeaderFields_def Let_def clone normLegacy_def Legacy_Clone_def)
qed

end

text \<open>What the conversions rely on in the protobuf runtime and in the keys: a marshalled message unmarshals
  to itself, a header's unknown fields included when they are the legacy ones (their numbers are
  reserved in the schema), and a marshalled public key is not empty and unmarshals to itself.\<close>

locale wire_laws = protowire_laws W for W +
  fixes P :: codec and C :: "'k crypto"
  assumes header_codec: "\<lbrakk>legacy_small l; pbh_unknown ph = encodeLegacyUnknownFields W l; m_Header P ph = Some b\<rbrakk> \<Longrightarrow>
      u_Header P b = Some ph"
    and signed_header_codec: "\<lbrakk>pbsh_Header ps = Some ph; legacy_small l; pbh_unknown ph = encodeLegacyUnknownFields W l;
      m_SignedHeader P ps = Some b\<rbrakk> \<Longrightarrow> u_SignedHeader P b = Some ps"
    and envelope_codec: "\<lbrakk>pbe_Header pe = Some ph; legacy_small l; pbh_unknown ph = encodeLegacyUnknownFields W l;
      m_Envelope P pe = Some b\<rbrakk> \<Longrightarrow> u_Envelope P b = Some pe"
    and p2p_header_codec: "\<lbrakk>pbph_Header pp = Some ph; legacy_small l; pbh_unknown ph = encodeLegacyUnknownFields W l;
      m_P2PSignedHeader P pp = Some b\<rbrakk> \<Longrightarrow> u_P2PSignedHeader P b = Some pp"
    and metadata_codec: "m_Metadata P pm = Some b \<Longrightarrow> u_Metadata P b = Some pm"
    and data_codec: "m_Data P pd = Some b \<Longrightarrow> u_Data P b = Some pd"
    and signed_data_codec: "m_SignedData P psd = Some b \<Longrightarrow> u_SignedData P b = Some psd"
    and state_codec: "m_State P pst = Some b \<Longrightarrow> u_State P b = Some pst"
    and p2p_data_codec: "m_P2PData P ppd = Some b \<Longrightarrow> u_P2PData P b = Some ppd"
    and pubkey_codec: "c_MarshalPublicKey C k = Some b \<Longrightarrow> b \<noteq> [] \<and> c_UnmarshalPublicKey C b = Some k"
begin

lemma metadata_from_to [simp]: "Metadata_FromProto (Some (Metadata_ToProto m)) = Inr m"
  by (simp add: Metadata_FromProto_def Metadata_ToProto_def)

lemma data_from_to [simp]: "Data_FromProto (Some (Data_ToProto d)) = Inr d"
  by (cases "d_Metadata d") (simp_all add: Data_FromProto_def Data_ToProto_def)

lemma header_from_to:
  "legacy_small (h_Legacy h) \<Longrightarrow> Header_FromProto W (Some (Header_ToProto W h)) = Inr (normHeader h)"
  using legacy_roundtrip [of "h_Legacy h" "Header_ToProto W h"]
  by (simp add: Header_FromProto_def normHeader_def Header_ToProto_def)

lemma header_roundtrip:
  assumes "legacy_small (h_Legacy h)" and "Header_MarshalBinary P W h = Some b"
  shows "Header_UnmarshalBinary P W b = Inr (normHeader h)"
proof -
  have "u_Header P b = Some (Header_ToProto W h)"
    using assms header_codec [of "h_Legacy h" "Header_ToProto W h" b]
    by (simp add: Header_MarshalBinary_def Header_ToProto_def)
  then show ?thesis using header_from_to [OF assms(1)] by (simp add: Header_UnmarshalBinary_def)
qed

lemma signer_from_to:
  assumes "signer_wf C s" and "Signer_ToProto C s = Some ps"
  shows "Signer_FromProto C (Some ps) = Inr (fst (MarshalledPubKey C s))"
  using assms pubkey_codec
  by (auto simp: Signer_ToProto_def Signer_FromProto_def signer_wf_def MarshalledPubKey_def emptySigner_def
      split: option.splits if_splits)

lemma data_roundtrip: "Data_MarshalBinary P d = Some b \<Longrightarrow> Data_UnmarshalBinary P b = Inr d"
  using data_codec by (simp add: Data_MarshalBinary_def Data_UnmarshalBinary_def)

lemma metadata_roundtrip: "Metadata_MarshalBinary P m = Some b \<Longrightarrow> Metadata_UnmarshalBinary P b = Inr m"
  using metadata_codec by (simp add: Metadata_MarshalBinary_def Metadata_UnmarshalBinary_def)

lemma timestamp_inverse [simp]: "AsTime (Timestamp_of t) = t"
  by (simp add: AsTime_def Timestamp_of_def)

lemma state_from_to [simp]: "State_FromProto (Some (State_ToProto s)) = Inr s"
  by (simp add: State_FromProto_def State_ToProto_def)

lemma signed_header_to:
  assumes "SignedHeader_ToProto C W sh = Inr p"
  obtains sg where "Signer_ToProto C (sh_Signer sh) = Some sg"
    and "p = \<lparr>pbsh_Header = Some (Header_ToProto W (sh_Header sh)), pbsh_Signature = sh_Signature sh, pbsh_Signer = Some sg\<rparr>"
  using assms by (auto simp: SignedHeader_ToProto_def split: option.splits)

lemma signed_header_from_to:
  assumes "legacy_small (h_Legacy (sh_Header sh))" and "signer_wf C (sh_Signer sh)"
    and "SignedHeader_ToProto C W sh = Inr p"
  shows "SignedHeader_FromProto C W recv (Some p) = Inr (received C recv sh)"
proof -
  obtain sg where "Signer_ToProto C (sh_Signer sh) = Some sg"
    and "p = \<lparr>pbsh_Header = Some (Header_ToProto W (sh_Header sh)), pbsh_Signature = sh_Signature sh, pbsh_Signer = Some sg\<rparr>"
    using signed_header_to [OF assms(3)] .
  then show ?thesis
    using header_from_to [OF assms(1)] signer_from_to [OF assms(2)]
    by (simp add: SignedHeader_FromProto_def received_def)
qed

lemma signed_header_wire:
  assumes "legacy_small (h_Legacy (sh_Header sh))" and "signer_wf C (sh_Signer sh)"
    and "SignedHeader_MarshalBinary C P W sh = Inr b"
  shows "SignedHeader_UnmarshalBinary C P W recv b = Inr (received C recv sh)"
proof -
  obtain p where p: "SignedHeader_ToProto C W sh = Inr p" "m_SignedHeader P p = Some b"
    using assms(3) by (auto simp: SignedHeader_MarshalBinary_def split: sum.splits option.splits)
  have "u_SignedHeader P b = Some p"
    by (rule signed_header_to [OF p(1)], rule signed_header_codec [OF _ assms(1) _ p(2)])
      (auto simp: Header_ToProto_def)
  then show ?thesis
    using signed_header_from_to [OF assms(1,2) p(1)] by (simp add: SignedHeader_UnmarshalBinary_def)
qed

lemma envelope_wire:
  assumes "legacy_small (h_Legacy (sh_Header sh))" and "signer_wf C (sh_Signer sh)"
    and "MarshalDAEnvelope C P W sh sig = Inr b"
  shows "UnmarshalDAEnvelope C P W recv b = Inr (received C recv sh, sig)"
proof -
  obtain sg where sg: "Signer_ToProto C (sh_Signer sh) = Some sg"
    and m: "m_Envelope P \<lparr>pbe_Header = Some (Header_ToProto W (sh_Header sh)), pbe_Signature = sh_Signature sh,
       pbe_Signer = Some sg, pbe_EnvelopeSignature = sig\<rparr> = Some b"
    using assms(3) by (auto simp: MarshalDAEnvelope_def ToDAEnvelopeProto_def split: sum.splits option.splits)
  then show ?thesis
    using envelope_codec [OF _ assms(1) _ m] header_from_to [OF assms(1)] signer_from_to [OF assms(2) sg]
    by (simp add: UnmarshalDAEnvelope_def FromDAEnvelopeProto_def received_def Header_ToProto_def)
qed

lemma p2p_header_wire:
  assumes "legacy_small (h_Legacy (sh_Header (ph_SignedHeader p)))" and "signer_wf C (sh_Signer (ph_SignedHeader p))"
    and "P2PSignedHeader_MarshalBinary C P W p = Inr b"
  shows "P2PSignedHeader_UnmarshalBinary C P W recv b =
    Inr \<lparr>ph_SignedHeader = received C (ph_SignedHeader recv) (ph_SignedHeader p), ph_DAHeightHint = ph_DAHeightHint p\<rparr>"
proof -
  obtain psh where psh: "SignedHeader_ToProto C W (ph_SignedHeader p) = Inr psh"
    and m: "m_P2PSignedHeader P \<lparr>pbph_Header = pbsh_Header psh, pbph_Signature = pbsh_Signature psh,
       pbph_Signer = pbsh_Signer psh, pbph_DaHeightHint = Some (ph_DAHeightHint p)\<rparr> = Some b"
    using assms(3) by (auto simp: P2PSignedHeader_MarshalBinary_def split: sum.splits option.splits)
  have h: "pbsh_Header psh = Some (Header_ToProto W (sh_Header (ph_SignedHeader p)))"
    by (rule signed_header_to [OF psh]) simp
  have "u_P2PSignedHeader P b = Some \<lparr>pbph_Header = pbsh_Header psh, pbph_Signature = pbsh_Signature psh,
       pbph_Signer = pbsh_Signer psh, pbph_DaHeightHint = Some (ph_DAHeightHint p)\<rparr>"
    by (rule p2p_header_codec [OF _ assms(1) _ m, of "Header_ToProto W (sh_Header (ph_SignedHeader p))"])
      (simp_all add: h, simp add: Header_ToProto_def)
  moreover have eta: "\<lparr>pbsh_Header = pbsh_Header psh, pbsh_Signature = pbsh_Signature psh, pbsh_Signer = pbsh_Signer psh\<rparr> = psh"
    by simp
  ultimately show ?thesis
    using signed_header_from_to [OF assms(1,2) psh] by (simp add: P2PSignedHeader_UnmarshalBinary_def eta)
qed

lemma signed_data_wire:
  assumes "signer_wf C (sd_Signer sd)" and "SignedData_MarshalBinary C P sd = Inr b"
  shows "SignedData_UnmarshalBinary C P recv b = Inr (sd\<lparr>sd_Signer := fst (MarshalledPubKey C (sd_Signer sd))\<rparr>)"
proof -
  obtain sg where sg: "Signer_ToProto C (sd_Signer sd) = Some sg"
    and m: "m_SignedData P \<lparr>pbsd_Data = Some (Data_ToProto (sd_Data sd)), pbsd_Signature = sd_Signature sd,
       pbsd_Signer = Some sg\<rparr> = Some b"
    using assms(2) by (auto simp: SignedData_MarshalBinary_def SignedData_ToProto_def split: sum.splits option.splits)
  then show ?thesis
    using signed_data_codec [OF m] signer_from_to [OF assms(1) sg]
    by (simp add: SignedData_UnmarshalBinary_def SignedData_FromProto_def)
qed

lemma p2p_data_wire:
  assumes "P2PData_MarshalBinary P p = Some b"
  shows "P2PData_UnmarshalBinary P recv b = Inr p"
  using p2p_data_codec assms data_from_to [of "pd_Data p"]
  by (simp add: P2PData_MarshalBinary_def P2PData_UnmarshalBinary_def Let_def Data_ToProto_def)

end

section \<open>Nothing that is hashed or signed changes on the wire\<close>

lemma encode_normLegacy: "encodeLegacyUnknownFields W (normLegacy l) = encodeLegacyUnknownFields W l"
proof (cases "Legacy_IsZero l")
  case True
  then show ?thesis by (auto simp: normLegacy_def encodeLegacyUnknownFields_def split: option.splits)
next
  case False
  have clone: "obytes (cloneBytes x) = obytes x" "olen (cloneBytes x) = olen x" for x
    by (auto simp: cloneBytes_def obytes_def olen_def split: option.splits)
  from False obtain a where "l = Some a" by (cases l) (auto simp: Legacy_IsZero_def)
  moreover have "Legacy_IsZero (Legacy_Clone l) = Legacy_IsZero l"
    by (cases l) (simp_all add: Legacy_IsZero_def Legacy_Clone_def clone)
  ultimately show ?thesis
    using False by (simp add: normLegacy_def encodeLegacyUnknownFields_def Legacy_Clone_def clone)
qed

lemma to_proto_normHeader: "Header_ToProto W (normHeader h) = Header_ToProto W h"
  by (simp add: Header_ToProto_def normHeader_def encode_normLegacy)

lemma slim_normHeader [simp]: "Header_MarshalBinary P W (normHeader h) = Header_MarshalBinary P W h"
  by (simp add: Header_MarshalBinary_def to_proto_normHeader)

lemma defaults_normHeader: "ApplyLegacyDefaults (Header_Clone (normHeader h)) = ApplyLegacyDefaults (Header_Clone h)"
proof -
  have clone: "cloneBytes (cloneBytes x) = cloneBytes x" "olen x = 0 \<Longrightarrow> cloneBytes x = None" for x
    by (auto simp: cloneBytes_def olen_def split: option.splits)
  show ?thesis
    by (cases "h_Legacy h")
      (auto simp: Header_Clone_def normHeader_def normLegacy_def Legacy_Clone_def Legacy_IsZero_def clone
        ApplyLegacyDefaults_def InvalidateHash_def emptyLegacy_def)
qed

lemma legacy_normHeader [simp]: "Header_MarshalBinaryLegacy P W (normHeader h) = Header_MarshalBinaryLegacy P W h"
  by (simp add: Header_MarshalBinaryLegacy_def marshalLegacyHeader_def defaults_normHeader)

lemma zero_normLegacy [simp]: "Legacy_IsZero (normLegacy l) = Legacy_IsZero l"
  by (cases l) (auto simp: normLegacy_def Legacy_IsZero_def Legacy_Clone_def cloneBytes_def olen_def split: option.splits)

lemma computeHash_normHeader [simp]: "computeHash C P W (normHeader h) = computeHash C P W h"
proof -
  have "HashSlim C P W (normHeader h) = HashSlim C P W h" "HashLegacy C P W (normHeader h) = HashLegacy C P W h"
    "Legacy_IsZero (h_Legacy (normHeader h)) = Legacy_IsZero (h_Legacy h)"
    by (simp_all add: HashSlim_def HashLegacy_def, simp add: normHeader_def)
  then show ?thesis by (simp only: computeHash_def)
qed

lemma validate_normHeader:
  assumes "sh_Header sh' = normHeader (sh_Header sh)" "sh_Signature sh' = sh_Signature sh"
    "sg_PubKey (sh_Signer sh') = sg_PubKey (sh_Signer sh)" "sg_Address (sh_Signer sh') = sg_Address (sh_Signer sh)"
  shows "validate_signed C P W now sh' custom = validate_signed C P W now sh custom"
proof -
  have h: "h_ProposerAddress (normHeader h) = h_ProposerAddress h" "h_BaseHeader (normHeader h) = h_BaseHeader h" for h
    by (simp_all add: normHeader_def)
  have "Header_ValidateBasic now (normHeader (sh_Header sh)) = Header_ValidateBasic now (sh_Header sh)"
    by (simp add: Header_ValidateBasic_def Header_Time_def h)
  moreover have "validateSignerIdentity C sh' = validateSignerIdentity C sh"
    by (simp only: validateSignerIdentity_def assms)
  moreover have "try_payloads C P W k sig custom (normHeader (sh_Header sh)) =
      try_payloads C P W k sig custom (sh_Header sh)" for k sig
    by (simp only: try_payloads_def slim_normHeader legacy_normHeader)
  ultimately show ?thesis by (simp only: validate_signed_def assms h)
qed

end
