(* ===== verification/Protobuf.thy ===== *)
theory Protobuf
  imports Wire_Laws
begin

text \<open>
  The protobuf wire format at the messages of \<open>proto/evnode/v1\<close>: varints, length-delimited fields, absent
  fields for zero values, unknown fields kept. It is an instance of the parameters \<open>protowire\<close> and \<open>codec\<close> of
  the model, on which their laws are proved; the repository links the Go protobuf runtime instead.
\<close>

section \<open>Varints\<close>

fun leb :: "nat \<Rightarrow> bytes" where
  "leb n = (if n < 128 then [word_of_nat n] else word_of_nat (n mod 128 + 128) # leb (n div 128))"

declare leb.simps [simp del]

text \<open>The value and how many bytes were read after the first.\<close>

fun unleb :: "bytes \<Rightarrow> (nat \<times> nat) option" where
  "unleb [] = None"
| "unleb (b # bs) =
     (if unat b < 128 then Some (unat b, 0)
      else case unleb bs of None \<Rightarrow> None | Some (v, n) \<Rightarrow> Some (unat b - 128 + 128 * v, Suc n))"

lemma leb_neq_Nil [simp]: "leb n \<noteq> []"
  by (subst leb.simps) simp

lemma unat_byte_of_nat: "n < 256 \<Longrightarrow> unat (word_of_nat n :: byte) = n"
  by (simp add: unat_of_nat take_bit_nat_eq_self)

lemma unleb_leb [simp]: "unleb (leb n @ rest) = Some (n, length (leb n) - 1)"
proof (induction n rule: leb.induct)
  case (1 n)
  show ?case
  proof (cases "n < 128")
    case True
    then show ?thesis by (simp add: leb.simps [of n] unat_byte_of_nat)
  next
    case False
    have "unat (word_of_nat (n mod 128 + 128) :: byte) = n mod 128 + 128"
      by (rule unat_byte_of_nat) (simp add: less_trans [OF mod_less_divisor])
    moreover have "length (leb (n div 128)) \<noteq> 0" by simp
    ultimately show ?thesis
      using 1 False by (simp add: leb.simps [of n] del: of_nat_add)
  qed
qed

lemma length_leb: "n < 128 ^ Suc k \<Longrightarrow> length (leb n) \<le> Suc k"
proof (induction k arbitrary: n)
  case 0
  then show ?case by (simp add: leb.simps [of n])
next
  case (Suc k)
  then have "n div 128 < 128 ^ Suc k" by (simp add: less_mult_imp_div_less)
  then have "length (leb (n div 128)) \<le> Suc k" by (rule Suc.IH)
  then show ?case by (simp add: leb.simps [of n])
qed

section \<open>protowire\<close>

definition pb_ConsumeTag :: "bytes \<Rightarrow> (nat \<times> nat \<times> nat) option" where
  "pb_ConsumeTag bs = (case unleb bs of None \<Rightarrow> None
     | Some (v, n) \<Rightarrow> if v div 8 = 0 then None else Some (v div 8, v mod 8, n))"

definition pb_ConsumeBytes :: "bytes \<Rightarrow> (bytes \<times> nat) option" where
  "pb_ConsumeBytes bs = (case unleb bs of None \<Rightarrow> None
     | Some (len, n) \<Rightarrow> let rest = drop (Suc n) bs
         in if len \<le> length rest then Some (take len rest, Suc n + len) else None)"

definition pb_ConsumeFieldValue :: "nat \<Rightarrow> nat \<Rightarrow> bytes \<Rightarrow> nat option" where
  "pb_ConsumeFieldValue num typ bs =
     (if typ = 0 then map_option (\<lambda>(v, n). Suc n) (unleb bs)
      else if typ = 1 then (if 8 \<le> length bs then Some 8 else None)
      else if typ = 2 then map_option snd (pb_ConsumeBytes bs)
      else if typ = 5 then (if 4 \<le> length bs then Some 4 else None)
      else None)"

definition pb_wire :: protowire where
  "pb_wire = \<lparr>pw_AppendTag = (\<lambda>b n t. b @ leb (n * 8 + t)), pw_AppendVarint = (\<lambda>b v. b @ leb (unat v)),
     pw_ConsumeTag = pb_ConsumeTag, pw_ConsumeBytes = pb_ConsumeBytes,
     pw_ConsumeFieldValue = pb_ConsumeFieldValue\<rparr>"

interpretation pb_wire: protowire_laws pb_wire
proof
  fix buf rest v :: bytes and n t :: nat and u :: u64
  show "pw_AppendTag pb_wire buf n t = buf @ pw_AppendTag pb_wire [] n t"
    "pw_AppendVarint pb_wire buf u = buf @ pw_AppendVarint pb_wire [] u"
    "pw_AppendTag pb_wire [] n t \<noteq> []"
    by (simp_all add: pb_wire_def)
  show "pw_ConsumeTag pb_wire (pw_AppendTag pb_wire [] n t @ rest) =
      Some (n, t, length (pw_AppendTag pb_wire [] n t) - 1)" if "0 < n" "n < 2 ^ 29" "t < 8"
    using that by (simp add: pb_wire_def pb_ConsumeTag_def)
  show "length (pw_AppendTag pb_wire [] n t) \<le> 10" if "n < 2 ^ 29" "t < 8"
    using that length_leb [of "n * 8 + t" 9] by (simp add: pb_wire_def)
  show "length (pw_AppendVarint pb_wire [] u) \<le> 10"
    using length_leb [of "unat u" 9] unat_u64_bound [of u] by (simp add: pb_wire_def del: unat_less_2_64)
  show "pw_ConsumeBytes pb_wire (pw_AppendVarint pb_wire [] (word_of_nat (length v)) @ v @ rest) =
      Some (v, length (pw_AppendVarint pb_wire [] (word_of_nat (length v))) + length v)" if "length v < 2 ^ 63"
  proof -
    have "unat (word_of_nat (length v) :: u64) = length v" using that by simp
    moreover have "length (leb (length v)) \<noteq> 0" by simp
    ultimately show ?thesis by (simp add: pb_wire_def pb_ConsumeBytes_def)
  qed
qed

section \<open>Fields\<close>

declare One_nat_def [simp del]

datatype wval = WVarint u64 | WBytes bytes

fun enc_field :: "nat \<times> wval \<Rightarrow> bytes" where
  "enc_field (n, WVarint v) = leb (n * 8) @ leb (unat v)"
| "enc_field (n, WBytes b) = leb (n * 8 + 2) @ leb (length b) @ b"

definition enc_fields :: "(nat \<times> wval) list \<Rightarrow> bytes" where
  "enc_fields fs = concat (map enc_field fs)"

function dec_fields :: "bytes \<Rightarrow> (nat \<times> wval) list option" where
  "dec_fields bs =
     (if bs = [] then Some []
      else case unleb bs of
        None \<Rightarrow> None
      | Some (tag, n) \<Rightarrow>
          if tag mod 8 = 0
          then (case unleb (drop (Suc n) bs) of
                  None \<Rightarrow> None
                | Some (v, k) \<Rightarrow> map_option (Cons (tag div 8, WVarint (word_of_nat v)))
                                  (dec_fields (drop (Suc k) (drop (Suc n) bs))))
          else (case pb_ConsumeBytes (drop (Suc n) bs) of
                  None \<Rightarrow> None
                | Some (b, k) \<Rightarrow> map_option (Cons (tag div 8, WBytes b))
                                  (dec_fields (drop k (drop (Suc n) bs)))))"
  by pat_completeness auto
termination
  by (relation "measure length") (auto simp: length_greater_0_conv [symmetric] simp del: length_greater_0_conv)

declare dec_fields.simps [simp del]

lemma dec_fields_Nil [simp]: "dec_fields [] = Some []"
  by (simp add: dec_fields.simps)

lemma drop_leb [simp]: "drop (length (leb n)) (leb n @ rest) = rest" "Suc (length (leb n) - 1) = length (leb n)"
proof -
  have "length (leb n) \<noteq> 0" by simp
  then show "Suc (length (leb n) - 1) = length (leb n)" by linarith
qed simp

lemma dec_enc_field: "dec_fields (enc_field f @ rest) = map_option (Cons f) (dec_fields rest)"
proof (cases f rule: enc_field.cases)
  case (1 n v)
  have "dec_fields (leb (n * 8) @ leb (unat v) @ rest) = map_option (Cons (n, WVarint v)) (dec_fields rest)"
    by (subst dec_fields.simps) (simp del: One_nat_def)
  with 1 show ?thesis by simp
next
  case (2 n b)
  have "pb_ConsumeBytes (leb (length b) @ b @ rest) = Some (b, length (leb (length b)) + length b)"
    by (simp add: pb_ConsumeBytes_def del: One_nat_def)
  moreover have "(n * 8 + 2) mod 8 = 2" "(n * 8 + 2) div 8 = n" by presburger+
  ultimately have "dec_fields (leb (n * 8 + 2) @ leb (length b) @ b @ rest) = map_option (Cons (n, WBytes b)) (dec_fields rest)"
    by (subst dec_fields.simps) (simp del: One_nat_def add_2_eq_Suc')
  with 2 show ?thesis by simp
qed

lemma dec_enc_fields [simp]: "dec_fields (enc_fields fs) = Some fs"
  by (induction fs) (simp_all add: enc_fields_def dec_enc_field)

definition vfield :: "nat \<Rightarrow> u64 \<Rightarrow> (nat \<times> wval) list" where
  "vfield n v = (if v = 0 then [] else [(n, WVarint v)])"

definition bfield :: "nat \<Rightarrow> bytes \<Rightarrow> (nat \<times> wval) list" where
  "bfield n b = (if b = [] then [] else [(n, WBytes b)])"

definition mfield :: "nat \<Rightarrow> bytes option \<Rightarrow> (nat \<times> wval) list" where
  "mfield n m = (case m of None \<Rightarrow> [] | Some b \<Rightarrow> [(n, WBytes b)])"

definition getv :: "nat \<Rightarrow> (nat \<times> wval) list \<Rightarrow> u64" where
  "getv n fs = (case map_of fs n of Some (WVarint v) \<Rightarrow> v | _ \<Rightarrow> 0)"

definition getm :: "nat \<Rightarrow> (nat \<times> wval) list \<Rightarrow> bytes option" where
  "getm n fs = (case map_of fs n of Some (WBytes b) \<Rightarrow> Some b | _ \<Rightarrow> None)"

definition getb :: "nat \<Rightarrow> (nat \<times> wval) list \<Rightarrow> bytes" where
  "getb n fs = obytes (getm n fs)"

lemma getv_append [simp]:
  "getv k (vfield n v @ fs) = (if k = n \<and> v \<noteq> 0 then v else getv k fs)"
  "k \<noteq> n \<Longrightarrow> getv k (bfield n b @ fs) = getv k fs"
  "k \<noteq> n \<Longrightarrow> getv k (mfield n m @ fs) = getv k fs"
  by (auto simp: getv_def vfield_def bfield_def mfield_def split: option.splits)

lemma getm_append [simp]:
  "getm k (mfield n m @ fs) = (if k = n \<and> m \<noteq> None then m else getm k fs)"
  "getm k (bfield n b @ fs) = (if k = n \<and> b \<noteq> [] then Some b else getm k fs)"
  "k \<noteq> n \<Longrightarrow> getm k (vfield n v @ fs) = getm k fs"
  by (auto simp: getm_def vfield_def bfield_def mfield_def split: option.splits)

lemma get_single [simp]:
  "getv k (vfield n v) = (if k = n then v else 0)" "getv k (bfield n b) = 0" "getv k (mfield n m) = 0"
  "getm k (mfield n m) = (if k = n then m else None)"
  "getm k (bfield n b) = (if k = n \<and> b \<noteq> [] then Some b else None)" "getm k (vfield n v) = None"
  by (auto simp: getv_def getm_def vfield_def bfield_def mfield_def split: option.splits)

lemma get_Nil [simp]: "getv k [] = 0" "getm k [] = None"
  by (simp_all add: getv_def getm_def)

definition bytes_string :: "bytes \<Rightarrow> string" where
  "bytes_string bs = map (\<lambda>b. char_of (unat b)) bs"

lemma bytes_string_inverse [simp]: "bytes_string (string_bytes s) = s"
proof -
  have "unat (of_char c :: byte) = of_char c" for c
  proof -
    have "(of_char c :: byte) = word_of_nat (of_char c)" by (simp add: of_char_def)
    then show ?thesis using unat_byte_of_nat [of "of_char c"] by simp
  qed
  then show ?thesis by (simp add: bytes_string_def string_bytes_def comp_def)
qed

section \<open>Messages\<close>

definition enc_Version :: "Version \<Rightarrow> bytes" where
  "enc_Version v = enc_fields (vfield 1 (ver_Block v) @ vfield 2 (ver_App v) @ [])"

definition dec_Version :: "bytes \<Rightarrow> Version option" where
  "dec_Version bs = map_option (\<lambda>fs. \<lparr>ver_Block = getv 1 fs, ver_App = getv 2 fs\<rparr>) (dec_fields bs)"

lemma dec_enc_Version [simp]: "dec_Version (enc_Version v) = Some v"
  by (simp add: dec_Version_def enc_Version_def)

text \<open>A sub-message that is absent, present, or present and malformed.\<close>

definition sub :: "(bytes \<Rightarrow> 'm option) \<Rightarrow> bytes option \<Rightarrow> 'm option option" where
  "sub dec m = (case m of None \<Rightarrow> Some None | Some b \<Rightarrow> map_option Some (dec b))"

lemma sub_inverse [simp]: "(\<And>x. dec (enc x) = Some x) \<Longrightarrow> sub dec (map_option enc m) = Some m"
  by (cases m) (simp_all add: sub_def)

definition header_fields :: "pbHeader \<Rightarrow> (nat \<times> wval) list" where
  "header_fields p = mfield 1 (map_option enc_Version (pbh_Version p)) @ vfield 2 (pbh_Height p) @
     vfield 3 (pbh_Time p) @ bfield 4 (pbh_LastHeaderHash p) @ bfield 6 (pbh_DataHash p) @
     bfield 8 (pbh_AppHash p) @ bfield 10 (pbh_ProposerAddress p) @ bfield 11 (pbh_ValidatorHash p) @
     bfield 12 (string_bytes (pbh_ChainId p)) @ []"

definition known_fields :: "nat list" where
  "known_fields = [1, 2, 3, 4, 6, 8, 10, 11, 12]"

definition enc_Header :: "pbHeader \<Rightarrow> bytes" where
  "enc_Header p = enc_fields (header_fields p) @ pbh_unknown p"

definition dec_Header :: "bytes \<Rightarrow> pbHeader option" where
  "dec_Header bs = (case dec_fields bs of None \<Rightarrow> None | Some fs \<Rightarrow>
     (case sub dec_Version (getm 1 fs) of None \<Rightarrow> None | Some v \<Rightarrow>
       Some \<lparr>pbh_Version = v, pbh_Height = getv 2 fs, pbh_Time = getv 3 fs, pbh_LastHeaderHash = getb 4 fs,
         pbh_DataHash = getb 6 fs, pbh_AppHash = getb 8 fs, pbh_ProposerAddress = getb 10 fs,
         pbh_ValidatorHash = getb 11 fs, pbh_ChainId = bytes_string (getb 12 fs),
         pbh_unknown = enc_fields (filter (\<lambda>(n, _). n \<notin> set known_fields) fs)\<rparr>))"

definition legacy_fields :: "LegacyHeaderFields option \<Rightarrow> (nat \<times> wval) list" where
  "legacy_fields l = (case l of None \<Rightarrow> [] | Some l \<Rightarrow>
     bfield 5 (obytes (lg_LastCommitHash l)) @ bfield 7 (obytes (lg_ConsensusHash l)) @
     bfield 9 (obytes (lg_LastResultsHash l)) @ [])"

lemma enc_fields_append [simp]: "enc_fields (xs @ ys) = enc_fields xs @ enc_fields ys" "enc_fields [] = []"
  by (simp_all add: enc_fields_def)

lemma wire_field_pb: "length v \<le> maxLegacyHashSize \<Longrightarrow> wire_field pb_wire n v = enc_fields (bfield n v)"
  by (simp add: wire_field_def pb_wire_def bfield_def enc_fields_def legacy_consts)

lemma encodeLegacy_pb:
  assumes "legacy_small l"
  shows "encodeLegacyUnknownFields pb_wire l = enc_fields (legacy_fields l)"
proof (cases "Legacy_IsZero l")
  case True
  then show ?thesis
    by (auto simp: encodeLegacyUnknownFields_def legacy_fields_def Legacy_IsZero_def bfield_def obytes_def
        olen_def split: option.splits)
next
  case False
  then obtain x where x: "l = Some x" by (cases l) (auto simp: Legacy_IsZero_def)
  have "length (obytes y) = olen y" for y by (simp add: obytes_def olen_def split: option.splits)
  with assms False show ?thesis
    unfolding x pb_wire.encodeLegacy_eq [OF False [unfolded x]]
    by (simp add: legacy_fields_def legacy_small_def wire_field_pb) (simp add: legacy_consts)
qed

lemma filter_bfield [simp]: "filter (\<lambda>(n, _). P n) (bfield n b) = (if P n then bfield n b else [])"
  "filter (\<lambda>(n, _). P n) (vfield n v) = (if P n then vfield n v else [])"
  "filter (\<lambda>(n, _). P n) (mfield n m) = (if P n then mfield n m else [])"
  by (auto simp: bfield_def vfield_def mfield_def split: option.splits)

lemma get_legacy [simp]:
  "k \<noteq> 5 \<Longrightarrow> k \<noteq> 7 \<Longrightarrow> k \<noteq> 9 \<Longrightarrow> getv k (legacy_fields l) = 0"
  "k \<noteq> 5 \<Longrightarrow> k \<noteq> 7 \<Longrightarrow> k \<noteq> 9 \<Longrightarrow> getm k (legacy_fields l) = None"
  by (simp_all add: legacy_fields_def split: option.splits)

lemma filter_legacy: "filter (\<lambda>(n, _). n \<notin> set known_fields) (legacy_fields l) = legacy_fields l"
  by (simp add: legacy_fields_def known_fields_def split: option.splits)

lemma filter_header: "filter (\<lambda>(n, _). n \<notin> set known_fields) (header_fields p) = []"
  by (simp add: header_fields_def known_fields_def)

lemma dec_enc_Header:
  assumes "legacy_small l" "pbh_unknown p = encodeLegacyUnknownFields pb_wire l"
  shows "dec_Header (enc_Header p) = Some p"
proof -
  have e: "enc_Header p = enc_fields (header_fields p @ legacy_fields l)"
    using assms by (simp add: enc_Header_def encodeLegacy_pb)
  have s: "sub dec_Version (map_option enc_Version (pbh_Version p)) = Some (pbh_Version p)"
    by (rule sub_inverse) simp
  have g: "getm 1 (header_fields p @ legacy_fields l) = map_option enc_Version (pbh_Version p)"
    "getv 2 (header_fields p @ legacy_fields l) = pbh_Height p"
    "getv 3 (header_fields p @ legacy_fields l) = pbh_Time p"
    "getb 4 (header_fields p @ legacy_fields l) = pbh_LastHeaderHash p"
    "getb 6 (header_fields p @ legacy_fields l) = pbh_DataHash p"
    "getb 8 (header_fields p @ legacy_fields l) = pbh_AppHash p"
    "getb 10 (header_fields p @ legacy_fields l) = pbh_ProposerAddress p"
    "getb 11 (header_fields p @ legacy_fields l) = pbh_ValidatorHash p"
    "getb 12 (header_fields p @ legacy_fields l) = string_bytes (pbh_ChainId p)"
    by (simp_all add: header_fields_def getb_def obytes_def)
  show ?thesis
    unfolding e using assms s
    by (simp add: dec_Header_def g filter_legacy filter_header encodeLegacy_pb
        del: enc_fields_append)
qed

definition enc_Signer :: "pbSigner \<Rightarrow> bytes" where
  "enc_Signer p = enc_fields (bfield 1 (pbsg_Address p) @ bfield 2 (pbsg_PubKey p))"

definition dec_Signer :: "bytes \<Rightarrow> pbSigner option" where
  "dec_Signer bs = map_option (\<lambda>fs. \<lparr>pbsg_Address = getb 1 fs, pbsg_PubKey = getb 2 fs\<rparr>) (dec_fields bs)"

lemma dec_enc_Signer [simp]: "dec_Signer (enc_Signer p) = Some p"
  by (simp add: dec_Signer_def enc_Signer_def getb_def obytes_def del: enc_fields_append)

text \<open>The header, signature and signer that \<open>SignedHeader\<close>, its DA envelope and its P2P form share.\<close>

definition signed_fields :: "pbHeader option \<Rightarrow> bytes \<Rightarrow> pbSigner option \<Rightarrow> (nat \<times> wval) list" where
  "signed_fields h sig sg = mfield 1 (map_option enc_Header h) @ bfield 2 sig @ mfield 3 (map_option enc_Signer sg)"

definition wire_header :: "pbHeader \<Rightarrow> bool" where
  "wire_header p \<longleftrightarrow> (\<exists>l. legacy_small l \<and> pbh_unknown p = encodeLegacyUnknownFields pb_wire l)"

lemma get_signed [simp]:
  "getm 1 (signed_fields h sig sg) = map_option enc_Header h"
  "getb 2 (signed_fields h sig sg) = sig"
  "getm 3 (signed_fields h sig sg) = map_option enc_Signer sg"
  by (simp_all add: signed_fields_def getb_def obytes_def)

lemma get_signed_append [simp]:
  "getm 1 (signed_fields h sig sg @ bfield 4 b) = map_option enc_Header h"
  "getb 2 (signed_fields h sig sg @ bfield 4 b) = sig"
  "getm 3 (signed_fields h sig sg @ bfield 4 b) = map_option enc_Signer sg"
  "getb 4 (signed_fields h sig sg @ bfield 4 b) = b"
  by (simp_all add: signed_fields_def getb_def obytes_def)

lemma sub_header [simp]: "(\<And>x. h = Some x \<Longrightarrow> wire_header x) \<Longrightarrow> sub dec_Header (map_option enc_Header h) = Some h"
  by (cases h) (auto simp: sub_def wire_header_def dest: dec_enc_Header)

lemma sub_signer [simp]: "sub dec_Signer (map_option enc_Signer sg) = Some sg"
  by (rule sub_inverse) simp

definition dec_signed :: "(nat \<times> wval) list \<Rightarrow> (pbHeader option \<times> bytes \<times> pbSigner option) option" where
  "dec_signed fs = (case sub dec_Header (getm 1 fs) of None \<Rightarrow> None | Some h \<Rightarrow>
     (case sub dec_Signer (getm 3 fs) of None \<Rightarrow> None | Some sg \<Rightarrow> Some (h, getb 2 fs, sg)))"

definition enc_SignedHeader :: "pbSignedHeader \<Rightarrow> bytes" where
  "enc_SignedHeader p = enc_fields (signed_fields (pbsh_Header p) (pbsh_Signature p) (pbsh_Signer p))"

definition dec_SignedHeader :: "bytes \<Rightarrow> pbSignedHeader option" where
  "dec_SignedHeader bs = (case dec_fields bs of None \<Rightarrow> None | Some fs \<Rightarrow>
     map_option (\<lambda>(h, sig, sg). \<lparr>pbsh_Header = h, pbsh_Signature = sig, pbsh_Signer = sg\<rparr>) (dec_signed fs))"

definition enc_Envelope :: "pbDAHeaderEnvelope \<Rightarrow> bytes" where
  "enc_Envelope p = enc_fields (signed_fields (pbe_Header p) (pbe_Signature p) (pbe_Signer p) @
     bfield 4 (pbe_EnvelopeSignature p))"

definition dec_Envelope :: "bytes \<Rightarrow> pbDAHeaderEnvelope option" where
  "dec_Envelope bs = (case dec_fields bs of None \<Rightarrow> None | Some fs \<Rightarrow>
     map_option (\<lambda>(h, sig, sg). \<lparr>pbe_Header = h, pbe_Signature = sig, pbe_Signer = sg,
       pbe_EnvelopeSignature = getb 4 fs\<rparr>) (dec_signed fs))"

text \<open>An optional scalar is present even when it is zero.\<close>

definition ofield :: "nat \<Rightarrow> u64 option \<Rightarrow> (nat \<times> wval) list" where
  "ofield n v = (case v of None \<Rightarrow> [] | Some v \<Rightarrow> [(n, WVarint v)])"

definition geto :: "nat \<Rightarrow> (nat \<times> wval) list \<Rightarrow> u64 option" where
  "geto n fs = (case map_of fs n of Some (WVarint v) \<Rightarrow> Some v | _ \<Rightarrow> None)"

definition enc_P2PSignedHeader :: "pbP2PSignedHeader \<Rightarrow> bytes" where
  "enc_P2PSignedHeader p = enc_fields (ofield 4 (pbph_DaHeightHint p) @
     signed_fields (pbph_Header p) (pbph_Signature p) (pbph_Signer p))"

definition dec_P2PSignedHeader :: "bytes \<Rightarrow> pbP2PSignedHeader option" where
  "dec_P2PSignedHeader bs = (case dec_fields bs of None \<Rightarrow> None | Some fs \<Rightarrow>
     map_option (\<lambda>(h, sig, sg). \<lparr>pbph_Header = h, pbph_Signature = sig, pbph_Signer = sg,
       pbph_DaHeightHint = geto 4 fs\<rparr>) (dec_signed fs))"

lemma get_ofield [simp]:
  "k \<noteq> n \<Longrightarrow> getm k (ofield n v @ fs) = getm k fs" "k \<noteq> n \<Longrightarrow> getb k (ofield n v @ fs) = getb k fs"
  "k \<noteq> n \<Longrightarrow> getv k (ofield n v @ fs) = getv k fs"
  by (auto simp: getm_def getb_def getv_def ofield_def split: option.splits)

lemma geto_ofield [simp]: "geto n fs = None \<Longrightarrow> geto n (ofield n v @ fs) = v"
  by (auto simp: geto_def ofield_def split: option.splits)

lemma geto_signed [simp]: "geto 4 (signed_fields h sig sg) = None"
  by (simp add: geto_def signed_fields_def mfield_def bfield_def split: option.splits)

lemma dec_enc_signed:
  assumes "\<And>x. h = Some x \<Longrightarrow> wire_header x"
  shows "dec_signed (signed_fields h sig sg) = Some (h, sig, sg)"
    "dec_signed (signed_fields h sig sg @ bfield 4 b) = Some (h, sig, sg)"
    "dec_signed (ofield 4 v @ signed_fields h sig sg) = Some (h, sig, sg)"
  using assms by (simp_all add: dec_signed_def)

lemma dec_enc_SignedHeader:
  "(\<And>x. pbsh_Header p = Some x \<Longrightarrow> wire_header x) \<Longrightarrow> dec_SignedHeader (enc_SignedHeader p) = Some p"
  "(\<And>x. pbe_Header e = Some x \<Longrightarrow> wire_header x) \<Longrightarrow> dec_Envelope (enc_Envelope e) = Some e"
  "(\<And>x. pbph_Header q = Some x \<Longrightarrow> wire_header x) \<Longrightarrow> dec_P2PSignedHeader (enc_P2PSignedHeader q) = Some q"
  by (simp_all add: dec_SignedHeader_def enc_SignedHeader_def dec_Envelope_def enc_Envelope_def
      dec_P2PSignedHeader_def enc_P2PSignedHeader_def dec_enc_signed del: enc_fields_append)

definition enc_Metadata :: "pbMetadata \<Rightarrow> bytes" where
  "enc_Metadata p = enc_fields (bfield 1 (string_bytes (pbm_ChainId p)) @ vfield 2 (pbm_Height p) @
     vfield 3 (pbm_Time p) @ bfield 4 (pbm_LastDataHash p))"

definition dec_Metadata :: "bytes \<Rightarrow> pbMetadata option" where
  "dec_Metadata bs = map_option (\<lambda>fs. \<lparr>pbm_ChainId = bytes_string (getb 1 fs), pbm_Height = getv 2 fs,
     pbm_Time = getv 3 fs, pbm_LastDataHash = getb 4 fs\<rparr>) (dec_fields bs)"

lemma dec_enc_Metadata [simp]: "dec_Metadata (enc_Metadata p) = Some p"
proof -
  let ?fs = "bfield 1 (string_bytes (pbm_ChainId p)) @ vfield 2 (pbm_Height p) @
     vfield 3 (pbm_Time p) @ bfield 4 (pbm_LastDataHash p)"
  have "getb 1 ?fs = string_bytes (pbm_ChainId p)" "getv 2 ?fs = pbm_Height p" "getv 3 ?fs = pbm_Time p"
    "getb 4 ?fs = pbm_LastDataHash p"
    by (simp_all add: getb_def obytes_def)
  then show ?thesis by (simp add: dec_Metadata_def enc_Metadata_def del: enc_fields_append getv_append getm_append)
qed

definition rfield :: "nat \<Rightarrow> bytes list \<Rightarrow> (nat \<times> wval) list" where
  "rfield n bs = map (\<lambda>b. (n, WBytes b)) bs"

fun getr :: "nat \<Rightarrow> (nat \<times> wval) list \<Rightarrow> bytes list" where
  "getr n [] = []"
| "getr n ((m, WBytes b) # fs) = (if m = n then b # getr n fs else getr n fs)"
| "getr n ((m, WVarint v) # fs) = getr n fs"

lemma getr_simps [simp]:
  "getr n (xs @ ys) = getr n xs @ getr n ys" "getr n (rfield n bs) = bs" "m \<noteq> n \<Longrightarrow> getr n (mfield m b) = []"
  "getr n (ofield m v) = []"
proof -
  show "getr n (xs @ ys) = getr n xs @ getr n ys" by (induction n xs rule: getr.induct) auto
  show "getr n (rfield n bs) = bs" by (induction bs) (simp_all add: rfield_def)
qed (simp_all add: mfield_def ofield_def split: option.splits)

definition data_fields :: "pbMetadata option \<Rightarrow> bytes list \<Rightarrow> (nat \<times> wval) list" where
  "data_fields m txs = mfield 1 (map_option enc_Metadata m) @ rfield 2 txs"

lemma get_data [simp]:
  "getm 1 (data_fields m txs) = map_option enc_Metadata m" "getr 2 (data_fields m txs) = txs"
  "geto 3 (data_fields m txs) = None"
proof -
  have "map_of (rfield 2 txs) 1 = None" "map_of (rfield 2 txs) 3 = None"
    by (auto simp: rfield_def map_of_eq_None_iff)
  then show "getm 1 (data_fields m txs) = map_option enc_Metadata m" "geto 3 (data_fields m txs) = None"
    by (simp_all add: data_fields_def geto_def getm_def mfield_def split: option.splits)
qed (simp add: data_fields_def)

lemma sub_metadata [simp]: "sub dec_Metadata (map_option enc_Metadata m) = Some m"
  by (rule sub_inverse) simp

definition enc_Data :: "pbData \<Rightarrow> bytes" where
  "enc_Data p = enc_fields (data_fields (pbd_Metadata p) (pbd_Txs p))"

definition dec_Data :: "bytes \<Rightarrow> pbData option" where
  "dec_Data bs = (case dec_fields bs of None \<Rightarrow> None | Some fs \<Rightarrow>
     map_option (\<lambda>m. \<lparr>pbd_Metadata = m, pbd_Txs = getr 2 fs\<rparr>) (sub dec_Metadata (getm 1 fs)))"

lemma dec_enc_Data [simp]: "dec_Data (enc_Data p) = Some p"
  by (simp add: dec_Data_def enc_Data_def)

definition enc_P2PData :: "pbP2PData \<Rightarrow> bytes" where
  "enc_P2PData p = enc_fields (ofield 3 (pbpd_DaHeightHint p) @ data_fields (pbpd_Metadata p) (pbpd_Txs p))"

definition dec_P2PData :: "bytes \<Rightarrow> pbP2PData option" where
  "dec_P2PData bs = (case dec_fields bs of None \<Rightarrow> None | Some fs \<Rightarrow>
     map_option (\<lambda>m. \<lparr>pbpd_Metadata = m, pbpd_Txs = getr 2 fs, pbpd_DaHeightHint = geto 3 fs\<rparr>)
       (sub dec_Metadata (getm 1 fs)))"

lemma dec_enc_P2PData [simp]: "dec_P2PData (enc_P2PData p) = Some p"
  by (simp add: dec_P2PData_def enc_P2PData_def del: enc_fields_append)

definition enc_SignedData :: "pbSignedData \<Rightarrow> bytes" where
  "enc_SignedData p = enc_fields (mfield 1 (map_option enc_Data (pbsd_Data p)) @ bfield 2 (pbsd_Signature p) @
     mfield 3 (map_option enc_Signer (pbsd_Signer p)))"

definition dec_SignedData :: "bytes \<Rightarrow> pbSignedData option" where
  "dec_SignedData bs = (case dec_fields bs of None \<Rightarrow> None | Some fs \<Rightarrow>
     (case sub dec_Data (getm 1 fs) of None \<Rightarrow> None | Some d \<Rightarrow>
       map_option (\<lambda>sg. \<lparr>pbsd_Data = d, pbsd_Signature = getb 2 fs, pbsd_Signer = sg\<rparr>)
         (sub dec_Signer (getm 3 fs))))"

lemma dec_enc_SignedData [simp]: "dec_SignedData (enc_SignedData p) = Some p"
proof -
  let ?fs = "mfield 1 (map_option enc_Data (pbsd_Data p)) @ bfield 2 (pbsd_Signature p) @
     mfield 3 (map_option enc_Signer (pbsd_Signer p))"
  have "sub dec_Data (map_option enc_Data (pbsd_Data p)) = Some (pbsd_Data p)" by (rule sub_inverse) simp
  moreover have "getm 1 ?fs = map_option enc_Data (pbsd_Data p)" "getb 2 ?fs = pbsd_Signature p"
    "getm 3 ?fs = map_option enc_Signer (pbsd_Signer p)"
    by (simp_all add: getb_def obytes_def)
  ultimately show ?thesis
    by (simp add: dec_SignedData_def enc_SignedData_def del: enc_fields_append getm_append)
qed

definition enc_Timestamp :: "pbTimestamp \<Rightarrow> bytes" where
  "enc_Timestamp t = enc_fields (vfield 1 (word_of_int (pbt_Seconds t)) @ vfield 2 (word_of_int (pbt_Nanos t)))"

definition dec_Timestamp :: "bytes \<Rightarrow> pbTimestamp option" where
  "dec_Timestamp bs = map_option (\<lambda>fs. \<lparr>pbt_Seconds = sint (getv 1 fs), pbt_Nanos = sint (getv 2 fs)\<rparr>) (dec_fields bs)"

definition int64 :: "int \<Rightarrow> bool" where
  "int64 x \<longleftrightarrow> - (2 ^ 63) \<le> x \<and> x < 2 ^ 63"

lemma sint_word_of_int64: "int64 x \<Longrightarrow> sint (word_of_int x :: u64) = x"
  using signed_take_bit_int_eq_self [of 63 x] by (simp add: int64_def sint_sbintrunc')

lemma dec_enc_Timestamp:
  "int64 (pbt_Seconds t) \<Longrightarrow> int64 (pbt_Nanos t) \<Longrightarrow> dec_Timestamp (enc_Timestamp t) = Some t"
proof -
  assume r: "int64 (pbt_Seconds t)" "int64 (pbt_Nanos t)"
  let ?fs = "vfield 1 (word_of_int (pbt_Seconds t)) @ vfield 2 (word_of_int (pbt_Nanos t))"
  have "getv 1 ?fs = word_of_int (pbt_Seconds t)" "getv 2 ?fs = word_of_int (pbt_Nanos t)" by simp_all
  then show ?thesis
    using r by (simp add: dec_Timestamp_def enc_Timestamp_def sint_word_of_int64 del: enc_fields_append getv_append)
qed

definition state_fields :: "pbState \<Rightarrow> (nat \<times> wval) list" where
  "state_fields p = mfield 1 (map_option enc_Version (pbs_Version p)) @ bfield 2 (string_bytes (pbs_ChainId p)) @
     vfield 3 (pbs_InitialHeight p) @ vfield 4 (pbs_LastBlockHeight p) @
     mfield 5 (map_option enc_Timestamp (pbs_LastBlockTime p)) @ vfield 6 (pbs_DaHeight p) @
     bfield 8 (pbs_AppHash p) @ bfield 9 (pbs_LastHeaderHash p) @ bfield 10 (pbs_NextProposerAddress p)"

definition enc_State :: "pbState \<Rightarrow> bytes option" where
  "enc_State p = (if (case pbs_LastBlockTime p of None \<Rightarrow> True
       | Some t \<Rightarrow> int64 (pbt_Seconds t) \<and> int64 (pbt_Nanos t))
     then Some (enc_fields (state_fields p)) else None)"

definition dec_State :: "bytes \<Rightarrow> pbState option" where
  "dec_State bs = (case dec_fields bs of None \<Rightarrow> None | Some fs \<Rightarrow>
     (case sub dec_Version (getm 1 fs) of None \<Rightarrow> None | Some v \<Rightarrow>
     (case sub dec_Timestamp (getm 5 fs) of None \<Rightarrow> None | Some t \<Rightarrow>
       Some \<lparr>pbs_Version = v, pbs_ChainId = bytes_string (getb 2 fs), pbs_InitialHeight = getv 3 fs,
         pbs_LastBlockHeight = getv 4 fs, pbs_LastBlockTime = t, pbs_DaHeight = getv 6 fs,
         pbs_AppHash = getb 8 fs, pbs_LastHeaderHash = getb 9 fs, pbs_NextProposerAddress = getb 10 fs\<rparr>)))"

lemma dec_enc_State: "enc_State p = Some b \<Longrightarrow> dec_State b = Some p"
proof -
  assume e: "enc_State p = Some b"
  have "sub dec_Version (map_option enc_Version (pbs_Version p)) = Some (pbs_Version p)"
    by (rule sub_inverse) simp
  moreover have "sub dec_Timestamp (map_option enc_Timestamp (pbs_LastBlockTime p)) = Some (pbs_LastBlockTime p)"
    using e dec_enc_Timestamp by (auto simp: enc_State_def sub_def split: option.splits if_splits)
  moreover have "getm 1 (state_fields p) = map_option enc_Version (pbs_Version p)"
    "getb 2 (state_fields p) = string_bytes (pbs_ChainId p)" "getv 3 (state_fields p) = pbs_InitialHeight p"
    "getv 4 (state_fields p) = pbs_LastBlockHeight p"
    "getm 5 (state_fields p) = map_option enc_Timestamp (pbs_LastBlockTime p)"
    "getv 6 (state_fields p) = pbs_DaHeight p" "getb 8 (state_fields p) = pbs_AppHash p"
    "getb 9 (state_fields p) = pbs_LastHeaderHash p" "getb 10 (state_fields p) = pbs_NextProposerAddress p"
    by (simp_all add: state_fields_def getb_def obytes_def)
  moreover have "b = enc_fields (state_fields p)" using e by (simp add: enc_State_def split: if_splits)
  ultimately show ?thesis by (simp add: dec_State_def)
qed

definition pb_codec :: codec where
  "pb_codec = \<lparr>m_Version = (\<lambda>v. Some (enc_Version v)), m_Header = (\<lambda>p. Some (enc_Header p)), u_Header = dec_Header,
     m_SignedHeader = (\<lambda>p. Some (enc_SignedHeader p)), u_SignedHeader = dec_SignedHeader,
     m_Envelope = (\<lambda>p. Some (enc_Envelope p)), u_Envelope = dec_Envelope,
     m_Metadata = (\<lambda>p. Some (enc_Metadata p)), u_Metadata = dec_Metadata,
     m_Data = (\<lambda>p. Some (enc_Data p)), u_Data = dec_Data,
     m_SignedData = (\<lambda>p. Some (enc_SignedData p)), u_SignedData = dec_SignedData,
     m_State = enc_State, u_State = dec_State,
     m_P2PSignedHeader = (\<lambda>p. Some (enc_P2PSignedHeader p)), u_P2PSignedHeader = dec_P2PSignedHeader,
     m_P2PData = (\<lambda>p. Some (enc_P2PData p)), u_P2PData = dec_P2PData\<rparr>"

text \<open>A signature scheme for the concrete instance: a key is its own bytes, a signature is the key
  followed by the payload, and the digest only prefixes its input.\<close>

definition plain_crypto :: "bytes crypto" where
  "plain_crypto = \<lparr>c_sha256 = (\<lambda>x. 7 # x), c_Raw = (\<lambda>k. Some k), c_Verify = (\<lambda>k payload sig. Some (sig = k @ payload)),
     c_MarshalPublicKey = (\<lambda>k. Some (8 # k)),
     c_UnmarshalPublicKey = (\<lambda>b. case b of [] \<Rightarrow> None | x # k \<Rightarrow> if x = 8 then Some k else None)\<rparr>"

interpretation pb: wire_laws pb_wire pb_codec plain_crypto
proof
  fix p :: pbHeader and l b
  assume "legacy_small l" "pbh_unknown p = encodeLegacyUnknownFields pb_wire l" "m_Header pb_codec p = Some b"
  then show "u_Header pb_codec b = Some p" by (auto simp: pb_codec_def dec_enc_Header)
next
  fix p :: pbSignedHeader and h l b
  assume "pbsh_Header p = Some h" "legacy_small l" "pbh_unknown h = encodeLegacyUnknownFields pb_wire l"
    "m_SignedHeader pb_codec p = Some b"
  then show "u_SignedHeader pb_codec b = Some p"
    using dec_enc_SignedHeader(1) [of p] by (auto simp: pb_codec_def wire_header_def)
next
  fix p :: pbDAHeaderEnvelope and h l b
  assume "pbe_Header p = Some h" "legacy_small l" "pbh_unknown h = encodeLegacyUnknownFields pb_wire l"
    "m_Envelope pb_codec p = Some b"
  then show "u_Envelope pb_codec b = Some p"
    using dec_enc_SignedHeader(2) [of p] by (auto simp: pb_codec_def wire_header_def)
next
  fix p :: pbP2PSignedHeader and h l b
  assume "pbph_Header p = Some h" "legacy_small l" "pbh_unknown h = encodeLegacyUnknownFields pb_wire l"
    "m_P2PSignedHeader pb_codec p = Some b"
  then show "u_P2PSignedHeader pb_codec b = Some p"
    using dec_enc_SignedHeader(3) [of p] by (auto simp: pb_codec_def wire_header_def)
qed (auto simp: pb_codec_def plain_crypto_def dec_enc_State)

end
