(* ===== verification/Chain.thy ===== *)
theory Chain
  imports Protobuf
begin

text \<open>
  What validation guarantees about the chain: a signed header that \<open>ValidateBasic\<close> accepts is signed by its
  proposer, a header fixes the transactions of its block, and the blocks \<open>AssertValidForNextState\<close> accepts one
  after the other (\<open>types/state.go\<close>) form a chain.
\<close>

section \<open>Signatures\<close>

definition signed_by :: "'k crypto \<Rightarrow> codec \<Rightarrow> protowire \<Rightarrow> 'k \<Rightarrow> 'k SignedHeader \<Rightarrow> bytes option option \<Rightarrow> bool" where
  "signed_by C P W k sh custom \<longleftrightarrow>
     (\<exists>payload. payload \<noteq> [] \<and> c_Verify C k payload (sh_Signature sh) = Some True \<and>
        (custom = Some (Some payload) \<or> Header_MarshalBinary P W (sh_Header sh) = Some payload \<or>
         Header_MarshalBinaryLegacy P W (sh_Header sh) = Some payload))"

lemma tryPayload_True:
  "tryPayload C k sig tried payload = (t, Inr True) \<Longrightarrow> payload \<noteq> [] \<and> c_Verify C k payload sig = Some True"
  by (auto simp: tryPayload_def split: if_splits option.splits)

lemma try_payloads_sound:
  "try_payloads C P W k (sh_Signature sh) custom (sh_Header sh) = None \<Longrightarrow> signed_by C P W k sh custom"
  by (auto simp: try_payloads_def signed_by_def Let_def dest!: tryPayload_True
      split: option.splits prod.splits sum.splits bool.splits)

lemma tryPayload_first:
  "c_Verify C k payload sig = Some v \<Longrightarrow> payload \<noteq> [] \<Longrightarrow> tryPayload C k sig [] payload = ([payload], Inr v)"
  by (simp add: tryPayload_def)

lemma Header_ValidateBasic_None: "Header_ValidateBasic now h = None \<longleftrightarrow>
    h_ProposerAddress h \<noteq> [] \<and> bh_Time (h_BaseHeader h) \<noteq> 0 \<and> Header_Time h \<le> now + MaxClockDrift"
  by (auto simp: Header_ValidateBasic_def)

lemma validate_signed_sound:
  assumes "validate_signed C P W now sh custom = None"
  shows "\<exists>k. sg_PubKey (sh_Signer sh) = Some k \<and> h_ProposerAddress (sh_Header sh) = KeyAddress C k \<and>
    h_ProposerAddress (sh_Header sh) \<noteq> [] \<and> Header_Time (sh_Header sh) \<le> now + MaxClockDrift \<and>
    signed_by C P W k sh custom"
  using assms try_payloads_sound [of C P W _ sh custom]
  by (auto simp: validate_signed_def validateSignerIdentity_def Header_ValidateBasic_None split: option.splits if_splits)

lemma validate_signed_complete:
  assumes "Header_ValidateBasic now (sh_Header sh) = None" and "sh_Signature sh \<noteq> []"
    and "sg_PubKey (sh_Signer sh) = Some k" and "sg_Address (sh_Signer sh) = KeyAddress C k"
    and "h_ProposerAddress (sh_Header sh) = KeyAddress C k"
    and "Header_MarshalBinary P W (sh_Header sh) = Some slim" and "slim \<noteq> []"
    and "c_Verify C k slim (sh_Signature sh) = Some True"
  shows "validate_signed C P W now sh None = None"
  using assms
  by (simp add: validate_signed_def Signature_ValidateBasic_def validateSignerIdentity_def try_payloads_def
      tryPayload_first)

section \<open>Chains\<close>

text \<open>Blocks applied one after the other: each is checked against the state and moves it, with the state root
  and next proposer its execution returned.\<close>

type_synonym 'k block = "'k SignedHeader \<times> Data \<times> bytes \<times> bytes"

fun accept_chain ::
  "'k crypto \<Rightarrow> codec \<Rightarrow> protowire \<Rightarrow> link_tracking \<Rightarrow> State \<Rightarrow> 'k block list \<Rightarrow> (link_tracking \<times> State) option" where
  "accept_chain C P W lt s [] = Some (lt, s)"
| "accept_chain C P W lt s ((sh, data, stateRoot, nextProposer) # blocks) =
     (case AssertValidForNextState C P lt s sh data of
        (lt', None) \<Rightarrow> accept_chain C P W lt' (NextState C P W s (sh_Header sh) stateRoot nextProposer) blocks
      | (lt', Some e) \<Rightarrow> None)"

definition header_of :: "'k block \<Rightarrow> Header" where
  "header_of b = sh_Header (fst b)"

definition root_of :: "'k block \<Rightarrow> bytes" where
  "root_of b = fst (snd (snd b))"

fun broken_links :: "'k crypto \<Rightarrow> codec \<Rightarrow> protowire \<Rightarrow> bytes \<Rightarrow> Header list \<Rightarrow> nat" where
  "broken_links C P W prev [] = 0"
| "broken_links C P W prev (h # hs) =
     (if h_LastHeaderHash h \<noteq> prev then 1 else 0) + broken_links C P W (Header_Hash C P W h) hs"

definition lt_ok :: "link_tracking \<Rightarrow> bool" where
  "lt_ok lt \<longleftrightarrow> lt_errCount lt = (if lt_once lt then 1 else 0)"

definition header_chain :: "'k crypto \<Rightarrow> codec \<Rightarrow> protowire \<Rightarrow> State \<Rightarrow> 'k block list \<Rightarrow> bool" where
  "header_chain C P W s blocks \<longleftrightarrow>
     (\<forall>i < length blocks.
        Header_ChainID (header_of (blocks ! i)) = st_ChainID s \<and>
        Header_Height (header_of (blocks ! i)) = st_LastBlockHeight s + 1 + word_of_nat i \<and>
        h_AppHash (header_of (blocks ! i)) = (st_AppHash s # map root_of blocks) ! i \<and>
        DACommitment C P (fst (snd (blocks ! i))) = h_DataHash (header_of (blocks ! i))) \<and>
     sorted (st_LastBlockTime s # map (Header_Time \<circ> header_of) blocks)"

lemma Validate_commitment: "Validate C P sh data = None \<Longrightarrow> DACommitment C P data = h_DataHash (sh_Header sh)"
  by (auto simp: Validate_def DACommitment_def split: if_splits)

lemma valid_next:
  assumes "AssertValidForNextState C P lt s sh data = (lt', None)" and "st_LastHeaderHash s \<noteq> []"
  shows "Header_ChainID (sh_Header sh) = st_ChainID s" "Header_Height (sh_Header sh) = st_LastBlockHeight s + 1"
    "st_LastBlockTime s \<le> Header_Time (sh_Header sh)" "h_AppHash (sh_Header sh) = st_AppHash s"
    "DACommitment C P data = h_DataHash (sh_Header sh)"
    "st_NextProposerAddress s \<noteq> [] \<Longrightarrow> h_ProposerAddress (sh_Header sh) = st_NextProposerAddress s"
    and "lt_ok lt \<Longrightarrow> lt_ok lt' \<and>
      lt_errCount lt' = lt_errCount lt + (if h_LastHeaderHash (sh_Header sh) \<noteq> st_LastHeaderHash s then 1 else 0)"
proof -
  have prp: "AssertExpectedProposer s sh = None" and seq: "AssertValidSequence lt s sh = (lt', None)"
    and val: "Validate C P sh data = None"
    using assms(1) by (auto simp: AssertValidForNextState_def split: option.splits prod.splits)
  show "Header_ChainID (sh_Header sh) = st_ChainID s" "Header_Height (sh_Header sh) = st_LastBlockHeight s + 1"
    "st_LastBlockTime s \<le> Header_Time (sh_Header sh)" "h_AppHash (sh_Header sh) = st_AppHash s"
    using seq assms(2) by (auto simp: AssertValidSequence_def Let_def split: if_splits)
  show "DACommitment C P data = h_DataHash (sh_Header sh)"
    using val by (rule Validate_commitment)
  show "st_NextProposerAddress s \<noteq> [] \<Longrightarrow> h_ProposerAddress (sh_Header sh) = st_NextProposerAddress s"
    using prp by (auto simp: AssertExpectedProposer_def split: if_splits)
  show "lt_ok lt \<Longrightarrow> lt_ok lt' \<and>
      lt_errCount lt' = lt_errCount lt + (if h_LastHeaderHash (sh_Header sh) \<noteq> st_LastHeaderHash s then 1 else 0)"
    using seq assms(2) by (auto simp: AssertValidSequence_def lt_ok_def Let_def split: if_splits)
qed

lemma accept_chain_Cons:
  assumes "accept_chain C P W lt s (b # blocks) = Some (lt', s')"
  obtains lt1 where "AssertValidForNextState C P lt s (fst b) (fst (snd b)) = (lt1, None)"
    and "accept_chain C P W lt1 (NextState C P W s (header_of b) (root_of b) (snd (snd (snd b)))) blocks = Some (lt', s')"
  using assms by (cases b) (auto simp: header_of_def root_of_def split: prod.splits option.splits)

lemma NextState_simps [simp]:
  "st_ChainID (NextState C P W s h r n) = st_ChainID s" "st_LastBlockHeight (NextState C P W s h r n) = Header_Height h"
  "st_LastBlockTime (NextState C P W s h r n) = Header_Time h" "st_AppHash (NextState C P W s h r n) = r"
  "st_LastHeaderHash (NextState C P W s h r n) = Header_Hash C P W h"
  "st_InitialHeight (NextState C P W s h r n) = st_InitialHeight s" "st_DAHeight (NextState C P W s h r n) = st_DAHeight s"
  "st_Version (NextState C P W s h r n) = st_Version s"
  by (simp_all add: NextState_def Let_def)

lemma accept_chain_links:
  assumes "accept_chain C P W lt s blocks = Some (lt', s')" and "st_LastHeaderHash s \<noteq> []" and "lt_ok lt"
    and "\<forall>b \<in> set blocks. Header_Hash C P W (header_of b) \<noteq> []"
  shows "lt_ok lt' \<and> lt_errCount lt' = lt_errCount lt + broken_links C P W (st_LastHeaderHash s) (map header_of blocks)"
  using assms
proof (induction blocks arbitrary: lt s)
  case Nil
  then show ?case by simp
next
  case (Cons b blocks)
  from accept_chain_Cons [OF Cons.prems(1)] obtain lt1
    where v: "AssertValidForNextState C P lt s (fst b) (fst (snd b)) = (lt1, None)"
      and r: "accept_chain C P W lt1 (NextState C P W s (header_of b) (root_of b) (snd (snd (snd b)))) blocks = Some (lt', s')"
    by blast
  from valid_next(7) [OF v Cons.prems(2,3)] Cons.IH [OF r] Cons.prems(4)
  show ?case by (simp add: header_of_def [symmetric])
qed

lemma accept_chain_chain:
  assumes "accept_chain C P W lt s blocks = Some (lt', s')" and "st_LastHeaderHash s \<noteq> []"
    and "\<forall>b \<in> set blocks. Header_Hash C P W (header_of b) \<noteq> []"
  shows "header_chain C P W s blocks \<and> st_LastBlockHeight s' = st_LastBlockHeight s + word_of_nat (length blocks)"
  using assms
proof (induction blocks arbitrary: lt s)
  case Nil
  then show ?case by (simp add: header_chain_def)
next
  case (Cons b blocks)
  let ?s = "NextState C P W s (header_of b) (root_of b) (snd (snd (snd b)))"
  from accept_chain_Cons [OF Cons.prems(1)] obtain lt1
    where v: "AssertValidForNextState C P lt s (fst b) (fst (snd b)) = (lt1, None)"
      and r: "accept_chain C P W lt1 ?s blocks = Some (lt', s')"
    by blast
  from Cons.IH [OF r] Cons.prems(3)
  have ih: "header_chain C P W ?s blocks" "st_LastBlockHeight s' = Header_Height (header_of b) + word_of_nat (length blocks)"
    by simp_all
  note st = valid_next(1-5) [OF v Cons.prems(2), folded header_of_def]
  have "Header_ChainID (header_of ((b # blocks) ! i)) = st_ChainID s \<and>
        Header_Height (header_of ((b # blocks) ! i)) = st_LastBlockHeight s + 1 + word_of_nat i \<and>
        h_AppHash (header_of ((b # blocks) ! i)) = (st_AppHash s # map root_of (b # blocks)) ! i \<and>
        DACommitment C P (fst (snd ((b # blocks) ! i))) = h_DataHash (header_of ((b # blocks) ! i))"
    if "i < length (b # blocks)" for i
    using that st ih(1) by (cases i) (simp_all add: header_chain_def add.assoc)
  moreover have "sorted (st_LastBlockTime s # map (Header_Time \<circ> header_of) (b # blocks))"
    using st(3) ih(1) by (auto simp: header_chain_def)
  ultimately show ?case
    using ih(2) st(2) by (simp add: header_chain_def add.assoc)
qed

section \<open>Decoded headers\<close>

lemma normHeader_uncached: "h_cachedHash (normHeader h) = None"
  by (simp add: normHeader_def)

lemma setLegacyField_small:
  "legacy_small (Some l) \<Longrightarrow> length v \<le> maxLegacyHashSize \<Longrightarrow> legacy_small (Some (setLegacyField n v l))"
  by (auto simp: legacy_small_def setLegacyField_def copied_def olen_def)

definition legacy_normal :: "LegacyHeaderFields \<Rightarrow> bool" where
  "legacy_normal l \<longleftrightarrow> Legacy_Clone (Some l) = Some l"

lemma setLegacyField_normal: "legacy_normal l \<Longrightarrow> legacy_normal (setLegacyField n v l)"
  by (cases l) (auto simp: legacy_normal_def setLegacyField_def Legacy_Clone_def copied_def cloneBytes_def olen_def)

lemma decode_loop_bounds:
  "decode_loop W unknown l = Inr l' \<Longrightarrow> legacy_small (Some l) \<Longrightarrow> legacy_normal l \<Longrightarrow>
     legacy_small (Some l') \<and> legacy_normal l'"
proof (induction W unknown l rule: decode_loop.induct)
  case (1 W unknown legacy)
  show ?case
  proof (cases "unknown = []")
    case True
    then show ?thesis using 1(4-6) by (simp add: decode_loop.simps)
  next
    case False
    then obtain fieldNum ty n where tag: "pw_ConsumeTag W unknown = Some (fieldNum, ty, n)"
      using 1(4) by (subst (asm) decode_loop.simps) (auto split: option.splits)
    note step = 1(4) [unfolded decode_loop.simps [of W unknown legacy]]
    show ?thesis
      using False tag step 1(1-3) [OF False tag refl refl] 1(5,6) setLegacyField_small setLegacyField_normal
      by (auto split: option.splits if_splits)
  qed
qed

lemma decoded_legacy:
  assumes "decodeLegacyHeaderFields W p = Inr l"
  shows "legacy_small l" and "normLegacy l = l"
proof -
  have "legacy_small (Some emptyLegacy)" "legacy_normal emptyLegacy"
    by (simp_all add: legacy_small_def legacy_normal_def emptyLegacy_def olen_def Legacy_Clone_def cloneBytes_def)
  then show "legacy_small l" "normLegacy l = l"
    using assms decode_loop_bounds [of W "pbh_unknown p" emptyLegacy]
    by (auto simp: decodeLegacyHeaderFields_def Let_def legacy_small_def legacy_normal_def normLegacy_def
        Legacy_IsZero_def split: if_splits sum.splits)
qed

lemma decoded_header:
  assumes "Header_UnmarshalBinary P W b = Inr h"
  shows "legacy_small (h_Legacy h)" and "normHeader h = h"
  using assms decoded_legacy
  by (auto simp: Header_UnmarshalBinary_def Header_FromProto_def normHeader_def split: option.splits sum.splits)

section \<open>A block of the concrete instance\<close>

text \<open>A two-block chain over the wire format of \<open>Protobuf\<close>, the second block linked to the first.\<close>

definition ex_key :: bytes where "ex_key = [1, 2]"

definition ex_data :: "u64 \<Rightarrow> Data" where
  "ex_data n = \<lparr>d_Metadata = Some \<lparr>md_ChainID = ''c'', md_Height = n, md_Time = 1000 * n, md_LastDataHash = []\<rparr>,
     d_Txs = [[3, 4]]\<rparr>"

definition ex_header :: "u64 \<Rightarrow> bytes \<Rightarrow> bytes \<Rightarrow> Header" where
  "ex_header n prev app = \<lparr>h_BaseHeader = \<lparr>bh_Height = n, bh_Time = 1000 * n, bh_ChainID = ''c''\<rparr>,
     h_Version = \<lparr>ver_Block = 1, ver_App = 0\<rparr>, h_LastHeaderHash = prev,
     h_DataHash = DACommitment plain_crypto pb_codec (ex_data n), h_AppHash = app, h_ValidatorHash = [],
     h_ProposerAddress = 7 # ex_key, h_Legacy = Some \<lparr>lg_LastCommitHash = Some [9], lg_ConsensusHash = None,
       lg_LastResultsHash = Some []\<rparr>, h_cachedHash = None\<rparr>"

definition ex_signer :: "bytes Signer" where
  "ex_signer = \<lparr>sg_PubKey = Some ex_key, sg_Address = 7 # ex_key, sg_marshalledPubKey = []\<rparr>"

definition ex_signed :: "Header \<Rightarrow> bytes SignedHeader" where
  "ex_signed h = \<lparr>sh_Header = h, sh_Signature = ex_key @ enc_Header (Header_ToProto pb_wire h), sh_Signer = ex_signer,
     sh_aggregatorProvider = None, sh_syncNodeProvider = None\<rparr>"

definition ex_h6 :: Header where "ex_h6 = ex_header 6 [5, 5] [20]"
definition ex_h7 :: Header where
  "ex_h7 = ex_header 7 (Header_Hash plain_crypto pb_codec pb_wire ex_h6) [21]"

definition ex_state :: State where
  "ex_state = \<lparr>st_Version = \<lparr>ver_Block = 1, ver_App = 0\<rparr>, st_ChainID = ''c'', st_InitialHeight = 1, st_LastBlockHeight = 5,
     st_LastBlockTime = 5000, st_LastHeaderHash = [5, 5], st_DAHeight = 3, st_AppHash = [20],
     st_NextProposerAddress = 7 # ex_key\<rparr>"

definition ex_blocks :: "bytes block list" where
  "ex_blocks = [(ex_signed ex_h6, ex_data 6, [21], []), (ex_signed ex_h7, ex_data 7, [22], [])]"

lemmas ex_defs = ex_h6_def ex_h7_def ex_header_def ex_signed_def ex_signer_def ex_data_def ex_state_def ex_key_def

lemma ex_small: "legacy_small (h_Legacy (ex_header n prev app))"
  by (simp add: ex_header_def legacy_small_def olen_def legacy_consts)

lemma ex_signer_wf: "signer_wf plain_crypto ex_signer"
  by (simp add: signer_wf_def ex_signer_def)

lemma ex_hash: "Header_Hash plain_crypto pb_codec pb_wire (ex_header n prev app) \<noteq> []"
proof -
  have "HashSlim plain_crypto pb_codec pb_wire h = Some (7 # enc_Header (Header_ToProto pb_wire h))" for h
    by (simp add: HashSlim_def Header_MarshalBinary_def pb_codec_def plain_crypto_def)
  moreover have "HashLegacy plain_crypto pb_codec pb_wire h = Some x \<Longrightarrow> x \<noteq> []" for h x
    by (auto simp: HashLegacy_def plain_crypto_def)
  ultimately show ?thesis
    by (auto simp: Header_Hash_def Header_Hash_opt_def computeHash_def ex_header_def obytes_def split: option.splits)
qed

lemma ex_marshal: "SignedHeader_MarshalBinary plain_crypto pb_codec pb_wire (ex_signed h) =
    Inr (enc_SignedHeader \<lparr>pbsh_Header = Some (Header_ToProto pb_wire h),
      pbsh_Signature = ex_key @ enc_Header (Header_ToProto pb_wire h),
      pbsh_Signer = Some \<lparr>pbsg_Address = 7 # ex_key, pbsg_PubKey = 8 # ex_key\<rparr>\<rparr>)"
  by (simp add: SignedHeader_MarshalBinary_def SignedHeader_ToProto_def Signer_ToProto_def ex_signed_def ex_signer_def
      MarshalledPubKey_def plain_crypto_def pb_codec_def)

lemma enc_Header_neq: "enc_Header p \<noteq> []" if "pbh_Version p = Some v" "v = \<lparr>ver_Block = 1, ver_App = 0\<rparr>"
  using that by (simp add: enc_Header_def header_fields_def mfield_def enc_fields_def)

lemma ex_valid:
  assumes "n = 6 \<or> n = 7"
  shows "validate_signed plain_crypto pb_codec pb_wire 5000 (ex_signed (ex_header n prev app)) None = None"
proof (rule validate_signed_complete)
  show "Header_ValidateBasic 5000 (sh_Header (ex_signed (ex_header n prev app))) = None"
    using assms by (auto simp: Header_ValidateBasic_None ex_signed_def ex_header_def Header_Time_def unix_nano_def
        MaxClockDrift_def second_def)
  show "enc_Header (Header_ToProto pb_wire (ex_header n prev app)) \<noteq> []"
    by (rule enc_Header_neq [OF _ refl]) (simp add: Header_ToProto_def ex_header_def)
qed (simp_all add: ex_signed_def ex_signer_def KeyAddress_def plain_crypto_def ex_key_def Header_MarshalBinary_def
    pb_codec_def, simp_all add: ex_header_def ex_key_def)

lemma ex_accept: "accept_chain plain_crypto pb_codec pb_wire newTracking ex_state ex_blocks =
    Some (newTracking, NextState plain_crypto pb_codec pb_wire
      (NextState plain_crypto pb_codec pb_wire ex_state ex_h6 [21] []) ex_h7 [22] [])"
proof -
  have val: "Validate plain_crypto pb_codec (ex_signed (ex_header n prev app)) (ex_data n) = None" for n prev app
    by (simp add: Validate_def ex_signed_def ex_header_def ex_data_def Header_ChainID_def Header_Height_def
        Header_Time_def DACommitment_def)
  have "AssertValidForNextState plain_crypto pb_codec newTracking ex_state (ex_signed ex_h6) (ex_data 6) = (newTracking, None)"
    using val [of 6] by (simp add: AssertValidForNextState_def AssertExpectedProposer_def AssertValidSequence_def ex_h6_def
        ex_signed_def ex_state_def ex_header_def Header_ChainID_def Header_Height_def Header_Time_def unix_nano_def)
  moreover have "AssertValidForNextState plain_crypto pb_codec newTracking
      (NextState plain_crypto pb_codec pb_wire ex_state ex_h6 [21] []) (ex_signed ex_h7) (ex_data 7) = (newTracking, None)"
    using val [of 7] ex_hash
    by (simp add: AssertValidForNextState_def AssertExpectedProposer_def AssertValidSequence_def ex_h7_def
        NextState_def Let_def ex_signed_def ex_state_def)
      (simp add: ex_h6_def ex_header_def Header_ChainID_def Header_Height_def Header_Time_def unix_nano_def)
  ultimately show ?thesis
    by (simp add: ex_blocks_def ex_signed_def)
qed

section \<open>Properties\<close>

text \<open>C9: Blocks accepted one after the other by \<open>AssertValidForNextState\<close> and \<open>NextState\<close> from a state that has a
  last header form a chain: same chain id, consecutive heights, times that never go back, every header carrying
  the state root the previous block produced and the commitment of its own transactions. Over the life of the
  process at most one header is accepted whose link is not the hash of the header before it.\<close>

theorem accepted_blocks_form_chain:
  assumes "accept_chain C P W lt s blocks = Some (lt', s')" and "st_LastHeaderHash s \<noteq> []" and "lt_ok lt"
    and "\<forall>b \<in> set blocks. Header_Hash C P W (header_of b) \<noteq> []"
  shows "header_chain C P W s blocks \<and> st_LastBlockHeight s' = st_LastBlockHeight s + word_of_nat (length blocks) \<and>
    lt_errCount lt + broken_links C P W (st_LastHeaderHash s) (map header_of blocks) \<le> 1"
  using accept_chain_links [OF assms] accept_chain_chain [OF assms(1,2,4)] by (auto simp: lt_ok_def split: if_splits)

theorem accepted_blocks_form_chain_witness:
  "header_chain plain_crypto pb_codec pb_wire ex_state ex_blocks \<and>
   broken_links plain_crypto pb_codec pb_wire [5, 5] (map header_of ex_blocks) \<le> 1"
proof -
  have "\<forall>b \<in> set ex_blocks. Header_Hash plain_crypto pb_codec pb_wire (header_of b) \<noteq> []"
    using ex_hash by (simp add: ex_blocks_def header_of_def ex_signed_def ex_h6_def ex_h7_def)
  then show ?thesis
    using accepted_blocks_form_chain [OF ex_accept] by (simp add: ex_state_def lt_ok_def newTracking_def)
qed

text \<open>C10: A signed header that passes \<open>ValidateBasic\<close> names as proposer the address of the public key it carries,
  its signature verifies under that key over the custom payload, the header encoding or the legacy header
  encoding, and its time is at most the allowed drift ahead of the clock.\<close>

theorem validated_header_is_signed_by_proposer:
  assumes "SignedHeader_ValidateBasic C P W now sh = None"
  shows "\<exists>k. sg_PubKey (sh_Signer sh) = Some k \<and> h_ProposerAddress (sh_Header sh) = KeyAddress C k \<and>
    h_ProposerAddress (sh_Header sh) \<noteq> [] \<and> Header_Time (sh_Header sh) \<le> now + MaxClockDrift \<and>
    signed_by C P W k sh (map_option (\<lambda>f. f (sh_Header sh)) (sh_aggregatorProvider sh))"
  using validate_signed_sound assms unfolding SignedHeader_ValidateBasic_def by blast

theorem validated_header_is_signed_by_proposer_witness:
  "\<exists>k. sg_PubKey (sh_Signer (ex_signed ex_h6)) = Some k \<and> signed_by plain_crypto pb_codec pb_wire k (ex_signed ex_h6) None"
proof -
  have "SignedHeader_ValidateBasic plain_crypto pb_codec pb_wire 5000 (ex_signed ex_h6) = None"
    using ex_valid [of 6] by (simp add: SignedHeader_ValidateBasic_def ex_h6_def) (simp add: ex_signed_def)
  from validated_header_is_signed_by_proposer [OF this] show ?thesis by (auto simp: ex_signed_def)
qed

text \<open>C11: A header fixes the transactions of its block: two data accepted by \<open>Validate\<close> for the same header carry
  the same transactions, when the digest does not collide on their encodings.\<close>

theorem header_fixes_transactions:
  assumes "wire_laws W P C" and "Validate C P sh d = None" and "Validate C P sh d' = None"
    and "m_Data P \<lparr>pbd_Metadata = None, pbd_Txs = d_Txs d\<rparr> = Some b"
    and "m_Data P \<lparr>pbd_Metadata = None, pbd_Txs = d_Txs d'\<rparr> = Some b'"
    and "inj_on (c_sha256 C) {leafPrefix @ b, leafPrefix @ b'}"
  shows "d_Txs d = d_Txs d'"
proof -
  have "DACommitment C P d = c_sha256 C (leafPrefix @ b)" "DACommitment C P d' = c_sha256 C (leafPrefix @ b')"
    by (simp_all add: DACommitment_def leafHashOpt_def obytes_def assms(4,5))
  then have "c_sha256 C (leafPrefix @ b) = c_sha256 C (leafPrefix @ b')"
    using Validate_commitment [OF assms(2)] Validate_commitment [OF assms(3)] by (metis)
  then have "b = b'" using inj_onD [OF assms(6), of "leafPrefix @ b" "leafPrefix @ b'"] by simp
  then show ?thesis
    using wire_laws.data_codec [OF assms(1) assms(4)] wire_laws.data_codec [OF assms(1) assms(5)] by simp
qed

theorem header_fixes_transactions_witness:
  "wire_laws pb_wire pb_codec plain_crypto \<and> d_Txs (ex_data 6) = d_Txs ((ex_data 6)\<lparr>d_Metadata := None\<rparr>)"
proof -
  have "Validate plain_crypto pb_codec (ex_signed ex_h6) (ex_data 6) = None"
    "Validate plain_crypto pb_codec (ex_signed ex_h6) ((ex_data 6)\<lparr>d_Metadata := None\<rparr>) = None"
    by (simp_all add: Validate_def ex_h6_def ex_signed_def ex_header_def ex_data_def Header_ChainID_def Header_Height_def
        Header_Time_def DACommitment_def)
  from header_fixes_transactions [OF pb.wire_laws_axioms this] show ?thesis
    using pb.wire_laws_axioms by (simp add: pb_codec_def plain_crypto_def inj_on_def ex_data_def)
qed

text \<open>C12: Signed headers survive the wire: whatever is written by \<open>MarshalBinary\<close>, by \<open>MarshalDAEnvelope\<close> or as a P2P
  envelope is read back as the same header, signature and signer, with the envelope signature and the DA height
  hint, and the receiver keeps its own payload providers.\<close>

theorem signed_header_roundtrip:
  assumes "wire_laws W P C" and "legacy_small (h_Legacy (sh_Header sh))" and "signer_wf C (sh_Signer sh)"
  shows "(SignedHeader_MarshalBinary C P W sh = Inr b \<longrightarrow>
      SignedHeader_UnmarshalBinary C P W recv b = Inr (received C recv sh)) \<and>
    (MarshalDAEnvelope C P W sh sig = Inr b \<longrightarrow> UnmarshalDAEnvelope C P W recv b = Inr (received C recv sh, sig)) \<and>
    (P2PSignedHeader_MarshalBinary C P W \<lparr>ph_SignedHeader = sh, ph_DAHeightHint = hint\<rparr> = Inr b \<longrightarrow>
      P2PSignedHeader_UnmarshalBinary C P W \<lparr>ph_SignedHeader = recv, ph_DAHeightHint = hint'\<rparr> b =
        Inr \<lparr>ph_SignedHeader = received C recv sh, ph_DAHeightHint = hint\<rparr>)"
  using wire_laws.signed_header_wire [OF assms(1-3)] wire_laws.envelope_wire [OF assms(1-3)]
    wire_laws.p2p_header_wire [OF assms(1), of "\<lparr>ph_SignedHeader = sh, ph_DAHeightHint = hint\<rparr>"] assms(2,3)
  by simp

theorem signed_header_roundtrip_witness:
  "\<exists>b. SignedHeader_MarshalBinary plain_crypto pb_codec pb_wire (ex_signed ex_h6) = Inr b \<and>
     SignedHeader_UnmarshalBinary plain_crypto pb_codec pb_wire newSignedHeader b =
       Inr (received plain_crypto newSignedHeader (ex_signed ex_h6))"
  using signed_header_roundtrip [OF pb.wire_laws_axioms, of "ex_signed ex_h6"] ex_small ex_signer_wf ex_marshal
  by (simp add: ex_signed_def ex_h6_def)

text \<open>C13: What is received validates and hashes as what was sent: for a header with no cached hash and no payload
  provider, the receiver's \<open>ValidateBasic\<close> gives the same verdict and \<open>Hash\<close> the same bytes.\<close>

theorem wire_preserves_validation:
  assumes "wire_laws W P C" and "legacy_small (h_Legacy (sh_Header sh))" and "signer_wf C (sh_Signer sh)"
    and "SignedHeader_MarshalBinary C P W sh = Inr b" and "h_cachedHash (sh_Header sh) = None"
    and "sh_aggregatorProvider sh = sh_aggregatorProvider recv" and "sh_aggregatorProvider recv = None"
  shows "\<exists>sh'. SignedHeader_UnmarshalBinary C P W recv b = Inr sh' \<and>
    SignedHeader_ValidateBasic C P W now sh' = SignedHeader_ValidateBasic C P W now sh \<and>
    Header_Hash C P W (sh_Header sh') = Header_Hash C P W (sh_Header sh)"
proof (intro exI conjI)
  show "SignedHeader_UnmarshalBinary C P W recv b = Inr (received C recv sh)"
    using wire_laws.signed_header_wire [OF assms(1-4)] .
  show "SignedHeader_ValidateBasic C P W now (received C recv sh) = SignedHeader_ValidateBasic C P W now sh"
    unfolding SignedHeader_ValidateBasic_def using assms(6,7)
    by (subst validate_normHeader [of "received C recv sh" sh])
      (auto simp: received_def MarshalledPubKey_def split: option.splits)
  show "Header_Hash C P W (sh_Header (received C recv sh)) = Header_Hash C P W (sh_Header sh)"
    using assms(5) normHeader_uncached by (simp add: Header_Hash_def Header_Hash_opt_def received_def)
qed

theorem wire_preserves_validation_witness:
  "\<exists>b sh'. SignedHeader_MarshalBinary plain_crypto pb_codec pb_wire (ex_signed ex_h6) = Inr b \<and>
     SignedHeader_UnmarshalBinary plain_crypto pb_codec pb_wire newSignedHeader b = Inr sh' \<and>
     SignedHeader_ValidateBasic plain_crypto pb_codec pb_wire 5000 sh' = None"
  using wire_preserves_validation [OF pb.wire_laws_axioms _ _ ex_marshal, of ex_h6 newSignedHeader 5000] ex_small
    ex_signer_wf ex_marshal [of ex_h6] ex_valid [of 6 "[5, 5]" "[20]"]
  by (auto simp: ex_signed_def ex_h6_def newSignedHeader_def SignedHeader_ValidateBasic_def ex_header_def)

text \<open>C14: Block data, its metadata, signed data, the P2P data envelope and the chain state survive the wire
  unchanged.\<close>

theorem data_and_state_roundtrip:
  assumes "wire_laws W P C"
  shows "(Data_MarshalBinary P d = Some b \<longrightarrow> Data_UnmarshalBinary P b = Inr d) \<and>
    (Metadata_MarshalBinary P m = Some b \<longrightarrow> Metadata_UnmarshalBinary P b = Inr m) \<and>
    (signer_wf C (sd_Signer sd) \<longrightarrow> SignedData_MarshalBinary C P sd = Inr b \<longrightarrow>
      SignedData_UnmarshalBinary C P recv b = Inr (sd\<lparr>sd_Signer := fst (MarshalledPubKey C (sd_Signer sd))\<rparr>)) \<and>
    (P2PData_MarshalBinary P p = Some b \<longrightarrow> P2PData_UnmarshalBinary P p' b = Inr p) \<and>
    (State_MarshalBinary P s = Some b \<longrightarrow> map_option (State_FromProto \<circ> Some) (u_State P b) = Some (Inr s))"
  using wire_laws.data_roundtrip [OF assms] wire_laws.metadata_roundtrip [OF assms] wire_laws.signed_data_wire [OF assms]
    wire_laws.p2p_data_wire [OF assms] wire_laws.state_codec [OF assms] wire_laws.state_from_to [OF assms]
  by (simp add: State_MarshalBinary_def)

theorem data_and_state_roundtrip_witness:
  "\<exists>b. Data_MarshalBinary pb_codec (ex_data 6) = Some b \<and> Data_UnmarshalBinary pb_codec b = Inr (ex_data 6)"
  using data_and_state_roundtrip [OF pb.wire_laws_axioms, of "ex_data 6"]
  by (auto simp: Data_MarshalBinary_def pb_codec_def)

text \<open>C15: Decoding is bounded and stable: a header read from any bytes has legacy hashes of at most
  \<open>maxLegacyHashSize\<close> bytes, and encoding it and reading it again gives the same header, field for field.\<close>

theorem decoded_header_bounded_and_stable:
  assumes "wire_laws W P C" and "Header_UnmarshalBinary P W b = Inr h"
  shows "legacy_small (h_Legacy h) \<and>
    (\<forall>b'. Header_MarshalBinary P W h = Some b' \<longrightarrow> Header_UnmarshalBinary P W b' = Inr h)"
  using decoded_header [OF assms(2)] wire_laws.header_roundtrip [OF assms(1)] by fastforce

theorem decoded_header_bounded_and_stable_witness:
  "\<exists>b h. Header_UnmarshalBinary pb_codec pb_wire b = Inr h \<and> legacy_small (h_Legacy h)"
proof -
  obtain b where "Header_MarshalBinary pb_codec pb_wire ex_h6 = Some b"
    by (simp add: Header_MarshalBinary_def pb_codec_def)
  from pb.header_roundtrip [OF _ this] have "Header_UnmarshalBinary pb_codec pb_wire b = Inr (normHeader ex_h6)"
    using ex_small by (simp add: ex_h6_def)
  with decoded_header_bounded_and_stable [OF pb.wire_laws_axioms this] show ?thesis by blast
qed

end
