(* ===== verification/Block_Store.thy ===== *)
theory Block_Store
  imports Datastore Wire_Laws
begin

text \<open>
  The block store (\<open>pkg/store/store.go\<close>, \<open>keys.go\<close>, \<open>batch.go\<close>, \<open>kv.go\<close>): blocks, signatures, states and
  metadata as entries of one datastore under string keys. A read is a function of the datastore, a write
  returns the new one. A \<open>ds.Batch\<close> is the list of its operations, applied as a whole by \<open>Commit\<close>.
  \<open>ds.RawKey\<close> only checks the form of a key and is the identity. \<open>Hash.String\<close> belongs to go-header and is
  the parameter \<open>s_hashString\<close>.
\<close>

record ('d, 'k) store_env =
  s_ds :: "'d datastore"
  s_crypto :: "'k crypto"
  s_codec :: codec
  s_wire :: protowire
  s_hashString :: "bytes \<Rightarrow> string"

datatype store_error =
    ErrDs ds_error
  | ErrWire wire_error
  | ErrHeightLength nat
  | ErrRollbackHeight u64 u64
  | ErrRollbackFinalized

section \<open>Keys\<close>

definition DAIncludedHeightKey :: string where "DAIncludedHeightKey = ''d''"
definition LastPrunedBlockHeightKey :: string where "LastPrunedBlockHeightKey = ''lst-prnd-b''"
definition LastPrunedStateHeightKey :: string where "LastPrunedStateHeightKey = ''lst-prnd-s''"
definition HeightToDAHeightKey :: string where "HeightToDAHeightKey = ''rhb''"
definition GenesisDAHeightKey :: string where "GenesisDAHeightKey = ''gdh''"
definition LastSubmittedHeaderHeightKey :: string where
  "LastSubmittedHeaderHeightKey = ''last-submitted-header-height''"

lemmas meta_keys = DAIncludedHeightKey_def LastPrunedBlockHeightKey_def LastPrunedStateHeightKey_def
  HeightToDAHeightKey_def GenesisDAHeightKey_def LastSubmittedHeaderHeightKey_def

definition heightKey :: "string \<Rightarrow> u64 \<Rightarrow> string" where
  "heightKey prefix height = ''/'' @ prefix @ ''/'' @ FormatUint height"

definition GenerateKey :: "string list \<Rightarrow> string" where
  "GenerateKey fs = foldl (\<lambda>b f. b @ ''/'' @ f) [] fs"

definition getHeaderKey :: "u64 \<Rightarrow> string" where
  "getHeaderKey height = heightKey ''h'' height"

definition getDataKey :: "u64 \<Rightarrow> string" where
  "getDataKey height = heightKey ''d'' height"

definition getSignatureKey :: "u64 \<Rightarrow> string" where
  "getSignatureKey height = heightKey ''c'' height"

definition getStateAtHeightKey :: "u64 \<Rightarrow> string" where
  "getStateAtHeightKey height = heightKey ''s'' height"

definition GetMetaKey :: "string \<Rightarrow> string" where
  "GetMetaKey key = GenerateKey [''m'', key]"

definition getIndexKey :: "('d, 'k) store_env \<Rightarrow> bytes \<Rightarrow> string" where
  "getIndexKey E hash = GenerateKey [''i'', s_hashString E hash]"

definition getHeightKey :: string where
  "getHeightKey = ''/'' @ ''t''"

definition GetHeightToDAHeightHeaderKey :: "u64 \<Rightarrow> string" where
  "GetHeightToDAHeightHeaderKey height = HeightToDAHeightKey @ ''/'' @ FormatUint height @ ''/h''"

definition GetHeightToDAHeightDataKey :: "u64 \<Rightarrow> string" where
  "GetHeightToDAHeightDataKey height = HeightToDAHeightKey @ ''/'' @ FormatUint height @ ''/d''"

definition heightLength :: nat where
  "heightLength = 8"

definition encodeHeight :: "u64 \<Rightarrow> bytes" where
  "encodeHeight height = PutUint64_LE height"

definition decodeHeight :: "bytes \<Rightarrow> store_error + u64" where
  "decodeHeight heightBytes =
     (if length heightBytes \<noteq> heightLength then Inl (ErrHeightLength (length heightBytes))
      else Inr (Uint64_LE heightBytes))"

section \<open>Reading\<close>

definition db_Get :: "('d, 'k) store_env \<Rightarrow> 'd \<Rightarrow> string \<Rightarrow> store_error + bytes" where
  "db_Get E d key = mapE ErrDs (ds_Get (s_ds E) d (ds_NewKey (s_ds E) key))"

definition IsNotFound :: "store_error \<Rightarrow> bool" where
  "IsNotFound e \<longleftrightarrow> e = ErrDs ErrNotFound"

definition Height :: "('d, 'k) store_env \<Rightarrow> 'd \<Rightarrow> store_error + u64" where
  "Height E d =
     (case db_Get E d getHeightKey of
        Inl e \<Rightarrow> if IsNotFound e then Inr 0 else Inl e
      | Inr heightBytes \<Rightarrow> decodeHeight heightBytes)"

definition GetHeader :: "('d, 'k) store_env \<Rightarrow> 'd \<Rightarrow> u64 \<Rightarrow> store_error + 'k SignedHeader" where
  "GetHeader E d height =
     bindE (db_Get E d (getHeaderKey height)) (\<lambda>headerBlob.
       mapE ErrWire (SignedHeader_UnmarshalBinary (s_crypto E) (s_codec E) (s_wire E) newSignedHeader headerBlob))"

definition GetBlockData :: "('d, 'k) store_env \<Rightarrow> 'd \<Rightarrow> u64 \<Rightarrow> store_error + 'k SignedHeader \<times> Data" where
  "GetBlockData E d height =
     bindE (GetHeader E d height) (\<lambda>header.
     bindE (db_Get E d (getDataKey height)) (\<lambda>dataBlob.
     bindE (mapE ErrWire (Data_UnmarshalBinary (s_codec E) dataBlob)) (\<lambda>data.
       Inr (header, data))))"

definition getHeightByHash :: "('d, 'k) store_env \<Rightarrow> 'd \<Rightarrow> bytes \<Rightarrow> store_error + u64" where
  "getHeightByHash E d hash = bindE (db_Get E d (getIndexKey E hash)) decodeHeight"

definition GetBlockByHash :: "('d, 'k) store_env \<Rightarrow> 'd \<Rightarrow> bytes \<Rightarrow> store_error + 'k SignedHeader \<times> Data" where
  "GetBlockByHash E d hash = bindE (getHeightByHash E d hash) (GetBlockData E d)"

definition GetSignature :: "('d, 'k) store_env \<Rightarrow> 'd \<Rightarrow> u64 \<Rightarrow> store_error + bytes" where
  "GetSignature E d height = db_Get E d (getSignatureKey height)"

definition GetSignatureByHash :: "('d, 'k) store_env \<Rightarrow> 'd \<Rightarrow> bytes \<Rightarrow> store_error + bytes" where
  "GetSignatureByHash E d hash = bindE (getHeightByHash E d hash) (GetSignature E d)"

definition decodeState :: "('d, 'k) store_env \<Rightarrow> bytes \<Rightarrow> store_error + State" where
  "decodeState E blob =
     (case u_State (s_codec E) blob of
        None \<Rightarrow> Inl (ErrWire ErrUnmarshal)
      | Some pbState \<Rightarrow> mapE ErrWire (State_FromProto (Some pbState)))"

definition GetStateAtHeight :: "('d, 'k) store_env \<Rightarrow> 'd \<Rightarrow> u64 \<Rightarrow> store_error + State" where
  "GetStateAtHeight E d height = bindE (db_Get E d (getStateAtHeightKey height)) (decodeState E)"

definition GetState :: "('d, 'k) store_env \<Rightarrow> 'd \<Rightarrow> store_error + State" where
  "GetState E d =
     bindE (Height E d) (\<lambda>currentHeight.
     bindE (db_Get E d (getStateAtHeightKey currentHeight)) (decodeState E))"

definition GetMetadata :: "('d, 'k) store_env \<Rightarrow> 'd \<Rightarrow> string \<Rightarrow> store_error + bytes" where
  "GetMetadata E d key = db_Get E d (GetMetaKey key)"

definition getLastPrunedHeight :: "('d, 'k) store_env \<Rightarrow> 'd \<Rightarrow> string \<Rightarrow> store_error + u64" where
  "getLastPrunedHeight E d key =
     (case GetMetadata E d key of
        Inl e \<Rightarrow> if IsNotFound e then Inr 0 else Inl e
      | Inr meta \<Rightarrow> if length meta \<noteq> heightLength then Inr 0 else decodeHeight meta)"

section \<open>Single writes\<close>

definition SetMetadata :: "('d, 'k) store_env \<Rightarrow> 'd \<Rightarrow> string \<Rightarrow> bytes \<Rightarrow> 'd \<times> store_error option" where
  "SetMetadata E d key value =
     (let (d', e) = ds_Put (s_ds E) d (ds_NewKey (s_ds E) (GetMetaKey key)) value in (d', map_option ErrDs e))"

definition DeleteMetadata :: "('d, 'k) store_env \<Rightarrow> 'd \<Rightarrow> string \<Rightarrow> 'd \<times> store_error option" where
  "DeleteMetadata E d key =
     (let (d', e) = ds_Delete (s_ds E) d (ds_NewKey (s_ds E) (GetMetaKey key)) in (d', map_option ErrDs e))"

definition DeleteStateAtHeight :: "('d, 'k) store_env \<Rightarrow> 'd \<Rightarrow> u64 \<Rightarrow> 'd \<times> store_error option" where
  "DeleteStateAtHeight E d height =
     (case ds_Delete (s_ds E) d (ds_NewKey (s_ds E) (getStateAtHeightKey height)) of
        (d', None) \<Rightarrow> (d', None)
      | (d', Some e) \<Rightarrow> if e = ErrNotFound then (d', None) else (d', Some (ErrDs e)))"

section \<open>Batches\<close>

definition NewBatch :: "('d, 'k) store_env \<Rightarrow> 'd \<Rightarrow> store_error + ds_op list" where
  "NewBatch E d = check (map_option ErrDs (ds_Batch (s_ds E) d)) []"

definition Batch_Put :: "('d, 'k) store_env \<Rightarrow> 'd \<Rightarrow> ds_op list \<Rightarrow> string \<Rightarrow> bytes \<Rightarrow> store_error + ds_op list" where
  "Batch_Put E d ops key value =
     check (map_option ErrDs (ds_BatchAdd (s_ds E) d ops (DPut key value))) (ops @ [DPut key value])"

definition Batch_Delete :: "('d, 'k) store_env \<Rightarrow> 'd \<Rightarrow> ds_op list \<Rightarrow> string \<Rightarrow> store_error + ds_op list" where
  "Batch_Delete E d ops key =
     check (map_option ErrDs (ds_BatchAdd (s_ds E) d ops (DDelete key))) (ops @ [DDelete key])"

definition Commit :: "('d, 'k) store_env \<Rightarrow> 'd \<Rightarrow> ds_op list \<Rightarrow> 'd \<times> store_error option" where
  "Commit E d ops = (let (d', e) = ds_Commit (s_ds E) d ops in (d', map_option ErrDs e))"

text \<open>A function that fills a batch and commits it: an error before \<open>Commit\<close> leaves the store as it is.\<close>

definition commit_result :: "('d, 'k) store_env \<Rightarrow> 'd \<Rightarrow> store_error + ds_op list \<Rightarrow> 'd \<times> store_error option" where
  "commit_result E d r = (case r of Inl e \<Rightarrow> (d, Some e) | Inr ops \<Rightarrow> Commit E d ops)"

definition SetHeight :: "('d, 'k) store_env \<Rightarrow> 'd \<Rightarrow> ds_op list \<Rightarrow> u64 \<Rightarrow> store_error + ds_op list" where
  "SetHeight E d ops height =
     bindE (Height E d) (\<lambda>currentHeight.
       if height \<le> currentHeight then Inr ops
       else Batch_Put E d ops getHeightKey (encodeHeight height))"

definition SaveBlockDataFromBytes ::
  "('d, 'k) store_env \<Rightarrow> 'd \<Rightarrow> ds_op list \<Rightarrow> 'k SignedHeader \<Rightarrow> bytes \<Rightarrow> bytes \<Rightarrow> bytes \<Rightarrow> store_error + ds_op list" where
  "SaveBlockDataFromBytes E d ops header headerBlob dataBlob signature =
     (let height = Header_Height (sh_Header header) in
      bindE (Batch_Put E d ops (getHeaderKey height) headerBlob) (\<lambda>ops.
      bindE (Batch_Put E d ops (getDataKey height) dataBlob) (\<lambda>ops.
      bindE (Batch_Put E d ops (getSignatureKey height) signature) (\<lambda>ops.
        Batch_Put E d ops (getIndexKey E (c_sha256 (s_crypto E) headerBlob)) (encodeHeight height)))))"

definition SaveBlockData ::
  "('d, 'k) store_env \<Rightarrow> 'd \<Rightarrow> ds_op list \<Rightarrow> 'k SignedHeader \<Rightarrow> Data \<Rightarrow> bytes \<Rightarrow> store_error + ds_op list" where
  "SaveBlockData E d ops header data signature =
     bindE (mapE ErrWire (SignedHeader_MarshalBinary (s_crypto E) (s_codec E) (s_wire E) header)) (\<lambda>headerBlob.
     bindE (check (if Data_MarshalBinary (s_codec E) data = None then Some (ErrWire ErrMarshal) else None)
              (obytes (Data_MarshalBinary (s_codec E) data))) (\<lambda>dataBlob.
       SaveBlockDataFromBytes E d ops header headerBlob dataBlob signature))"

definition UpdateState :: "('d, 'k) store_env \<Rightarrow> 'd \<Rightarrow> ds_op list \<Rightarrow> State \<Rightarrow> store_error + ds_op list" where
  "UpdateState E d ops state =
     (case State_MarshalBinary (s_codec E) state of
        None \<Rightarrow> Inl (ErrWire ErrMarshal)
      | Some data \<Rightarrow> Batch_Put E d ops (getStateAtHeightKey (st_LastBlockHeight state)) data)"

fun batch_puts :: "('d, 'k) store_env \<Rightarrow> 'd \<Rightarrow> ds_op list \<Rightarrow> (string \<times> bytes) list \<Rightarrow> store_error + ds_op list" where
  "batch_puts E d ops [] = Inr ops"
| "batch_puts E d ops ((key, value) # kvs) =
     bindE (Batch_Put E d ops (ds_NewKey (s_ds E) (GetMetaKey key)) value) (\<lambda>ops. batch_puts E d ops kvs)"

fun batch_deletes :: "('d, 'k) store_env \<Rightarrow> 'd \<Rightarrow> ds_op list \<Rightarrow> string list \<Rightarrow> store_error + ds_op list" where
  "batch_deletes E d ops [] = Inr ops"
| "batch_deletes E d ops (key # keys) =
     bindE (Batch_Delete E d ops (ds_NewKey (s_ds E) (GetMetaKey key))) (\<lambda>ops. batch_deletes E d ops keys)"

definition BatchMetadata ::
  "('d, 'k) store_env \<Rightarrow> 'd \<Rightarrow> (string \<times> bytes) list \<Rightarrow> string list \<Rightarrow> 'd \<times> store_error option" where
  "BatchMetadata E d puts deletes =
     (if puts = [] \<and> deletes = [] then (d, None)
      else commit_result E d
        (bindE (NewBatch E d) (\<lambda>ops.
         bindE (batch_puts E d ops puts) (\<lambda>ops.
           batch_deletes E d ops deletes))))"

section \<open>Rollback\<close>

definition rollback_one :: "('d, 'k) store_env \<Rightarrow> 'd \<Rightarrow> u64 \<Rightarrow> ds_op list \<Rightarrow> store_error + ds_op list" where
  "rollback_one E d h ops =
     bindE (db_Get E d (getHeaderKey h)) (\<lambda>headerBlob.
     bindE (Batch_Delete E d ops (ds_NewKey (s_ds E) (getHeaderKey h))) (\<lambda>ops.
     bindE (Batch_Delete E d ops (ds_NewKey (s_ds E) (getDataKey h))) (\<lambda>ops.
     bindE (Batch_Delete E d ops (ds_NewKey (s_ds E) (getSignatureKey h))) (\<lambda>ops.
     bindE (Batch_Delete E d ops (ds_NewKey (s_ds E) (getIndexKey E (c_sha256 (s_crypto E) headerBlob)))) (\<lambda>ops.
       Batch_Delete E d ops (ds_NewKey (s_ds E) (getStateAtHeightKey h)))))))"

function rollback_loop :: "('d, 'k) store_env \<Rightarrow> 'd \<Rightarrow> u64 \<Rightarrow> u64 \<Rightarrow> ds_op list \<Rightarrow> store_error + ds_op list" where
  "rollback_loop E d currentHeight height ops =
     (if height < currentHeight
      then bindE (rollback_one E d currentHeight ops) (rollback_loop E d (currentHeight - 1) height)
      else Inr ops)"
  by pat_completeness auto
termination
  by (relation "measure (\<lambda>(E, d, c, h, ops). unat c)") (auto simp: u64_less_iff [symmetric] intro: u64_pred_less)

declare rollback_loop.simps [simp del]

definition rollback_included ::
  "('d, 'k) store_env \<Rightarrow> 'd \<Rightarrow> u64 \<Rightarrow> bool \<Rightarrow> ds_op list \<Rightarrow> store_error + ds_op list" where
  "rollback_included E d height aggregator ops =
     (case GetMetadata E d DAIncludedHeightKey of
        Inl e \<Rightarrow> if IsNotFound e then Inr ops else Inl e
      | Inr daIncludedHeightBz \<Rightarrow>
          if length daIncludedHeightBz = 8 \<and> height < Uint64_LE daIncludedHeightBz
          then (if aggregator then Inl ErrRollbackFinalized
                else Batch_Put E d ops (ds_NewKey (s_ds E) (GetMetaKey DAIncludedHeightKey)) (PutUint64_LE height))
          else Inr ops)"

definition Rollback :: "('d, 'k) store_env \<Rightarrow> 'd \<Rightarrow> u64 \<Rightarrow> bool \<Rightarrow> 'd \<times> store_error option" where
  "Rollback E d height aggregator =
     commit_result E d
       (bindE (NewBatch E d) (\<lambda>ops.
        bindE (Height E d) (\<lambda>currentHeight.
        if currentHeight \<le> height then Inl (ErrRollbackHeight currentHeight height)
        else bindE (rollback_included E d height aggregator ops) (\<lambda>ops.
             bindE (rollback_loop E d currentHeight height ops) (\<lambda>ops.
               Batch_Put E d ops (ds_NewKey (s_ds E) getHeightKey) (encodeHeight height))))))"

section \<open>Pruning\<close>

text \<open>A batch delete whose error is \<open>ErrNotFound\<close> is passed over.\<close>

definition Batch_Delete_lenient :: "('d, 'k) store_env \<Rightarrow> 'd \<Rightarrow> string \<Rightarrow> ds_op list \<Rightarrow> store_error + ds_op list" where
  "Batch_Delete_lenient E d key ops =
     (case Batch_Delete E d ops (ds_NewKey (s_ds E) key) of
        Inl e \<Rightarrow> if IsNotFound e then Inr ops else Inl e
      | Inr ops' \<Rightarrow> Inr ops')"

definition prune_one :: "('d, 'k) store_env \<Rightarrow> 'd \<Rightarrow> u64 \<Rightarrow> ds_op list \<Rightarrow> store_error + ds_op list" where
  "prune_one E d h ops =
     (case db_Get E d (getHeaderKey h) of
        Inl e \<Rightarrow> if IsNotFound e then Inr ops else Inl e
      | Inr headerBlob \<Rightarrow>
          bindE (Batch_Delete_lenient E d (getHeaderKey h) ops) (\<lambda>ops.
          bindE (Batch_Delete_lenient E d (getDataKey h) ops) (\<lambda>ops.
          bindE (Batch_Delete_lenient E d (getSignatureKey h) ops) (\<lambda>ops.
          bindE (Batch_Delete_lenient E d (GetMetaKey (GetHeightToDAHeightHeaderKey h)) ops) (\<lambda>ops.
          bindE (Batch_Delete_lenient E d (GetMetaKey (GetHeightToDAHeightDataKey h)) ops) (\<lambda>ops.
            Batch_Delete_lenient E d (getIndexKey E (c_sha256 (s_crypto E) headerBlob)) ops))))))"

text \<open>The upward loops wrap when the height is the largest \<open>uint64\<close>: not ending is the value \<open>None\<close>.\<close>

partial_function (option) prune_loop ::
  "('d, 'k) store_env \<Rightarrow> 'd \<Rightarrow> (u64 \<Rightarrow> ds_op list \<Rightarrow> store_error + ds_op list) \<Rightarrow> u64 \<Rightarrow> u64 \<Rightarrow> ds_op list \<Rightarrow>
     (store_error + ds_op list) option" where
  "prune_loop E d step h height ops =
     (if h \<le> height
      then (case step h ops of Inl e \<Rightarrow> Some (Inl e) | Inr ops' \<Rightarrow> prune_loop E d step (h + 1) height ops')
      else Some (Inr ops))"

definition PruneBlocks :: "('d, 'k) store_env \<Rightarrow> 'd \<Rightarrow> u64 \<Rightarrow> ('d \<times> store_error option) option" where
  "PruneBlocks E d height =
     (case NewBatch E d of Inl e \<Rightarrow> Some (d, Some e) | Inr ops \<Rightarrow>
     (case getLastPrunedHeight E d LastPrunedBlockHeightKey of Inl e \<Rightarrow> Some (d, Some e) | Inr lastPruned \<Rightarrow>
        if height \<le> lastPruned then Some (d, None)
        else map_option (\<lambda>r. commit_result E d (bindE r (\<lambda>ops.
               Batch_Put E d ops (ds_NewKey (s_ds E) (GetMetaKey LastPrunedBlockHeightKey)) (encodeHeight height))))
             (prune_loop E d (prune_one E d) (lastPruned + 1) height ops)))"

definition PruneStates :: "('d, 'k) store_env \<Rightarrow> 'd \<Rightarrow> u64 \<Rightarrow> ('d \<times> store_error option) option" where
  "PruneStates E d height =
     (case getLastPrunedHeight E d LastPrunedStateHeightKey of Inl e \<Rightarrow> Some (d, Some e) | Inr lastPruned \<Rightarrow>
        if height \<le> lastPruned then Some (d, None)
        else (case NewBatch E d of Inl e \<Rightarrow> Some (d, Some e) | Inr ops \<Rightarrow>
          map_option (\<lambda>r. commit_result E d (bindE r (\<lambda>ops.
            Batch_Put E d ops (ds_NewKey (s_ds E) (GetMetaKey LastPrunedStateHeightKey)) (encodeHeight height))))
          (prune_loop E d (\<lambda>h. Batch_Delete_lenient E d (getStateAtHeightKey h)) (lastPruned + 1) height ops)))"

end
