(* ===== verification/Store_Laws.thy ===== *)
theory Store_Laws
  imports Block_Store Chain
begin

text \<open>
  What the block store promises. The locale \<open>block_store\<close> holds what it relies on (the datastore, the wire
  format, hash strings that are distinct path components); inside it the operations are shown to refine an
  abstract store, a map from heights to blocks, a map from heights to states and a height. \<open>reliable_store\<close>
  adds that nothing fails, and proves that what is saved is what is read.
\<close>

section \<open>Keys\<close>

lemma key_forms:
  "getHeaderKey h = ''/h/'' @ FormatUint h" "getDataKey h = ''/d/'' @ FormatUint h"
  "getSignatureKey h = ''/c/'' @ FormatUint h" "getStateAtHeightKey h = ''/s/'' @ FormatUint h"
  "GetMetaKey k = ''/m/'' @ k" "getIndexKey E b = ''/i/'' @ s_hashString E b" "getHeightKey = ''/t''"
  by (simp_all add: getHeaderKey_def getDataKey_def getSignatureKey_def getStateAtHeightKey_def heightKey_def
      GetMetaKey_def getIndexKey_def getHeightKey_def GenerateKey_def)

lemma FormatUint_chars: "CHR ''/'' \<notin> set (FormatUint h)" "clean_comp (FormatUint h)"
  using decimal_plain [of _ "unat h"] by (auto simp: FormatUint_def clean_comp_def)

lemma clean_two:
  "\<lbrakk>clean_comp c; CHR ''/'' \<notin> set c; list_all clean_comp (path_comps k)\<rbrakk> \<Longrightarrow> clean_path (CHR ''/'' # c @ CHR ''/'' # k)"
  by (simp add: clean_path_def path_comps_append)

definition meta_clean :: "string \<Rightarrow> bool" where
  "meta_clean k \<longleftrightarrow> list_all clean_comp (path_comps k)"

lemma clean_height_keys:
  "clean_path (getHeaderKey h)" "clean_path (getDataKey h)" "clean_path (getSignatureKey h)"
  "clean_path (getStateAtHeightKey h)" "clean_path getHeightKey"
  using clean_two [of "''h''" "FormatUint h"] clean_two [of "''d''" "FormatUint h"] clean_two [of "''c''" "FormatUint h"]
    clean_two [of "''s''" "FormatUint h"] FormatUint_chars [of h]
  by (simp_all add: key_forms path_comps_plain clean_comp_def clean_path_def)

lemma clean_meta_key: "meta_clean k \<Longrightarrow> clean_path (GetMetaKey k)"
  using clean_two [of "''m''" k] by (simp add: key_forms meta_clean_def clean_comp_def)

lemma meta_clean_keys:
  "meta_clean DAIncludedHeightKey" "meta_clean LastPrunedBlockHeightKey" "meta_clean LastPrunedStateHeightKey"
  "meta_clean (GetHeightToDAHeightHeaderKey h)" "meta_clean (GetHeightToDAHeightDataKey h)"
  using path_comps_append [of "''rhb''" "FormatUint h @ ''/h''"] path_comps_append [of "FormatUint h" "''h''"]
    path_comps_append [of "''rhb''" "FormatUint h @ ''/d''"] path_comps_append [of "FormatUint h" "''d''"] FormatUint_chars [of h]
  by (simp_all add: meta_clean_def meta_keys GetHeightToDAHeightHeaderKey_def GetHeightToDAHeightDataKey_def clean_comp_def)

section \<open>The abstract store\<close>

record chain_store =
  cs_blocks :: "u64 \<rightharpoonup> bytes \<times> bytes \<times> bytes"
  cs_states :: "u64 \<rightharpoonup> bytes"
  cs_height :: u64

definition blocks_of :: "(string \<rightharpoonup> bytes) \<Rightarrow> u64 \<rightharpoonup> bytes \<times> bytes \<times> bytes" where
  "blocks_of m h = (case (m (getHeaderKey h), m (getDataKey h), m (getSignatureKey h)) of
     (Some hb, Some db, Some sig) \<Rightarrow> Some (hb, db, sig) | _ \<Rightarrow> None)"

definition height_of :: "(string \<rightharpoonup> bytes) \<Rightarrow> u64" where
  "height_of m = (case m getHeightKey of None \<Rightarrow> 0 | Some b \<Rightarrow> Uint64_LE b)"

definition abs_store :: "(string \<rightharpoonup> bytes) \<Rightarrow> chain_store" where
  "abs_store m = \<lparr>cs_blocks = blocks_of m, cs_states = (\<lambda>h. m (getStateAtHeightKey h)), cs_height = height_of m\<rparr>"

definition block_keys :: "('d, 'k) store_env \<Rightarrow> (string \<rightharpoonup> bytes) \<Rightarrow> u64 \<Rightarrow> string set" where
  "block_keys E m h = {getHeaderKey h, getDataKey h, getSignatureKey h} \<union>
     (case m (getHeaderKey h) of None \<Rightarrow> {} | Some b \<Rightarrow> {getIndexKey E (c_sha256 (s_crypto E) b)})"

definition prune_keys :: "('d, 'k) store_env \<Rightarrow> (string \<rightharpoonup> bytes) \<Rightarrow> u64 \<Rightarrow> string set" where
  "prune_keys E m h = (if m (getHeaderKey h) = None then {} else block_keys E m h \<union>
     {GetMetaKey (GetHeightToDAHeightHeaderKey h), GetMetaKey (GetHeightToDAHeightDataKey h)})"

text \<open>Both pruning functions commit \<open>prune_run\<close> over the heights after the last pruned one; \<open>pruned_view\<close> says what
  the store then holds: an error changed nothing, and otherwise the keys \<open>K h\<close> of these heights are gone and the
  marker is the new height.\<close>

definition prune_run :: "('d, 'k) store_env \<Rightarrow> string \<Rightarrow> 'd \<Rightarrow> (u64 \<Rightarrow> ds_op list \<Rightarrow> store_error + ds_op list) \<Rightarrow> u64 \<Rightarrow> u64 \<Rightarrow>
    ('d \<times> store_error option) option" where
  "prune_run E key d step l n = map_option (\<lambda>r. commit_result E d (bindE r (\<lambda>ops.
      Batch_Put E d ops (ds_NewKey (s_ds E) (GetMetaKey key)) (encodeHeight n))))
      (prune_loop E d step (l + 1) n [])"

definition pruned_view :: "('d, 'k) store_env \<Rightarrow> ('d \<Rightarrow> (string \<rightharpoonup> bytes)) \<Rightarrow> string \<Rightarrow> (u64 \<Rightarrow> string set) \<Rightarrow> 'd \<Rightarrow> u64 \<Rightarrow>
    'd \<times> store_error option \<Rightarrow> bool" where
  "pruned_view E view key K d n r \<longleftrightarrow>
     (snd r \<noteq> None \<longrightarrow> view (fst r) = view d) \<and>
     (snd r = None \<longrightarrow> (\<exists>l. getLastPrunedHeight E d key = Inr l \<and>
        (n \<le> l \<and> fst r = d \<or> l < n \<and> view (fst r) =
           (\<lambda>k. if k \<in> (\<Union>x \<in> {x. l < x \<and> x \<le> n}. K x) then None else view d k)(GetMetaKey key \<mapsto> encodeHeight n))))"

lemma other_key_not_block [simp]:
  "getStateAtHeightKey h \<notin> block_keys E m h'" "GetMetaKey k \<notin> block_keys E m h'" "getHeightKey \<notin> block_keys E m h'"
  by (simp_all add: block_keys_def key_forms split: option.splits)

lemma key_distinct [simp]:
  "getStateAtHeightKey h = getStateAtHeightKey h' \<longleftrightarrow> h = h'" "GetMetaKey k = GetMetaKey k' \<longleftrightarrow> k = k'"
  "getStateAtHeightKey h \<noteq> GetMetaKey k" "GetMetaKey k \<noteq> getStateAtHeightKey h"
  "getHeightKey \<noteq> GetMetaKey k" "GetMetaKey k \<noteq> getHeightKey"
  "getHeightKey \<noteq> getStateAtHeightKey h" "getStateAtHeightKey h \<noteq> getHeightKey"
  by (simp_all add: key_forms)

locale block_store = datastore_laws "s_ds E" view + wire_laws "s_wire E" "s_codec E" "s_crypto E"
  for E :: "('d, 'k) store_env" and view :: "'d \<Rightarrow> (string \<rightharpoonup> bytes)" +
  assumes hash_string_inj: "s_hashString E a = s_hashString E b \<Longrightarrow> a = b"
    and hash_string_clean: "a \<noteq> [] \<Longrightarrow> clean_comp (s_hashString E a) \<and> CHR ''/'' \<notin> set (s_hashString E a)"
    and sha256_nonempty: "c_sha256 (s_crypto E) x \<noteq> []"
    and batch_add_found: "ds_BatchAdd (s_ds E) d ops oper \<noteq> Some ErrNotFound"
begin

lemma clean_index_key: "clean_path (getIndexKey E (c_sha256 (s_crypto E) b))"
  using clean_two [of "''i''" "s_hashString E (c_sha256 (s_crypto E) b)"] hash_string_clean [OF sha256_nonempty, of b]
  by (simp add: key_forms path_comps_plain clean_comp_def)

lemmas new_key = newKey_clean [OF clean_height_keys(1)] newKey_clean [OF clean_height_keys(2)]
  newKey_clean [OF clean_height_keys(3)] newKey_clean [OF clean_height_keys(4)] newKey_clean [OF clean_height_keys(5)]
  newKey_clean [OF clean_index_key] newKey_clean [OF clean_meta_key]

lemma db_Get_view: "clean_path k \<Longrightarrow> db_Get E d k = Inr v \<Longrightarrow> view d k = Some v"
  using get_found by (simp add: db_Get_def newKey_clean)

lemma db_Get_missing: "clean_path k \<Longrightarrow> db_Get E d k = Inl e \<Longrightarrow> IsNotFound e \<Longrightarrow> view d k = None"
  using get_missing by (auto simp: db_Get_def newKey_clean IsNotFound_def mapE_def split: sum.splits)

lemma Height_view: "Height E d = Inr n \<Longrightarrow> height_of (view d) = n"
  using db_Get_view [of getHeightKey d] db_Get_missing [of getHeightKey d] clean_height_keys(5)
  by (auto simp: Height_def height_of_def decodeHeight_def split: sum.splits if_splits)

lemma Batch_Put_Inr: "Batch_Put E d ops k v = Inr ops' \<Longrightarrow> ops' = ops @ [DPut k v]"
  by (simp add: Batch_Put_def check_eq_Inr)

lemma Batch_Delete_Inr: "Batch_Delete E d ops k = Inr ops' \<Longrightarrow> ops' = ops @ [DDelete k]"
  by (simp add: Batch_Delete_def check_eq_Inr)

lemma Batch_Delete_lenient_Inr:
  "Batch_Delete_lenient E d k ops = Inr ops' \<Longrightarrow> clean_path k \<Longrightarrow> ops' = ops @ [DDelete k]"
  using batch_add_found [of d ops "DDelete k"]
  by (cases "ds_BatchAdd (s_ds E) d ops (DDelete k)")
    (simp_all add: Batch_Delete_lenient_def newKey_clean Batch_Delete_def IsNotFound_def)

lemma Commit_view:
  assumes "Commit E d ops = (d', r)"
  shows "r = None \<Longrightarrow> view d' = apply_ops (view d) ops" and "r \<noteq> None \<Longrightarrow> view d' = view d"
  using assms commit_ok commit_failed by (auto simp: Commit_def Let_def split: prod.splits)

lemma commit_result_view:
  assumes "commit_result E d res = (d', r)"
  shows "r = None \<Longrightarrow> \<exists>ops. res = Inr ops \<and> view d' = apply_ops (view d) ops" and "r \<noteq> None \<Longrightarrow> view d' = view d"
  using assms Commit_view by (auto simp: commit_result_def split: sum.splits)

section \<open>Rollback\<close>

lemma rollback_one_ops:
  assumes "rollback_one E d h ops = Inr ops'"
  shows "\<exists>ks. ops' = ops @ map DDelete ks \<and> set ks = insert (getStateAtHeightKey h) (block_keys E (view d) h)"
proof -
  obtain b where b: "db_Get E d (getHeaderKey h) = Inr b"
    and o: "ops' = ops @ map DDelete [getHeaderKey h, getDataKey h, getSignatureKey h,
      getIndexKey E (c_sha256 (s_crypto E) b), getStateAtHeightKey h]"
    using assms by (auto simp: rollback_one_def new_key bindE_eq_Inr dest!: Batch_Delete_Inr)
  have "view d (getHeaderKey h) = Some b" using db_Get_view [OF clean_height_keys(1) b] .
  then have "set [getHeaderKey h, getDataKey h, getSignatureKey h, getIndexKey E (c_sha256 (s_crypto E) b),
      getStateAtHeightKey h] = insert (getStateAtHeightKey h) (block_keys E (view d) h)"
    by (auto simp: block_keys_def)
  with o show ?thesis by blast
qed

lemma u64_interval_down: "(n :: u64) < c \<Longrightarrow> {h. n < h \<and> h \<le> c} = insert c {h. n < h \<and> h \<le> c - 1}"
proof -
  assume "n < c"
  then have "unat (c - 1) = unat c - 1" using unat_sub_no_wrap [of 1 c] by (simp add: u64_order)
  with \<open>n < c\<close> show ?thesis by (auto simp: u64_order)
qed

lemma rollback_loop_ops:
  "rollback_loop E d c n ops = Inr ops' \<Longrightarrow>
     \<exists>ks. ops' = ops @ map DDelete ks \<and>
       set ks = (\<Union>h \<in> {h. n < h \<and> h \<le> c}. insert (getStateAtHeightKey h) (block_keys E (view d) h))"
proof (induction "unat c" arbitrary: c ops rule: less_induct)
  case less
  show ?case
  proof (cases "n < c")
    case False
    with less.prems have "ops' = ops @ map DDelete []" by (simp add: rollback_loop.simps)
    moreover have "{h. n < h \<and> h \<le> c} = {}" using False by auto
    ultimately show ?thesis by (intro exI [of _ "[]"]) simp
  next
    case True
    obtain o1 where o1: "rollback_one E d c ops = Inr o1" and r: "rollback_loop E d (c - 1) n o1 = Inr ops'"
      using less.prems True by (subst (asm) rollback_loop.simps) (auto simp: bindE_eq_Inr)
    obtain ks1 where "o1 = ops @ map DDelete ks1" "set ks1 = insert (getStateAtHeightKey c) (block_keys E (view d) c)"
      using rollback_one_ops [OF o1] by blast
    moreover have "unat (c - 1) < unat c" using True u64_pred_less by (simp add: u64_less_iff)
    from less.hyps [OF this r] obtain ks where "ops' = o1 @ map DDelete ks"
      "set ks = (\<Union>h \<in> {h. n < h \<and> h \<le> c - 1}. insert (getStateAtHeightKey h) (block_keys E (view d) h))" by blast
    ultimately show ?thesis
      by (intro exI [of _ "ks1 @ ks"]) (simp add: u64_interval_down [OF True])
  qed
qed

text \<open>What a store without the keys \<open>K\<close> looks like, \<open>K\<close> being the keys of the blocks in \<open>B\<close> and of the states in \<open>S\<close>.\<close>

lemma blocks_of_delete:
  assumes "\<And>h. h \<in> B \<Longrightarrow> getHeaderKey h \<in> K"
    and "K \<subseteq> (\<Union>h \<in> B. block_keys E m h) \<union> range getStateAtHeightKey \<union> range GetMetaKey"
  shows "blocks_of (\<lambda>k. if k \<in> K then None else m k) = blocks_of m |` (- B)"
proof
  fix h
  show "blocks_of (\<lambda>k. if k \<in> K then None else m k) h = (blocks_of m |` (- B)) h"
  proof (cases "h \<in> B")
    case True
    with assms(1) show ?thesis by (simp add: blocks_of_def)
  next
    case False
    then have "getHeaderKey h \<notin> K" "getDataKey h \<notin> K" "getSignatureKey h \<notin> K"
      using assms(2) by (auto simp: block_keys_def key_forms dest!: subsetD split: option.splits)
    with False show ?thesis by (simp add: blocks_of_def)
  qed
qed

lemma abs_other_keys:
  "abs_store (m(GetMetaKey k := v)) = abs_store m"
  "blocks_of (m(getHeightKey := v)) = blocks_of m" "blocks_of (m(GetMetaKey k := v)) = blocks_of m"
  "block_keys E (m(GetMetaKey k := v)) = block_keys E m"
  by (simp_all add: abs_store_def blocks_of_def height_of_def block_keys_def key_forms fun_eq_iff)

lemma rollback_included_view:
  assumes "rollback_included E d n agg [] = Inr ops"
  shows "apply_ops (view d) ops = view d \<or> (\<exists>v. apply_ops (view d) ops = (view d)(GetMetaKey DAIncludedHeightKey \<mapsto> v))"
  using assms meta_clean_keys(1)
  by (auto simp: rollback_included_def new_key split: sum.splits if_splits dest!: Batch_Put_Inr)

lemma Rollback_view:
  assumes "Rollback E d n agg = (d', None)"
  obtains c m ks where "Height E d = Inr c" "n < c"
    "m = view d \<or> (\<exists>v. m = (view d)(GetMetaKey DAIncludedHeightKey \<mapsto> v))"
    "set ks = (\<Union>h \<in> {h. n < h \<and> h \<le> c}. insert (getStateAtHeightKey h) (block_keys E (view d) h))"
    "view d' = (\<lambda>k. if k \<in> set ks then None else m k)(getHeightKey \<mapsto> encodeHeight n)"
proof -
  let ?batch = "bindE (NewBatch E d) (\<lambda>ops. bindE (Height E d) (\<lambda>currentHeight.
        if currentHeight \<le> n then Inl (ErrRollbackHeight currentHeight n)
        else bindE (rollback_included E d n agg ops) (\<lambda>ops. bindE (rollback_loop E d currentHeight n ops) (\<lambda>ops.
               Batch_Put E d ops (ds_NewKey (s_ds E) getHeightKey) (encodeHeight n)))))"
  obtain ops where b: "?batch = Inr ops" and v: "view d' = apply_ops (view d) ops"
    using commit_result_view(1) [of d ?batch d' None] assms unfolding Rollback_def by blast
  obtain c o1 o2 where c: "Height E d = Inr c" "n < c" and o1: "rollback_included E d n agg [] = Inr o1"
    and o2: "rollback_loop E d c n o1 = Inr o2" and o3: "ops = o2 @ [DPut getHeightKey (encodeHeight n)]"
    using b by (auto simp: bindE_eq_Inr NewBatch_def check_eq_Inr new_key split: if_splits dest!: Batch_Put_Inr)
  obtain ks where "o2 = o1 @ map DDelete ks"
    and ks: "set ks = (\<Union>h \<in> {h. n < h \<and> h \<le> c}. insert (getStateAtHeightKey h) (block_keys E (view d) h))"
    using rollback_loop_ops [OF o2] by blast
  with v o3 have "view d' = (\<lambda>k. if k \<in> set ks then None else apply_ops (view d) o1 k)(getHeightKey \<mapsto> encodeHeight n)"
    by (simp add: apply_ops_deletes)
  with c ks rollback_included_view [OF o1] that show ?thesis by blast
qed

lemma Rollback_refines:
  assumes "Rollback E d n agg = (d', None)"
  shows "\<exists>c. Height E d = Inr c \<and> n < c \<and>
    abs_store (view d') = \<lparr>cs_blocks = cs_blocks (abs_store (view d)) |` (- {h. n < h \<and> h \<le> c}),
      cs_states = cs_states (abs_store (view d)) |` (- {h. n < h \<and> h \<le> c}), cs_height = n\<rparr>"
proof -
  obtain c m ks where c: "Height E d = Inr c" "n < c"
    and m: "m = view d \<or> (\<exists>v. m = (view d)(GetMetaKey DAIncludedHeightKey \<mapsto> v))"
    and ks: "set ks = (\<Union>h \<in> {h. n < h \<and> h \<le> c}. insert (getStateAtHeightKey h) (block_keys E (view d) h))"
    and v: "view d' = (\<lambda>k. if k \<in> set ks then None else m k)(getHeightKey \<mapsto> encodeHeight n)"
    using Rollback_view [OF assms] by blast
  have "block_keys E m = block_keys E (view d)" "blocks_of m = blocks_of (view d)"
    using m by (auto simp: abs_other_keys)
  moreover have "m (getStateAtHeightKey h) = view d (getStateAtHeightKey h)" for h
    using m by (auto simp: key_forms)
  ultimately have k: "block_keys E m = block_keys E (view d)" "blocks_of m = blocks_of (view d)"
    "\<And>h. m (getStateAtHeightKey h) = view d (getStateAtHeightKey h)" by blast+
  let ?B = "{h. n < h \<and> h \<le> c}"
  have "blocks_of (\<lambda>k. if k \<in> set ks then None else m k) = blocks_of m |` (- ?B)"
  proof (rule blocks_of_delete)
    show "getHeaderKey h \<in> set ks" if "h \<in> ?B" for h unfolding ks block_keys_def using that by blast
    show "set ks \<subseteq> (\<Union>h \<in> ?B. block_keys E m h) \<union> range getStateAtHeightKey \<union> range GetMetaKey"
      unfolding ks k(1) by blast
  qed
  then have "blocks_of (view d') = blocks_of (view d) |` (- ?B)" by (simp add: v abs_other_keys k)
  moreover have "getStateAtHeightKey h \<in> set ks \<longleftrightarrow> n < h \<and> h \<le> c" for h
    by (auto simp: ks)
  then have "(\<lambda>h. view d' (getStateAtHeightKey h)) = (\<lambda>h. view d (getStateAtHeightKey h)) |` (- {h. n < h \<and> h \<le> c})"
    by (simp add: v fun_eq_iff restrict_map_def k)
  moreover have "height_of (view d') = n" by (simp add: v height_of_def encodeHeight_def)
  ultimately show ?thesis using c by (simp add: abs_store_def)
qed

lemma Rollback_failed: "Rollback E d n agg = (d', Some e) \<Longrightarrow> view d' = view d"
  unfolding Rollback_def by (rule commit_result_view(2)) auto

lemma Rollback_keeps_metadata:
  assumes "Rollback E d n agg = (d', None)" and "k \<noteq> DAIncludedHeightKey"
  shows "view d' (GetMetaKey k) = view d (GetMetaKey k)"
proof -
  obtain c m ks where "Height E d = Inr c" "n < c" and m: "m = view d \<or> (\<exists>v. m = (view d)(GetMetaKey DAIncludedHeightKey \<mapsto> v))"
    and ks: "set ks = (\<Union>h \<in> {h. n < h \<and> h \<le> c}. insert (getStateAtHeightKey h) (block_keys E (view d) h))"
    and v: "view d' = (\<lambda>k. if k \<in> set ks then None else m k)(getHeightKey \<mapsto> encodeHeight n)"
    using Rollback_view [OF assms(1)] by blast
  have "GetMetaKey k \<notin> set ks" by (simp add: ks)
  then show ?thesis using m assms(2) by (auto simp: v)
qed

section \<open>Pruning\<close>

lemma u64_interval_up: "(h :: u64) \<le> n \<Longrightarrow> n < - 1 \<Longrightarrow> {x. h \<le> x \<and> x \<le> n} = insert h {x. h + 1 \<le> x \<and> x \<le> n}"
  using unat_Suc_u64 [of h "- 1"] by (auto simp: u64_order)

lemma prune_loop_returns: "n < - 1 \<Longrightarrow> prune_loop E d step h n ops \<noteq> None"
proof (induction "Suc (unat n) - unat h" arbitrary: h ops)
  case 0
  then show ?case by (subst prune_loop.simps) (simp add: u64_le_iff)
next
  case (Suc k)
  then have "h \<le> n" by (simp add: u64_le_iff)
  then have "unat (h + 1) = Suc (unat h)" using Suc.prems unat_Suc_u64 [of h "- 1"] by simp
  then have "k = Suc (unat n) - unat (h + 1)" using Suc.hyps(2) by simp
  with Suc.hyps(1) [of "h + 1"] Suc.prems show ?case
    by (subst prune_loop.simps) (auto split: sum.splits)
qed

lemma prune_loop_ops:
  assumes "n < - 1" and step: "\<And>h ops ops'. step h ops = Inr ops' \<Longrightarrow> \<exists>ks. ops' = ops @ map DDelete ks \<and> set ks = K h"
  shows "prune_loop E d step h n ops = Some (Inr ops') \<Longrightarrow>
    \<exists>ks. ops' = ops @ map DDelete ks \<and> set ks = (\<Union>x \<in> {x. h \<le> x \<and> x \<le> n}. K x)"
proof (induction "Suc (unat n) - unat h" arbitrary: h ops)
  case 0
  then have "\<not> h \<le> n" by (simp add: u64_le_iff)
  moreover from this have "{x. h \<le> x \<and> x \<le> n} = {}" by auto
  ultimately show ?case using 0 by (subst (asm) prune_loop.simps) (auto intro: exI [of _ "[]"])
next
  case (Suc k)
  then have le: "h \<le> n" by (simp add: u64_le_iff)
  then have "unat (h + 1) = Suc (unat h)" using assms(1) unat_Suc_u64 [of h "- 1"] by simp
  then have k: "k = Suc (unat n) - unat (h + 1)" using Suc.hyps(2) by simp
  obtain o1 where o1: "step h ops = Inr o1" and r: "prune_loop E d step (h + 1) n o1 = Some (Inr ops')"
    using Suc.prems le by (subst (asm) prune_loop.simps) (auto split: sum.splits)
  obtain ks1 where "o1 = ops @ map DDelete ks1" "set ks1 = K h" using step [OF o1] by blast
  moreover obtain ks where "ops' = o1 @ map DDelete ks" "set ks = (\<Union>x \<in> {x. h + 1 \<le> x \<and> x \<le> n}. K x)"
    using Suc.hyps(1) [OF k r] by blast
  ultimately show ?case
    by (intro exI [of _ "ks1 @ ks"]) (simp add: u64_interval_up [OF le assms(1)])
qed

lemma prune_one_ops:
  assumes "prune_one E d h ops = Inr ops'"
  shows "\<exists>ks. ops' = ops @ map DDelete ks \<and> set ks = prune_keys E (view d) h"
proof (cases "db_Get E d (getHeaderKey h)")
  case (Inl e)
  then have "ops' = ops" "IsNotFound e" using assms by (auto simp: prune_one_def split: if_splits)
  moreover from db_Get_missing [OF clean_height_keys(1) Inl this(2)]
  have "prune_keys E (view d) h = {}" by (simp add: prune_keys_def)
  ultimately show ?thesis by (intro exI [of _ "[]"]) simp
next
  case (Inr b)
  let ?ks = "[getHeaderKey h, getDataKey h, getSignatureKey h, GetMetaKey (GetHeightToDAHeightHeaderKey h),
    GetMetaKey (GetHeightToDAHeightDataKey h), getIndexKey E (c_sha256 (s_crypto E) b)]"
  have "ops' = ops @ map DDelete ?ks"
    using assms Inr clean_height_keys clean_index_key clean_meta_key meta_clean_keys
    by (auto simp: prune_one_def bindE_eq_Inr dest!: Batch_Delete_lenient_Inr)
  moreover have "set ?ks = prune_keys E (view d) h"
    using db_Get_view [OF clean_height_keys(1) Inr] by (auto simp: prune_keys_def block_keys_def)
  ultimately show ?thesis by blast
qed

lemma u64_after: "(l :: u64) < n \<Longrightarrow> {x. l + 1 \<le> x \<and> x \<le> n} = {x. l < x \<and> x \<le> n}"
  using unat_Suc_u64 [of l n] by (auto simp: u64_order)

lemma prune_commit:
  assumes "n < - 1" and "l < n" and "meta_clean key"
    and step: "\<And>h ops ops'. step h ops = Inr ops' \<Longrightarrow> \<exists>ks. ops' = ops @ map DDelete ks \<and> set ks = K h"
    and r: "map_option (\<lambda>r. commit_result E d (bindE r (\<lambda>ops.
      Batch_Put E d ops (ds_NewKey (s_ds E) (GetMetaKey key)) (encodeHeight n))))
      (prune_loop E d step (l + 1) n []) = Some (d', res)"
  shows "res = None \<Longrightarrow> view d' = (\<lambda>k. if k \<in> (\<Union>x \<in> {x. l < x \<and> x \<le> n}. K x) then None else view d k)
      (GetMetaKey key \<mapsto> encodeHeight n)"
    and "res \<noteq> None \<Longrightarrow> view d' = view d"
proof -
  obtain lp where lp: "prune_loop E d step (l + 1) n [] = Some lp"
    and c: "commit_result E d (bindE lp (\<lambda>ops. Batch_Put E d ops (GetMetaKey key) (encodeHeight n))) = (d', res)"
    using r assms(3) by (auto simp: new_key)
  show "res \<noteq> None \<Longrightarrow> view d' = view d" using commit_result_view(2) [OF c] .
  assume "res = None"
  then obtain o1 where "lp = Inr o1" and v: "view d' = apply_ops (view d) (o1 @ [DPut (GetMetaKey key) (encodeHeight n)])"
    using commit_result_view(1) [OF c] by (auto simp: bindE_eq_Inr dest!: Batch_Put_Inr)
  then obtain ks where "o1 = map DDelete ks" "set ks = (\<Union>x \<in> {x. l + 1 \<le> x \<and> x \<le> n}. K x)"
    using prune_loop_ops [where step = step and K = K and ops = "[]", OF assms(1) step, simplified] lp by blast
  with v show "view d' = (\<lambda>k. if k \<in> (\<Union>x \<in> {x. l < x \<and> x \<le> n}. K x) then None else view d k)
      (GetMetaKey key \<mapsto> encodeHeight n)"
    by (simp add: apply_ops_deletes u64_after [OF assms(2)])
qed

lemma Prune_returns: "n < - 1 \<Longrightarrow> PruneBlocks E d n \<noteq> None" "n < - 1 \<Longrightarrow> PruneStates E d n \<noteq> None"
  by (simp_all add: PruneBlocks_def PruneStates_def prune_loop_returns del: not_None_eq split: sum.splits)

lemma NewBatch_Inr: "NewBatch E d = Inr ops \<Longrightarrow> ops = []"
  by (simp add: NewBatch_def check_eq_Inr)

lemma Prune_eq:
  "PruneBlocks E d n = (case NewBatch E d of Inl e \<Rightarrow> Some (d, Some e) | Inr ops \<Rightarrow>
     (case getLastPrunedHeight E d LastPrunedBlockHeightKey of Inl e \<Rightarrow> Some (d, Some e) | Inr l \<Rightarrow>
        if n \<le> l then Some (d, None) else prune_run E LastPrunedBlockHeightKey d (prune_one E d) l n))"
  "PruneStates E d n = (case getLastPrunedHeight E d LastPrunedStateHeightKey of Inl e \<Rightarrow> Some (d, Some e) | Inr l \<Rightarrow>
        if n \<le> l then Some (d, None) else (case NewBatch E d of Inl e \<Rightarrow> Some (d, Some e) | Inr ops \<Rightarrow>
          prune_run E LastPrunedStateHeightKey d (\<lambda>h. Batch_Delete_lenient E d (getStateAtHeightKey h)) l n))"
  unfolding PruneBlocks_def PruneStates_def prune_run_def
  by (auto dest!: NewBatch_Inr split: sum.split)

lemma prune_run_view:
  assumes "n < - 1" and "l < n" and "meta_clean key" and "getLastPrunedHeight E d key = Inr l"
    and step: "\<And>h ops ops'. step h ops = Inr ops' \<Longrightarrow> \<exists>ks. ops' = ops @ map DDelete ks \<and> set ks = K h"
    and "prune_run E key d step l n = Some r"
  shows "pruned_view E view key K d n r"
  using prune_commit [OF assms(1-3) step, of step] assms(2,4,6)
  by (cases r) (auto simp: pruned_view_def prune_run_def)

lemma PruneBlocks_view:
  assumes "n < - 1" and "PruneBlocks E d n = Some r"
  shows "pruned_view E view LastPrunedBlockHeightKey (prune_keys E (view d)) d n r"
  using assms(2) prune_run_view [OF assms(1) _ meta_clean_keys(2) _ prune_one_ops]
  unfolding Prune_eq by (auto simp: pruned_view_def not_le split: sum.splits if_splits)

lemma PruneStates_view:
  assumes "n < - 1" and "PruneStates E d n = Some r"
  shows "pruned_view E view LastPrunedStateHeightKey (\<lambda>h. {getStateAtHeightKey h}) d n r"
proof -
  have "\<exists>ks. ops' = ops @ map DDelete ks \<and> set ks = {getStateAtHeightKey h}"
    if "Batch_Delete_lenient E d (getStateAtHeightKey h) ops = Inr ops'" for h ops ops'
    using Batch_Delete_lenient_Inr [OF that clean_height_keys(4)] by (intro exI [of _ "[getStateAtHeightKey h]"]) simp
  from prune_run_view [OF assms(1) _ meta_clean_keys(3) _ this] assms(2) show ?thesis
    unfolding Prune_eq by (auto simp: pruned_view_def not_le split: sum.splits if_splits)
qed

lemma abs_pruned_blocks:
  "abs_store (\<lambda>k. if k \<in> (\<Union>x \<in> B. prune_keys E m x) then None else m k) = (abs_store m)\<lparr>cs_blocks := blocks_of m |` (- B)\<rparr>"
proof -
  let ?K = "\<Union>x \<in> B. prune_keys E m x" and ?B = "{x \<in> B. m (getHeaderKey x) \<noteq> None}"
  have "blocks_of (\<lambda>k. if k \<in> ?K then None else m k) = blocks_of m |` (- ?B)"
  proof (rule blocks_of_delete)
    show "getHeaderKey h \<in> ?K" if "h \<in> ?B" for h
      using that by (intro UN_I [of h]) (simp_all add: prune_keys_def block_keys_def)
    show "?K \<subseteq> (\<Union>h \<in> ?B. block_keys E m h) \<union> range getStateAtHeightKey \<union> range GetMetaKey"
      by (auto simp: prune_keys_def)
  qed
  also have "\<dots> = blocks_of m |` (- B)"
    by (auto simp: restrict_map_def blocks_of_def fun_eq_iff split: option.splits)
  finally have "blocks_of (\<lambda>k. if k \<in> ?K then None else m k) = blocks_of m |` (- B)" .
  moreover have "getStateAtHeightKey h \<notin> ?K" "getHeightKey \<notin> ?K" for h
    by (simp_all add: prune_keys_def)
  ultimately show ?thesis by (simp add: abs_store_def height_of_def)
qed

lemma PruneBlocks_refines:
  assumes "n < - 1" and "PruneBlocks E d n = Some (d', None)"
  shows "\<exists>l. getLastPrunedHeight E d LastPrunedBlockHeightKey = Inr l \<and>
    abs_store (view d') = (abs_store (view d))\<lparr>cs_blocks := cs_blocks (abs_store (view d)) |` (- {h. l < h \<and> h \<le> n})\<rparr>"
proof -
  obtain l where l: "getLastPrunedHeight E d LastPrunedBlockHeightKey = Inr l"
    and v: "n \<le> l \<and> d' = d \<or> l < n \<and> view d' =
           (\<lambda>k. if k \<in> (\<Union>x \<in> {x. l < x \<and> x \<le> n}. prune_keys E (view d) x) then None else view d k)
           (GetMetaKey LastPrunedBlockHeightKey \<mapsto> encodeHeight n)"
    using PruneBlocks_view [OF assms] by (auto simp: pruned_view_def)
  have "abs_store (view d') = (abs_store (view d))\<lparr>cs_blocks := blocks_of (view d) |` (- {h. l < h \<and> h \<le> n})\<rparr>"
  proof (cases "n \<le> l")
    case True
    then have "- {h. l < h \<and> h \<le> n} = UNIV" by auto
    moreover have "d' = d" using True v by auto
    ultimately show ?thesis by (simp add: abs_store_def restrict_map_def)
  next
    case False
    with v have v': "view d' =
           (\<lambda>k. if k \<in> (\<Union>x \<in> {x. l < x \<and> x \<le> n}. prune_keys E (view d) x) then None else view d k)
           (GetMetaKey LastPrunedBlockHeightKey \<mapsto> encodeHeight n)" by blast
    show ?thesis unfolding v' abs_other_keys abs_pruned_blocks ..
  qed
  with l show ?thesis by (simp add: abs_store_def)
qed

lemma PruneStates_refines:
  assumes "n < - 1" and "PruneStates E d n = Some (d', None)"
  shows "\<exists>l. getLastPrunedHeight E d LastPrunedStateHeightKey = Inr l \<and>
    abs_store (view d') = (abs_store (view d))\<lparr>cs_states := cs_states (abs_store (view d)) |` (- {h. l < h \<and> h \<le> n})\<rparr>"
proof -
  obtain l where l: "getLastPrunedHeight E d LastPrunedStateHeightKey = Inr l"
    and v: "n \<le> l \<and> d' = d \<or> l < n \<and> view d' =
           (\<lambda>k. if k \<in> (\<Union>x \<in> {x. l < x \<and> x \<le> n}. {getStateAtHeightKey x}) then None else view d k)
           (GetMetaKey LastPrunedStateHeightKey \<mapsto> encodeHeight n)"
    using PruneStates_view [OF assms] by (auto simp: pruned_view_def)
  let ?m = "\<lambda>k. if k \<in> (\<Union>x \<in> {x. l < x \<and> x \<le> n}. {getStateAtHeightKey x}) then None else view d k"
  have "blocks_of ?m = blocks_of (view d)" "height_of ?m = height_of (view d)"
    by (simp_all add: blocks_of_def height_of_def key_forms fun_eq_iff image_iff)
  moreover have "(\<lambda>h. ?m (getStateAtHeightKey h)) = (\<lambda>h. view d (getStateAtHeightKey h)) |` (- {h. l < h \<and> h \<le> n})"
    by (simp add: restrict_map_def fun_eq_iff)
  ultimately have m: "abs_store ?m = (abs_store (view d))\<lparr>cs_states := (\<lambda>h. view d (getStateAtHeightKey h)) |` (- {h. l < h \<and> h \<le> n})\<rparr>"
    by (simp add: abs_store_def)
  have "abs_store (view d') = (abs_store (view d))\<lparr>cs_states := (\<lambda>h. view d (getStateAtHeightKey h)) |` (- {h. l < h \<and> h \<le> n})\<rparr>"
  proof (cases "n \<le> l")
    case True
    then have "- {h. l < h \<and> h \<le> n} = UNIV" by auto
    moreover have "d' = d" using True v by auto
    ultimately show ?thesis by (simp add: abs_store_def restrict_map_def)
  next
    case False
    with v have v': "view d' = ?m(GetMetaKey LastPrunedStateHeightKey \<mapsto> encodeHeight n)" by blast
    show ?thesis unfolding v' abs_other_keys by (rule m)
  qed
  with l show ?thesis by (simp add: abs_store_def)
qed

section \<open>Saving\<close>

lemma SaveBlockDataFromBytes_ops:
  "SaveBlockDataFromBytes E d ops sh hb db sig = Inr ops' \<Longrightarrow>
    ops' = ops @ [DPut (getHeaderKey (Header_Height (sh_Header sh))) hb, DPut (getDataKey (Header_Height (sh_Header sh))) db,
      DPut (getSignatureKey (Header_Height (sh_Header sh))) sig,
      DPut (getIndexKey E (c_sha256 (s_crypto E) hb)) (encodeHeight (Header_Height (sh_Header sh)))]"
  by (auto simp: SaveBlockDataFromBytes_def Let_def bindE_eq_Inr dest!: Batch_Put_Inr)

lemma SaveBlockData_Inr:
  assumes "SaveBlockData E d ops sh data sig = Inr ops'"
  obtains hb db where "SignedHeader_MarshalBinary (s_crypto E) (s_codec E) (s_wire E) sh = Inr hb"
    and "Data_MarshalBinary (s_codec E) data = Some db" and "SaveBlockDataFromBytes E d ops sh hb db sig = Inr ops'"
  using assms by (auto simp: SaveBlockData_def bindE_eq_Inr check_eq_Inr obytes_def split: if_splits)

lemma SetHeight_ops:
  assumes "SetHeight E d ops n = Inr ops'"
  shows "\<exists>c. Height E d = Inr c \<and> ops' = ops @ (if n \<le> c then [] else [DPut getHeightKey (encodeHeight n)])"
  using assms by (auto simp: SetHeight_def bindE_eq_Inr split: if_splits dest!: Batch_Put_Inr)

lemma UpdateState_ops:
  assumes "UpdateState E d ops st = Inr ops'"
  shows "\<exists>b. State_MarshalBinary (s_codec E) st = Some b \<and> ops' = ops @ [DPut (getStateAtHeightKey (st_LastBlockHeight st)) b]"
  using assms by (auto simp: UpdateState_def split: option.splits dest!: Batch_Put_Inr)

lemma saved_block_view:
  assumes "NewBatch E d = Inr b0" and "SaveBlockDataFromBytes E d b0 sh hb db sig = Inr b1"
    and "SetHeight E d b1 n = Inr b2" and "UpdateState E d b2 st = Inr b3" and "Commit E d b3 = (d', None)"
    and n: "n = Header_Height (sh_Header sh)"
  shows "\<exists>sb. State_MarshalBinary (s_codec E) st = Some sb \<and>
    abs_store (view d') = \<lparr>cs_blocks = (cs_blocks (abs_store (view d)))(n \<mapsto> (hb, db, sig)),
      cs_states = (cs_states (abs_store (view d)))(st_LastBlockHeight st \<mapsto> sb),
      cs_height = max n (cs_height (abs_store (view d)))\<rparr> \<and>
    view d' (getIndexKey E (c_sha256 (s_crypto E) hb)) = Some (encodeHeight n) \<and>
    view d' getHeightKey = (if n \<le> cs_height (abs_store (view d)) then view d getHeightKey else Some (encodeHeight n))"
proof -
  obtain c where c: "Height E d = Inr c" and b2: "b2 = b1 @ (if n \<le> c then [] else [DPut getHeightKey (encodeHeight n)])"
    using SetHeight_ops [OF assms(3)] by blast
  obtain sb where sb: "State_MarshalBinary (s_codec E) st = Some sb"
    and b3: "b3 = b2 @ [DPut (getStateAtHeightKey (st_LastBlockHeight st)) sb]"
    using UpdateState_ops [OF assms(4)] by blast
  have hc: "height_of (view d) = c" using Height_view [OF c] .
  have v: "view d' = apply_ops (view d) b3" using Commit_view(1) [OF assms(5)] by simp
  note ops = v b3 b2 SaveBlockDataFromBytes_ops [OF assms(2)] NewBatch_Inr [OF assms(1)] n
  have keys: "view d' (getHeaderKey h) = (if h = n then Some hb else view d (getHeaderKey h))"
    "view d' (getDataKey h) = (if h = n then Some db else view d (getDataKey h))"
    "view d' (getSignatureKey h) = (if h = n then Some sig else view d (getSignatureKey h))"
    "view d' (getStateAtHeightKey h) = (if h = st_LastBlockHeight st then Some sb else view d (getStateAtHeightKey h))"
    "view d' (getIndexKey E (c_sha256 (s_crypto E) hb)) = Some (encodeHeight n)"
    "view d' getHeightKey = (if n \<le> c then view d getHeightKey else Some (encodeHeight n))" for h
    by (cases "n \<le> c"; simp add: ops key_forms)+
  then have "blocks_of (view d') = (blocks_of (view d))(n \<mapsto> (hb, db, sig))"
    "(\<lambda>h. view d' (getStateAtHeightKey h)) = (\<lambda>h. view d (getStateAtHeightKey h))(st_LastBlockHeight st \<mapsto> sb)"
    by (simp_all add: blocks_of_def fun_eq_iff)
  moreover have "height_of (view d') = max n c"
    using hc keys(6) by (simp add: height_of_def encodeHeight_def max_def)
  ultimately show ?thesis using sb hc keys(5,6) by (simp add: abs_store_def)
qed

end

locale reliable_store = block_store E view + reliable_datastore "s_ds E" view
  for E :: "('d, 'k) store_env" and view :: "'d \<Rightarrow> (string \<rightharpoonup> bytes)"
begin

lemma db_Get_total: "clean_path k \<Longrightarrow> db_Get E d k = (case view d k of None \<Rightarrow> Inl (ErrDs ErrNotFound) | Some v \<Rightarrow> Inr v)"
  by (simp add: db_Get_def newKey_clean get_total split: option.splits)

lemma read_block:
  assumes "cs_blocks (abs_store (view d)) n = Some (hb, db, sig)"
    and "SignedHeader_UnmarshalBinary (s_crypto E) (s_codec E) (s_wire E) newSignedHeader hb = Inr sh"
    and "Data_UnmarshalBinary (s_codec E) db = Inr data"
  shows "GetBlockData E d n = Inr (sh, data)" and "GetSignature E d n = Inr sig" and "GetHeader E d n = Inr sh"
proof -
  have "view d (getHeaderKey n) = Some hb" "view d (getDataKey n) = Some db" "view d (getSignatureKey n) = Some sig"
    using assms(1) by (auto simp: abs_store_def blocks_of_def split: option.splits)
  then show "GetBlockData E d n = Inr (sh, data)" "GetSignature E d n = Inr sig" "GetHeader E d n = Inr sh"
    using assms(2,3) by (simp_all add: GetBlockData_def GetHeader_def GetSignature_def db_Get_total clean_height_keys)
qed

lemma read_by_hash:
  assumes "view d (getIndexKey E (c_sha256 (s_crypto E) b)) = Some (encodeHeight n)"
  shows "GetBlockByHash E d (c_sha256 (s_crypto E) b) = GetBlockData E d n"
    and "GetSignatureByHash E d (c_sha256 (s_crypto E) b) = GetSignature E d n"
  using assms
  by (simp_all add: GetBlockByHash_def GetSignatureByHash_def getHeightByHash_def db_Get_total clean_index_key
      decodeHeight_def encodeHeight_def heightLength_def)

lemma read_height: "Height E d = Inr c \<Longrightarrow> view d' getHeightKey = (if n \<le> c then view d getHeightKey else Some (encodeHeight n)) \<Longrightarrow>
    Height E d' = Inr (max n c)"
  by (auto simp: Height_def db_Get_total clean_height_keys decodeHeight_def encodeHeight_def heightLength_def max_def
      split: option.splits if_splits)

lemma read_state:
  assumes "cs_states (abs_store (view d)) n = Some sb" and "State_MarshalBinary (s_codec E) st = Some sb"
  shows "GetStateAtHeight E d n = Inr st" and "Height E d = Inr n \<Longrightarrow> GetState E d = Inr st"
proof -
  have "view d (getStateAtHeightKey n) = Some sb" using assms(1) by (simp add: abs_store_def)
  then show "GetStateAtHeight E d n = Inr st" "Height E d = Inr n \<Longrightarrow> GetState E d = Inr st"
    using state_codec [of "State_ToProto st" sb] assms(2)
    by (simp_all add: GetStateAtHeight_def GetState_def db_Get_total clean_height_keys decodeState_def State_MarshalBinary_def)
qed

lemma batch_total_ops: "Batch_Put E d ops k v = Inr (ops @ [DPut k v])" "Batch_Delete E d ops k = Inr (ops @ [DDelete k])"
  "NewBatch E d = Inr []"
  by (simp_all add: Batch_Put_def Batch_Delete_def NewBatch_def batchAdd_total batch_total)

lemma Commit_succeeds: "\<exists>d'. Commit E d ops = (d', None)"
  using commit_total [of d ops] by (auto simp: Commit_def Let_def split: prod.splits)

lemma rollback_loop_succeeds:
  "(\<And>h. n < h \<Longrightarrow> h \<le> c \<Longrightarrow> view d (getHeaderKey h) \<noteq> None) \<Longrightarrow> \<exists>ops'. rollback_loop E d c n ops = Inr ops'"
proof (induction "unat c" arbitrary: c ops rule: less_induct)
  case less
  show ?case
  proof (cases "n < c")
    case False
    then show ?thesis by (simp add: rollback_loop.simps)
  next
    case True
    then obtain b where "view d (getHeaderKey c) = Some b" using less.prems [of c] by auto
    then obtain o1 where o1: "rollback_one E d c ops = Inr o1"
      by (simp add: rollback_one_def db_Get_total clean_height_keys batch_total_ops)
    have "c - 1 < c" using u64_pred_less [OF True] .
    then have "\<exists>ops'. rollback_loop E d (c - 1) n o1 = Inr ops'"
      using less.prems by (intro less.hyps) (auto simp: u64_less_iff [symmetric])
    with True o1 show ?thesis by (subst rollback_loop.simps) simp
  qed
qed

lemma Rollback_succeeds:
  assumes "Height E d = Inr c" and "n < c" and "\<And>h. n < h \<Longrightarrow> h \<le> c \<Longrightarrow> view d (getHeaderKey h) \<noteq> None"
    and "\<not> agg \<or> view d (GetMetaKey DAIncludedHeightKey) = None"
  shows "\<exists>d'. Rollback E d n agg = (d', None)"
proof -
  have "\<exists>o1. rollback_included E d n agg [] = Inr o1"
    using assms(4) meta_clean_keys(1)
    by (cases "view d (GetMetaKey DAIncludedHeightKey)")
      (auto simp: rollback_included_def GetMetadata_def db_Get_total clean_meta_key batch_total_ops IsNotFound_def)
  then obtain o1 where o1: "rollback_included E d n agg [] = Inr o1" ..
  obtain o2 where "rollback_loop E d c n o1 = Inr o2" using rollback_loop_succeeds [of n c d o1] assms(3) by blast
  with o1 assms(1,2) show ?thesis
    using Commit_succeeds by (simp add: Rollback_def batch_total_ops commit_result_def)
qed

end

section \<open>The in-memory store\<close>

definition store_on :: "'d datastore \<Rightarrow> ('d, bytes) store_env" where
  "store_on DS = \<lparr>s_ds = DS, s_crypto = plain_crypto, s_codec = pb_codec, s_wire = pb_wire, s_hashString = EncodeToString\<rparr>"

lemma store_on_sel [simp]: "s_ds (store_on DS) = DS" "s_crypto (store_on DS) = plain_crypto" "s_codec (store_on DS) = pb_codec"
  "s_wire (store_on DS) = pb_wire" "s_hashString (store_on DS) = EncodeToString"
  by (simp_all add: store_on_def)

lemma store_on_hash:
  "EncodeToString a = EncodeToString b \<Longrightarrow> a = b"
  "a \<noteq> [] \<Longrightarrow> clean_comp (EncodeToString a) \<and> CHR ''/'' \<notin> set (EncodeToString a)"
  "c_sha256 plain_crypto x \<noteq> []"
proof -
  show "EncodeToString a = EncodeToString b \<Longrightarrow> a = b" by (rule EncodeToString_inj)
  show "a \<noteq> [] \<Longrightarrow> clean_comp (EncodeToString a) \<and> CHR ''/'' \<notin> set (EncodeToString a)"
    using EncodeToString_plain [of _ a]
    by (cases a) (auto simp: clean_comp_def EncodeToString_def hex_byte_def numeral_2_eq_2)
  show "c_sha256 plain_crypto x \<noteq> []" by (simp add: plain_crypto_def)
qed

interpretation mem_store: reliable_store "store_on mem_ds" map_of
  unfolding reliable_store_def block_store_def block_store_axioms_def store_on_sel
  using mem.datastore_laws_axioms mem.reliable_datastore_axioms pb.wire_laws_axioms store_on_hash
  by (auto simp: mem_ds_def)

interpretation faulty_store: block_store "store_on faulty_ds" "\<lambda>s. map_of (fst s)"
  unfolding block_store_def block_store_axioms_def store_on_sel
  using faulty.datastore_laws_axioms pb.wire_laws_axioms store_on_hash
  by (auto simp: faulty_ds_def)

section \<open>Properties\<close>

text \<open>C16: A block that is saved in a batch with its height and state and committed is read back: the header and data by
  height and by the hash of the stored header, the signature, the state at its height, and the store height is the
  larger of the old one and the block's. The abstract store changes at that height only.\<close>

theorem saved_block_is_read:
  assumes "reliable_store E view" and "legacy_small (h_Legacy (sh_Header sh))" and "signer_wf (s_crypto E) (sh_Signer sh)"
    and "NewBatch E d = Inr b0" and "SaveBlockData E d b0 sh data sig = Inr b1"
    and "SetHeight E d b1 n = Inr b2" and "UpdateState E d b2 st = Inr b3" and "Commit E d b3 = (d', None)"
    and n: "n = Header_Height (sh_Header sh)"
  shows "GetBlockData E d' n = Inr (received (s_crypto E) newSignedHeader sh, data) \<and> GetSignature E d' n = Inr sig \<and>
    GetStateAtHeight E d' (st_LastBlockHeight st) = Inr st \<and>
    (\<exists>c. Height E d = Inr c \<and> Height E d' = Inr (max n c)) \<and>
    (\<exists>hb. SignedHeader_MarshalBinary (s_crypto E) (s_codec E) (s_wire E) sh = Inr hb \<and>
       GetBlockByHash E d' (c_sha256 (s_crypto E) hb) = Inr (received (s_crypto E) newSignedHeader sh, data)) \<and>
    (\<forall>h. h \<noteq> n \<longrightarrow> cs_blocks (abs_store (view d')) h = cs_blocks (abs_store (view d)) h)"
proof -
  note bs = reliable_store.axioms(1) [OF assms(1)]
  note wl = block_store.axioms(2) [OF bs]
  obtain hb db where hb: "SignedHeader_MarshalBinary (s_crypto E) (s_codec E) (s_wire E) sh = Inr hb"
    and db: "Data_MarshalBinary (s_codec E) data = Some db" and sv: "SaveBlockDataFromBytes E d b0 sh hb db sig = Inr b1"
    using block_store.SaveBlockData_Inr [OF bs assms(5)] .
  note v = block_store.saved_block_view [OF bs assms(4) sv assms(6-8) n]
  obtain sb where sb: "State_MarshalBinary (s_codec E) st = Some sb"
    and abs: "abs_store (view d') = \<lparr>cs_blocks = (cs_blocks (abs_store (view d)))(n \<mapsto> (hb, db, sig)),
      cs_states = (cs_states (abs_store (view d)))(st_LastBlockHeight st \<mapsto> sb),
      cs_height = max n (cs_height (abs_store (view d)))\<rparr>"
    and ix: "view d' (getIndexKey E (c_sha256 (s_crypto E) hb)) = Some (encodeHeight n)"
    and hk: "view d' getHeightKey = (if n \<le> cs_height (abs_store (view d)) then view d getHeightKey else Some (encodeHeight n))"
    using v by blast
  obtain c where c: "Height E d = Inr c" using block_store.SetHeight_ops [OF bs assms(6)] by blast
  then have "cs_height (abs_store (view d)) = c" using block_store.Height_view [OF bs] by (simp add: abs_store_def)
  with hk c have "Height E d' = Inr (max n c)" using reliable_store.read_height [OF assms(1) c] by simp
  moreover have "GetBlockData E d' n = Inr (received (s_crypto E) newSignedHeader sh, data)" "GetSignature E d' n = Inr sig"
    using reliable_store.read_block [OF assms(1), of d' n hb db sig] abs wire_laws.signed_header_wire [OF wl assms(2,3) hb]
      wire_laws.data_roundtrip [OF wl db] by simp_all
  moreover have "GetStateAtHeight E d' (st_LastBlockHeight st) = Inr st"
    using reliable_store.read_state(1) [OF assms(1) _ sb] abs by simp
  ultimately show ?thesis
    using hb c abs reliable_store.read_by_hash(1) [OF assms(1) ix] by simp
qed

definition ex_state6 :: State where
  "ex_state6 = ex_state\<lparr>st_LastBlockHeight := 6\<rparr>"

lemma ex_state6_marshal: "State_MarshalBinary pb_codec ex_state6 = Some (enc_fields (state_fields (State_ToProto ex_state6)))"
  by (simp add: State_MarshalBinary_def pb_codec_def enc_State_def State_ToProto_def Timestamp_of_def ex_state6_def
      ex_state_def second_def int64_def)

theorem saved_block_is_read_witness:
  "\<exists>d'. GetBlockData (store_on mem_ds) d' 6 = Inr (received plain_crypto newSignedHeader (ex_signed ex_h6), ex_data 6) \<and>
     Height (store_on mem_ds) d' = Inr 6"
proof -
  let ?E = "store_on mem_ds"
  have h: "Height ?E [] = Inr 0"
    using mem_store.db_Get_total [OF clean_height_keys(5), of "[]"] by (simp add: Height_def IsNotFound_def)
  have n: "Header_Height (sh_Header (ex_signed ex_h6)) = 6"
    by (simp add: ex_signed_def ex_h6_def ex_header_def Header_Height_def)
  obtain b1 where b1: "SaveBlockData ?E [] [] (ex_signed ex_h6) (ex_data 6) [1] = Inr b1"
    using ex_marshal [of ex_h6]
    by (simp add: SaveBlockData_def SaveBlockDataFromBytes_def Let_def mem_store.batch_total_ops Data_MarshalBinary_def)
      (simp add: pb_codec_def)
  obtain b2 where b2: "SetHeight ?E [] b1 6 = Inr b2" using h by (simp add: SetHeight_def mem_store.batch_total_ops)
  obtain b3 where b3: "UpdateState ?E [] b2 ex_state6 = Inr b3"
    by (simp add: UpdateState_def ex_state6_marshal mem_store.batch_total_ops)
  obtain d' where "Commit ?E [] b3 = (d', None)" using mem_store.Commit_succeeds by blast
  from saved_block_is_read [OF mem_store.reliable_store_axioms _ _ _ b1 b2 b3 this n [symmetric]]
  show ?thesis
    using ex_small ex_signer_wf h by (auto simp: ex_signed_def ex_h6_def mem_store.batch_total_ops)
qed

text \<open>C17: \<open>Rollback\<close> refines the abstract store: it removes exactly the blocks and states above the target, sets the height
  to the target and keeps all metadata but the DA-included height; when it fails nothing changes, and an aggregator
  never rolls back below a recorded DA-included height.\<close>

theorem rollback_refines:
  assumes "block_store E view" and "Rollback E d n agg = (d', res)"
  shows "(res \<noteq> None \<longrightarrow> view d' = view d) \<and>
    (res = None \<longrightarrow> (\<exists>c. Height E d = Inr c \<and> n < c \<and>
      abs_store (view d') = \<lparr>cs_blocks = cs_blocks (abs_store (view d)) |` (- {h. n < h \<and> h \<le> c}),
        cs_states = cs_states (abs_store (view d)) |` (- {h. n < h \<and> h \<le> c}), cs_height = n\<rparr>) \<and>
      (\<forall>k. k \<noteq> DAIncludedHeightKey \<longrightarrow> view d' (GetMetaKey k) = view d (GetMetaKey k))) \<and>
    (agg \<longrightarrow> (\<exists>b. GetMetadata E d DAIncludedHeightKey = Inr b \<and> length b = 8 \<and> n < Uint64_LE b) \<longrightarrow> res \<noteq> None)"
proof (intro conjI impI)
  show "view d' = view d" if "res \<noteq> None" using that block_store.Rollback_failed [OF assms(1)] assms(2) by auto
  show "\<exists>c. Height E d = Inr c \<and> n < c \<and>
      abs_store (view d') = \<lparr>cs_blocks = cs_blocks (abs_store (view d)) |` (- {h. n < h \<and> h \<le> c}),
        cs_states = cs_states (abs_store (view d)) |` (- {h. n < h \<and> h \<le> c}), cs_height = n\<rparr>" if "res = None"
    using that block_store.Rollback_refines [OF assms(1)] assms(2) by simp
  show "\<forall>k. k \<noteq> DAIncludedHeightKey \<longrightarrow> view d' (GetMetaKey k) = view d (GetMetaKey k)" if "res = None"
    using that block_store.Rollback_keeps_metadata [OF assms(1)] assms(2) by simp
  show "res \<noteq> None" if agg and "\<exists>b. GetMetadata E d DAIncludedHeightKey = Inr b \<and> length b = 8 \<and> n < Uint64_LE b"
  proof -
    have "rollback_included E d n agg ops = Inl ErrRollbackFinalized" for ops
      using that by (auto simp: rollback_included_def)
    then show ?thesis
      using assms(2) by (auto simp: Rollback_def commit_result_def bindE_def split: sum.splits if_splits)
  qed
qed

definition ex_chain :: mem where
  "ex_chain = [(getHeightKey, encodeHeight 2), (getHeaderKey 2, [2]), (getDataKey 2, [4]), (getSignatureKey 2, [6]),
     (getStateAtHeightKey 2, [8]), (getHeaderKey 1, [1]), (getDataKey 1, [3]), (getSignatureKey 1, [5]),
     (getStateAtHeightKey 1, [7])]"

lemma ex_chain_height: "Height (store_on mem_ds) ex_chain = Inr 2"
  using mem_store.db_Get_total [OF clean_height_keys(5), of ex_chain]
  by (simp add: Height_def ex_chain_def decodeHeight_def encodeHeight_def heightLength_def)

lemma ex_chain_blocks: "cs_blocks (abs_store (map_of ex_chain)) 2 = Some ([2], [4], [6])"
  "cs_blocks (abs_store (map_of ex_chain)) 1 = Some ([1], [3], [5])"
  by (simp_all add: abs_store_def blocks_of_def ex_chain_def key_forms)

theorem rollback_refines_witness:
  "\<exists>d'. cs_blocks (abs_store (map_of d')) 2 = None \<and> cs_blocks (abs_store (map_of d')) 1 = Some ([1], [3], [5])"
proof -
  have "map_of ex_chain (getHeaderKey h) \<noteq> None" if "1 < h" "h \<le> 2" for h
  proof -
    have "unat h = 2" using that by (simp add: u64_order)
    then have "h = 2" by (simp add: u64_eq_iff)
    then show ?thesis by (simp add: ex_chain_def key_forms)
  qed
  moreover have "map_of ex_chain (GetMetaKey DAIncludedHeightKey) = None" by (simp add: ex_chain_def key_forms)
  ultimately obtain d' where "Rollback (store_on mem_ds) ex_chain 1 True = (d', None)"
    using mem_store.Rollback_succeeds [OF ex_chain_height, of 1 True] by auto
  from rollback_refines [OF mem_store.block_store_axioms this] show ?thesis
    using ex_chain_height ex_chain_blocks by (intro exI [of _ d']) auto
qed

text \<open>C18: Pruning ends for every height below the largest \<open>uint64\<close> and refines the abstract store: \<open>PruneBlocks\<close> removes the
  blocks, and \<open>PruneStates\<close> the states, of exactly the heights after the last pruned one up to the given height, and
  leaves everything else; when one fails nothing changes.\<close>

theorem pruning_refines:
  assumes "block_store E view" and "n < - 1"
  shows "\<exists>d' res d'' res'. PruneBlocks E d n = Some (d', res) \<and> PruneStates E d n = Some (d'', res') \<and>
    (res \<noteq> None \<longrightarrow> view d' = view d) \<and> (res' \<noteq> None \<longrightarrow> view d'' = view d) \<and>
    (res = None \<longrightarrow> (\<exists>l. getLastPrunedHeight E d LastPrunedBlockHeightKey = Inr l \<and> abs_store (view d') =
      (abs_store (view d))\<lparr>cs_blocks := cs_blocks (abs_store (view d)) |` (- {h. l < h \<and> h \<le> n})\<rparr>)) \<and>
    (res' = None \<longrightarrow> (\<exists>l. getLastPrunedHeight E d LastPrunedStateHeightKey = Inr l \<and> abs_store (view d'') =
      (abs_store (view d))\<lparr>cs_states := cs_states (abs_store (view d)) |` (- {h. l < h \<and> h \<le> n})\<rparr>))"
proof -
  obtain r1 where r1: "PruneBlocks E d n = Some r1" using block_store.Prune_returns(1) [OF assms, of d] by auto
  obtain r2 where r2: "PruneStates E d n = Some r2" using block_store.Prune_returns(2) [OF assms, of d] by auto
  note v1 = block_store.PruneBlocks_view [OF assms r1] and v2 = block_store.PruneStates_view [OF assms r2]
  have p1: "PruneBlocks E d n = Some (fst r1, None)" if "snd r1 = None" using r1 that by (cases r1) simp
  have p2: "PruneStates E d n = Some (fst r2, None)" if "snd r2 = None" using r2 that by (cases r2) simp
  show ?thesis
  proof (rule exI [of _ "fst r1"], rule exI [of _ "snd r1"], rule exI [of _ "fst r2"], rule exI [of _ "snd r2"],
      intro conjI impI)
    show "PruneBlocks E d n = Some (fst r1, snd r1)" using r1 by simp
    show "PruneStates E d n = Some (fst r2, snd r2)" using r2 by simp
    show "view (fst r1) = view d" if "snd r1 \<noteq> None" using v1 that by (simp add: pruned_view_def)
    show "view (fst r2) = view d" if "snd r2 \<noteq> None" using v2 that by (simp add: pruned_view_def)
  qed (use block_store.PruneBlocks_refines [OF assms p1] block_store.PruneStates_refines [OF assms p2] in simp_all)
qed

theorem pruning_refines_witness:
  "\<exists>d' res. PruneBlocks (store_on faulty_ds) (ex_chain, [True]) 1 = Some (d', res) \<and>
     (res \<noteq> None \<longrightarrow> map_of (fst d') = map_of ex_chain)"
proof -
  have "(1 :: u64) < - 1" by code_simp
  from pruning_refines [OF faulty_store.block_store_axioms this, of "(ex_chain, [True])"] show ?thesis by auto
qed

end
