(* ===== verification/Lru.thy ===== *)
theory Lru
  imports Prelude "HOL-Library.AList"
begin

text \<open>
  The LRU caches of \<open>golang-lru\<close>, a library the components call: the record \<open>lru\<close> holds the calls they make on a cache
  of a fixed capacity, and \<open>lru_laws\<close> what they rely on. An entry may be evicted whenever another one is added.
\<close>

record ('c, 'v) lru =
  lru_New :: 'c
  lru_Peek :: "'c \<Rightarrow> u64 \<Rightarrow> 'v option"
  lru_Get :: "'c \<Rightarrow> u64 \<Rightarrow> 'c \<times> 'v option"
  lru_Add :: "'c \<Rightarrow> u64 \<Rightarrow> 'v \<Rightarrow> 'c"
  lru_Remove :: "'c \<Rightarrow> u64 \<Rightarrow> 'c"
  lru_Purge :: "'c \<Rightarrow> 'c"

locale lru_laws =
  fixes L :: "('c, 'v) lru" and lview :: "'c \<Rightarrow> u64 \<rightharpoonup> 'v"
  assumes new_view: "lview (lru_New L) = Map.empty"
    and peek_view: "lru_Peek L c k = lview c k"
    and get_view: "lru_Get L c k = (c', r) \<Longrightarrow> r = lview c k \<and> lview c' = lview c"
    and add_view: "lview (lru_Add L c k v) k = Some v"
    and add_other: "j \<noteq> k \<Longrightarrow> lview (lru_Add L c k v) j = lview c j \<or> lview (lru_Add L c k v) j = None"
    and remove_view: "lview (lru_Remove L c k) = (lview c)(k := None)"
    and purge_view: "lview (lru_Purge L c) = Map.empty"
begin

lemma lview_add: "lview (lru_Add L c k v) j = Some x \<Longrightarrow> j = k \<and> x = v \<or> j \<noteq> k \<and> lview c j = Some x"
  using add_view [of c k v] add_other [of j k c v] by (cases "j = k") auto

end

section \<open>A cache as a list\<close>

text \<open>Entries by recency, at most \<open>n\<close> of them.\<close>

definition list_lru :: "nat \<Rightarrow> ((u64 \<times> 'v) list, 'v) lru" where
  "list_lru n = \<lparr>lru_New = [], lru_Peek = map_of,
     lru_Get = (\<lambda>c k. case map_of c k of None \<Rightarrow> (c, None) | Some v \<Rightarrow> ((k, v) # AList.delete k c, Some v)),
     lru_Add = (\<lambda>c k v. (k, v) # take (n - 1) (AList.delete k c)), lru_Remove = (\<lambda>c k. AList.delete k c), lru_Purge = (\<lambda>_. [])\<rparr>"

lemma map_of_take: "map_of (take m xs) j = map_of xs j \<or> map_of (take m xs) j = None"
  by (induction xs arbitrary: m) (auto simp: take_Cons split: nat.splits)

interpretation list_lru: lru_laws "list_lru n" map_of
proof
  fix c :: "(u64 \<times> 'v) list" and k c' r
  assume "lru_Get (list_lru n) c k = (c', r)"
  then show "r = map_of c k \<and> map_of c' = map_of c"
    by (auto simp: list_lru_def delete_conv' split: option.splits)
next
  fix j k :: u64 and c :: "(u64 \<times> 'v) list" and v
  assume "j \<noteq> k"
  then show "map_of (lru_Add (list_lru n) c k v) j = map_of c j \<or> map_of (lru_Add (list_lru n) c k v) j = None"
    using map_of_take [of "n - 1" "AList.delete k c" j] by (auto simp: list_lru_def delete_conv')
qed (simp_all add: list_lru_def delete_conv')

end
