(* ===== verification/Cached_Store.thy ===== *)
theory Cached_Store
  imports Store_Laws Lru
begin

text \<open>
  The store with caches and asynchronous metadata writes (\<open>pkg/store/cached_store.go\<close>). The two LRU caches
  of \<open>golang-lru\<close> are parameters with the laws \<open>lru_laws\<close>; the channel of pending writes is a list, and the
  goroutine that drains it is \<open>flush\<close>, one group of writes at a time.
\<close>

section \<open>State\<close>

record asyncWriteOp =
  aw_key :: string
  aw_value :: bytes
  aw_isDelete :: bool

record ('d, 'h, 'b) CachedStore =
  c_db :: 'd
  c_headerCache :: 'h
  c_blockDataCache :: 'b
  c_writeCh :: "asyncWriteOp list"
  c_stopped :: bool

record ('d, 'k, 'h, 'b) cached_env =
  ce_store :: "('d, 'k) store_env"
  ce_headers :: "('h, 'k SignedHeader) lru"
  ce_blocks :: "('b, 'k SignedHeader \<times> Data) lru"

definition memoized :: "('d, 'k) store_env \<Rightarrow> 'k SignedHeader \<Rightarrow> 'k SignedHeader" where
  "memoized E sh = sh\<lparr>sh_Header := fst (MemoizeHash (s_crypto E) (s_codec E) (s_wire E) (sh_Header sh))\<rparr>"

section \<open>Reading\<close>

definition Cached_GetHeader :: "('d, 'k, 'h, 'b) cached_env \<Rightarrow> ('d, 'h, 'b) CachedStore \<Rightarrow> u64 \<Rightarrow>
    ('d, 'h, 'b) CachedStore \<times> (store_error + 'k SignedHeader)" where
  "Cached_GetHeader CE cs height =
     (case lru_Get (ce_headers CE) (c_headerCache cs) height of
        (hc, Some header) \<Rightarrow> (cs\<lparr>c_headerCache := hc\<rparr>, Inr header)
      | (hc, None) \<Rightarrow>
          (case GetHeader (ce_store CE) (c_db cs) height of
             Inl e \<Rightarrow> (cs\<lparr>c_headerCache := hc\<rparr>, Inl e)
           | Inr header \<Rightarrow>
               (let header = memoized (ce_store CE) header
                in (cs\<lparr>c_headerCache := lru_Add (ce_headers CE) hc height header\<rparr>, Inr header))))"

definition Cached_GetBlockData :: "('d, 'k, 'h, 'b) cached_env \<Rightarrow> ('d, 'h, 'b) CachedStore \<Rightarrow> u64 \<Rightarrow>
    ('d, 'h, 'b) CachedStore \<times> (store_error + 'k SignedHeader \<times> Data)" where
  "Cached_GetBlockData CE cs height =
     (case lru_Get (ce_blocks CE) (c_blockDataCache cs) height of
        (bc, Some entry) \<Rightarrow> (cs\<lparr>c_blockDataCache := bc\<rparr>, Inr entry)
      | (bc, None) \<Rightarrow>
          (case GetBlockData (ce_store CE) (c_db cs) height of
             Inl e \<Rightarrow> (cs\<lparr>c_blockDataCache := bc\<rparr>, Inl e)
           | Inr (header, data) \<Rightarrow>
               (let header = memoized (ce_store CE) header
                in (cs\<lparr>c_blockDataCache := lru_Add (ce_blocks CE) bc height (header, data),
                       c_headerCache := lru_Add (ce_headers CE) (c_headerCache cs) height header\<rparr>,
                    Inr (header, data)))))"

section \<open>Invalidation\<close>

text \<open>The loop does not end when \<open>toHeight\<close> is the largest \<open>uint64\<close>.\<close>

definition InvalidateRange :: "('d, 'k, 'h, 'b) cached_env \<Rightarrow> ('d, 'h, 'b) CachedStore \<Rightarrow> u64 \<Rightarrow> u64 \<Rightarrow>
    ('d, 'h, 'b) CachedStore option" where
  "InvalidateRange CE cs fromHeight toHeight =
     map_option (foldl (\<lambda>cs h. cs\<lparr>c_headerCache := lru_Remove (ce_headers CE) (c_headerCache cs) h,
         c_blockDataCache := lru_Remove (ce_blocks CE) (c_blockDataCache cs) h\<rparr>) cs)
       (upto_loop fromHeight toHeight)"

definition ClearCache :: "('d, 'k, 'h, 'b) cached_env \<Rightarrow> ('d, 'h, 'b) CachedStore \<Rightarrow> ('d, 'h, 'b) CachedStore" where
  "ClearCache CE cs = cs\<lparr>c_headerCache := lru_Purge (ce_headers CE) (c_headerCache cs),
     c_blockDataCache := lru_Purge (ce_blocks CE) (c_blockDataCache cs)\<rparr>"

definition Cached_Rollback :: "('d, 'k, 'h, 'b) cached_env \<Rightarrow> ('d, 'h, 'b) CachedStore \<Rightarrow> u64 \<Rightarrow> bool \<Rightarrow>
    (('d, 'h, 'b) CachedStore \<times> store_error option) option" where
  "Cached_Rollback CE cs height aggregator =
     (case Height (ce_store CE) (c_db cs) of
        Inl e \<Rightarrow> Some (cs, Some e)
      | Inr currentHeight \<Rightarrow>
          (case Rollback (ce_store CE) (c_db cs) height aggregator of
             (d, Some e) \<Rightarrow> Some (cs\<lparr>c_db := d\<rparr>, Some e)
           | (d, None) \<Rightarrow>
               map_option (\<lambda>cs. (cs, None)) (InvalidateRange CE (cs\<lparr>c_db := d\<rparr>) (height + 1) currentHeight)))"

definition Cached_PruneBlocks :: "('d, 'k, 'h, 'b) cached_env \<Rightarrow> ('d, 'h, 'b) CachedStore \<Rightarrow> u64 \<Rightarrow>
    (('d, 'h, 'b) CachedStore \<times> store_error option) option" where
  "Cached_PruneBlocks CE cs height =
     (case PruneBlocks (ce_store CE) (c_db cs) height of
        None \<Rightarrow> None
      | Some (d, Some e) \<Rightarrow> Some (cs\<lparr>c_db := d\<rparr>, Some e)
      | Some (d, None) \<Rightarrow> map_option (\<lambda>cs. (cs, None)) (InvalidateRange CE (cs\<lparr>c_db := d\<rparr>) 1 height))"

section \<open>Asynchronous metadata\<close>

definition Cached_SetMetadata :: "('d, 'k, 'h, 'b) cached_env \<Rightarrow> ('d, 'h, 'b) CachedStore \<Rightarrow> string \<Rightarrow> bytes \<Rightarrow>
    ('d, 'h, 'b) CachedStore \<times> store_error option" where
  "Cached_SetMetadata CE cs key value =
     (if c_stopped cs then (let (d, e) = SetMetadata (ce_store CE) (c_db cs) key value in (cs\<lparr>c_db := d\<rparr>, e))
      else (cs\<lparr>c_writeCh := c_writeCh cs @ [\<lparr>aw_key = key, aw_value = value, aw_isDelete = False\<rparr>]\<rparr>, None))"

definition Cached_DeleteMetadata :: "('d, 'k, 'h, 'b) cached_env \<Rightarrow> ('d, 'h, 'b) CachedStore \<Rightarrow> string \<Rightarrow>
    ('d, 'h, 'b) CachedStore \<times> store_error option" where
  "Cached_DeleteMetadata CE cs key =
     (if c_stopped cs then (let (d, e) = DeleteMetadata (ce_store CE) (c_db cs) key in (cs\<lparr>c_db := d\<rparr>, e))
      else (cs\<lparr>c_writeCh := c_writeCh cs @ [\<lparr>aw_key = key, aw_value = [], aw_isDelete = True\<rparr>]\<rparr>, None))"

text \<open>The map \<open>last\<close> of the write loop keeps the last operation of each key; Go iterates over it in any order, so
  the puts and deletes are any lists of these operations.\<close>

fun last_op :: "asyncWriteOp list \<Rightarrow> string \<Rightarrow> asyncWriteOp option" where
  "last_op [] k = None"
| "last_op (x # xs) k =
     (case last_op xs k of Some y \<Rightarrow> Some y | None \<Rightarrow> if aw_key x = k then Some x else None)"

definition coalesced :: "asyncWriteOp list \<Rightarrow> (string \<times> bytes) list \<Rightarrow> string list \<Rightarrow> bool" where
  "coalesced ops puts deletes \<longleftrightarrow>
     distinct (map fst puts) \<and>
     set puts = {(k, v). \<exists>x. last_op ops k = Some x \<and> \<not> aw_isDelete x \<and> aw_value x = v} \<and>
     set deletes = {k. \<exists>x. last_op ops k = Some x \<and> aw_isDelete x}"

text \<open>One round of the write loop: the first operations of the channel are taken, coalesced and written in one
  batch; a failed batch is only logged.\<close>

inductive flush :: "('d, 'k, 'h, 'b) cached_env \<Rightarrow> ('d, 'h, 'b) CachedStore \<Rightarrow> ('d, 'h, 'b) CachedStore \<Rightarrow> bool"
  for CE where
  flush_group: "\<lbrakk>c_writeCh cs = ops @ rest; ops \<noteq> []; coalesced ops puts deletes;
     BatchMetadata (ce_store CE) (c_db cs) puts deletes = (d, e)\<rbrakk> \<Longrightarrow>
     flush CE cs (cs\<lparr>c_db := d, c_writeCh := rest\<rparr>)"

inductive_cases flush_elim: "flush CE cs cs'"

text \<open>\<open>Close\<close> stops new asynchronous writes, lets the loop drain the channel and clears the caches.\<close>

inductive Close :: "('d, 'k, 'h, 'b) cached_env \<Rightarrow> ('d, 'h, 'b) CachedStore \<Rightarrow> ('d, 'h, 'b) CachedStore \<Rightarrow> bool"
  for CE where
  close_drained: "\<lbrakk>(flush CE)\<^sup>*\<^sup>* (cs\<lparr>c_stopped := True\<rparr>) cs'; c_writeCh cs' = []\<rbrakk> \<Longrightarrow> Close CE cs (ClearCache CE cs')"

inductive_cases Close_elim: "Close CE cs cs'"

text \<open>What happens to an open store: reads, rollbacks, pruning, metadata writes, rounds of the write loop, and blocks
  committed at a height that is not cached. Heights stay below the largest \<open>uint64\<close>.\<close>

inductive cached_step :: "('d, 'k, 'h, 'b) cached_env \<Rightarrow> ('d, 'h, 'b) CachedStore \<Rightarrow> ('d, 'h, 'b) CachedStore \<Rightarrow> bool"
  for CE where
  step_header: "Cached_GetHeader CE cs h = (cs', r) \<Longrightarrow> cached_step CE cs cs'"
| step_block: "Cached_GetBlockData CE cs h = (cs', r) \<Longrightarrow> cached_step CE cs cs'"
| step_rollback: "\<lbrakk>Height (ce_store CE) (c_db cs) = Inr c; c < - 1; Cached_Rollback CE cs n agg = Some (cs', e)\<rbrakk> \<Longrightarrow>
     cached_step CE cs cs'"
| step_prune: "\<lbrakk>n < - 1; Cached_PruneBlocks CE cs n = Some (cs', e)\<rbrakk> \<Longrightarrow> cached_step CE cs cs'"
| step_set: "\<lbrakk>meta_clean key; Cached_SetMetadata CE cs key v = (cs', e)\<rbrakk> \<Longrightarrow> cached_step CE cs cs'"
| step_delete: "\<lbrakk>meta_clean key; Cached_DeleteMetadata CE cs key = (cs', e)\<rbrakk> \<Longrightarrow> cached_step CE cs cs'"
| step_flush: "flush CE cs cs' \<Longrightarrow> cached_step CE cs cs'"
| step_save: "\<lbrakk>snd (lru_Get (ce_headers CE) (c_headerCache cs) n) = None; snd (lru_Get (ce_blocks CE) (c_blockDataCache cs) n) = None;
     n = Header_Height (sh_Header sh); NewBatch (ce_store CE) (c_db cs) = Inr b0;
     SaveBlockDataFromBytes (ce_store CE) (c_db cs) b0 sh hb db sig = Inr b1;
     SetHeight (ce_store CE) (c_db cs) b1 n = Inr b2; UpdateState (ce_store CE) (c_db cs) b2 st = Inr b3;
     Commit (ce_store CE) (c_db cs) b3 = (d', e)\<rbrakk> \<Longrightarrow> cached_step CE cs (cs\<lparr>c_db := d'\<rparr>)"

text \<open>A queued write as an operation of the datastore.\<close>

definition to_op :: "asyncWriteOp \<Rightarrow> ds_op" where
  "to_op x = (if aw_isDelete x then DDelete (GetMetaKey (aw_key x)) else DPut (GetMetaKey (aw_key x)) (aw_value x))"

definition meta_effect :: "(string \<rightharpoonup> bytes) \<Rightarrow> (string \<Rightarrow> asyncWriteOp option) \<Rightarrow> (string \<rightharpoonup> bytes) \<Rightarrow> bool" where
  "meta_effect m f m' \<longleftrightarrow>
     (\<forall>key. m' (GetMetaKey key) = (case f key of None \<Rightarrow> m (GetMetaKey key)
        | Some x \<Rightarrow> if aw_isDelete x then None else Some (aw_value x))) \<and>
     (\<forall>k. k \<notin> range GetMetaKey \<longrightarrow> m' k = m k)"

lemma meta_effect_unique: "meta_effect m f m' \<Longrightarrow> meta_effect m f m'' \<Longrightarrow> m' = m''"
proof (rule ext)
  fix k assume "meta_effect m f m'" "meta_effect m f m''"
  then show "m' k = m'' k" by (cases "k \<in> range GetMetaKey") (auto simp: meta_effect_def)
qed

lemma meta_effect_ops: "meta_effect m (last_op ops) (apply_ops m (map to_op ops))"
proof (induction ops arbitrary: m)
  case Nil
  then show ?case by (simp add: meta_effect_def)
next
  case (Cons x ops)
  have "apply_op m (to_op x) (GetMetaKey key) =
      (if aw_key x = key then if aw_isDelete x then None else Some (aw_value x) else m (GetMetaKey key))"
    "k \<notin> range GetMetaKey \<Longrightarrow> apply_op m (to_op x) k = m k" for key k
    by (auto simp: to_op_def)
  with Cons [of "apply_op m (to_op x)"] show ?case by (auto simp: meta_effect_def split: option.splits)
qed

lemma last_op_in: "last_op ops k = Some x \<Longrightarrow> x \<in> set ops \<and> aw_key x = k"
  by (induction ops) (auto split: option.splits if_splits)

lemma finite_last_op: "finite (dom (last_op ops))"
  by (rule finite_subset [of _ "aw_key ` set ops"]) (auto dest!: last_op_in)

lemma coalesced_exists: "\<exists>puts deletes. coalesced ops puts deletes"
proof -
  obtain ks where ks: "set ks = dom (last_op ops)" "distinct ks" using finite_distinct_list [OF finite_last_op] by blast
  let ?live = "filter (\<lambda>k. \<not> aw_isDelete (the (last_op ops k))) ks"
  let ?puts = "map (\<lambda>k. (k, aw_value (the (last_op ops k)))) ?live"
  let ?deletes = "filter (\<lambda>k. aw_isDelete (the (last_op ops k))) ks"
  have "map fst ?puts = ?live" by (simp add: comp_def)
  then have "coalesced ops ?puts ?deletes"
    using ks by (auto simp: coalesced_def image_iff)
  then show ?thesis by blast
qed

section \<open>The caches agree with the store\<close>

definition cache_ok :: "('d, 'k, 'h, 'b) cached_env \<Rightarrow> ('h \<Rightarrow> u64 \<rightharpoonup> 'k SignedHeader) \<Rightarrow> ('b \<Rightarrow> u64 \<rightharpoonup> 'k SignedHeader \<times> Data) \<Rightarrow>
    ('d, 'h, 'b) CachedStore \<Rightarrow> bool" where
  "cache_ok CE hview bview cs \<longleftrightarrow>
     (\<forall>h sh. hview (c_headerCache cs) h = Some sh \<longrightarrow>
        (\<exists>sh0. GetHeader (ce_store CE) (c_db cs) h = Inr sh0 \<and> sh = memoized (ce_store CE) sh0)) \<and>
     (\<forall>h sh data. bview (c_blockDataCache cs) h = Some (sh, data) \<longrightarrow>
        (\<exists>sh0. GetBlockData (ce_store CE) (c_db cs) h = Inr (sh0, data) \<and> sh = memoized (ce_store CE) sh0))"

definition cached_inv :: "('d, 'k, 'h, 'b) cached_env \<Rightarrow> ('h \<Rightarrow> u64 \<rightharpoonup> 'k SignedHeader) \<Rightarrow> ('b \<Rightarrow> u64 \<rightharpoonup> 'k SignedHeader \<times> Data) \<Rightarrow>
    ('d, 'h, 'b) CachedStore \<Rightarrow> bool" where
  "cached_inv CE hview bview cs \<longleftrightarrow> cache_ok CE hview bview cs \<and> list_all (meta_clean \<circ> aw_key) (c_writeCh cs)"

locale cached_store = reliable_store "ce_store CE" view + hl: lru_laws "ce_headers CE" hview + bl: lru_laws "ce_blocks CE" bview
  for CE :: "('d, 'k, 'h, 'b) cached_env" and view :: "'d \<Rightarrow> (string \<rightharpoonup> bytes)"
    and hview :: "'h \<Rightarrow> u64 \<rightharpoonup> 'k SignedHeader" and bview :: "'b \<Rightarrow> u64 \<rightharpoonup> 'k SignedHeader \<times> Data"
begin

abbreviation ok where "ok \<equiv> cache_ok CE hview bview"
abbreviation inv where "inv \<equiv> cached_inv CE hview bview"

lemma okD:
  "ok cs \<Longrightarrow> hview (c_headerCache cs) h = Some sh \<Longrightarrow>
     \<exists>sh0. GetHeader (ce_store CE) (c_db cs) h = Inr sh0 \<and> sh = memoized (ce_store CE) sh0"
  "ok cs \<Longrightarrow> bview (c_blockDataCache cs) h = Some (sh, data) \<Longrightarrow>
     \<exists>sh0. GetBlockData (ce_store CE) (c_db cs) h = Inr (sh0, data) \<and> sh = memoized (ce_store CE) sh0"
  by (auto simp: cache_ok_def)

lemma okI:
  assumes "\<And>h sh. hview (c_headerCache cs) h = Some sh \<Longrightarrow>
      \<exists>sh0. GetHeader (ce_store CE) (c_db cs) h = Inr sh0 \<and> sh = memoized (ce_store CE) sh0"
    and "\<And>h sh data. bview (c_blockDataCache cs) h = Some (sh, data) \<Longrightarrow>
      \<exists>sh0. GetBlockData (ce_store CE) (c_db cs) h = Inr (sh0, data) \<and> sh = memoized (ce_store CE) sh0"
  shows "ok cs"
  using assms by (simp add: cache_ok_def)

text \<open>How a new state can differ: cached entries that were there and still read the same, or that were just read.\<close>

lemma ok_step:
  assumes "ok cs"
    and "\<And>h sh. hview (c_headerCache cs') h = Some sh \<Longrightarrow> hview (c_headerCache cs) h = Some sh \<and>
        GetHeader (ce_store CE) (c_db cs') h = GetHeader (ce_store CE) (c_db cs) h \<or>
        (\<exists>sh0. GetHeader (ce_store CE) (c_db cs') h = Inr sh0 \<and> sh = memoized (ce_store CE) sh0)"
    and "\<And>h p. bview (c_blockDataCache cs') h = Some p \<Longrightarrow> bview (c_blockDataCache cs) h = Some p \<and>
        GetBlockData (ce_store CE) (c_db cs') h = GetBlockData (ce_store CE) (c_db cs) h \<or>
        (\<exists>sh0. GetBlockData (ce_store CE) (c_db cs') h = Inr (sh0, snd p) \<and> fst p = memoized (ce_store CE) sh0)"
  shows "ok cs'"
proof (rule okI)
  fix h sh assume "hview (c_headerCache cs') h = Some sh"
  from assms(2) [OF this] okD(1) [OF assms(1), of h sh]
  show "\<exists>sh0. GetHeader (ce_store CE) (c_db cs') h = Inr sh0 \<and> sh = memoized (ce_store CE) sh0" by auto
next
  fix h sh data assume "bview (c_blockDataCache cs') h = Some (sh, data)"
  from assms(3) [OF this] okD(2) [OF assms(1), of h sh data]
  show "\<exists>sh0. GetBlockData (ce_store CE) (c_db cs') h = Inr (sh0, data) \<and> sh = memoized (ce_store CE) sh0" by auto
qed

lemmas hview_add = hl.lview_add
lemmas bview_add = bl.lview_add

lemma GetHeader_of_block: "GetBlockData (ce_store CE) d h = Inr (sh, data) \<Longrightarrow> GetHeader (ce_store CE) d h = Inr sh"
  by (auto simp: GetBlockData_def bindE_eq_Inr)

lemma GetHeader_cached:
  assumes "ok cs" and "Cached_GetHeader CE cs h = (cs', r)"
  shows "ok cs' \<and> c_db cs' = c_db cs \<and>
    r = bindE (GetHeader (ce_store CE) (c_db cs) h) (\<lambda>sh. Inr (memoized (ce_store CE) sh))"
proof -
  obtain hc g where g: "lru_Get (ce_headers CE) (c_headerCache cs) h = (hc, g)" by fastforce
  note v = hl.get_view [OF g]
  consider (hit) sh where "g = Some sh" | (err) e where "g = None" "GetHeader (ce_store CE) (c_db cs) h = Inl e"
    | (miss) sh0 where "g = None" "GetHeader (ce_store CE) (c_db cs) h = Inr sh0"
    by (cases g; cases "GetHeader (ce_store CE) (c_db cs) h") auto
  then show ?thesis
  proof cases
    case hit
    with assms(2) g have c: "cs' = cs\<lparr>c_headerCache := hc\<rparr>" "r = Inr sh" by (simp_all add: Cached_GetHeader_def)
    have "ok cs'" by (rule ok_step [OF assms(1)]) (use v in \<open>auto simp: c\<close>)
    with c v hit okD(1) [OF assms(1), of h sh] show ?thesis by auto
  next
    case err
    with assms(2) g have c: "cs' = cs\<lparr>c_headerCache := hc\<rparr>" "r = Inl e" by (simp_all add: Cached_GetHeader_def)
    have "ok cs'" by (rule ok_step [OF assms(1)]) (use v in \<open>auto simp: c\<close>)
    with c err show ?thesis by simp
  next
    case miss
    with assms(2) g have c: "cs' = cs\<lparr>c_headerCache := lru_Add (ce_headers CE) hc h (memoized (ce_store CE) sh0)\<rparr>"
      "r = Inr (memoized (ce_store CE) sh0)" by (simp_all add: Cached_GetHeader_def Let_def)
    have "ok cs'" by (rule ok_step [OF assms(1)]) (use v miss in \<open>auto simp: c dest!: hview_add\<close>)
    with c miss show ?thesis by simp
  qed
qed

lemma GetBlockData_cached:
  assumes "ok cs" and "Cached_GetBlockData CE cs h = (cs', r)"
  shows "ok cs' \<and> c_db cs' = c_db cs \<and>
    r = bindE (GetBlockData (ce_store CE) (c_db cs) h) (\<lambda>(sh, data). Inr (memoized (ce_store CE) sh, data))"
proof -
  obtain bc g where g: "lru_Get (ce_blocks CE) (c_blockDataCache cs) h = (bc, g)" by fastforce
  note v = bl.get_view [OF g]
  consider (hit) sh data where "g = Some (sh, data)" | (err) e where "g = None" "GetBlockData (ce_store CE) (c_db cs) h = Inl e"
    | (miss) sh0 data where "g = None" "GetBlockData (ce_store CE) (c_db cs) h = Inr (sh0, data)"
    by (cases g; cases "GetBlockData (ce_store CE) (c_db cs) h") auto
  then show ?thesis
  proof cases
    case hit
    with assms(2) g have c: "cs' = cs\<lparr>c_blockDataCache := bc\<rparr>" "r = Inr (sh, data)" by (simp_all add: Cached_GetBlockData_def)
    have "ok cs'" by (rule ok_step [OF assms(1)]) (use v in \<open>auto simp: c\<close>)
    with c v hit okD(2) [OF assms(1), of h sh data] show ?thesis by auto
  next
    case err
    with assms(2) g have c: "cs' = cs\<lparr>c_blockDataCache := bc\<rparr>" "r = Inl e" by (simp_all add: Cached_GetBlockData_def)
    have "ok cs'" by (rule ok_step [OF assms(1)]) (use v in \<open>auto simp: c\<close>)
    with c err show ?thesis by simp
  next
    case miss
    with assms(2) g have c: "cs' = cs\<lparr>c_blockDataCache := lru_Add (ce_blocks CE) bc h (memoized (ce_store CE) sh0, data),
        c_headerCache := lru_Add (ce_headers CE) (c_headerCache cs) h (memoized (ce_store CE) sh0)\<rparr>"
      "r = Inr (memoized (ce_store CE) sh0, data)" by (simp_all add: Cached_GetBlockData_def Let_def)
    have "ok cs'"
      by (rule ok_step [OF assms(1)]) (use v miss GetHeader_of_block [OF miss(2)] in \<open>auto simp: c dest!: hview_add bview_add\<close>)
    with c miss show ?thesis by simp
  qed
qed

lemma read_same:
  assumes "view d' (getHeaderKey h) = view d (getHeaderKey h)" and "view d' (getDataKey h) = view d (getDataKey h)"
  shows "GetHeader (ce_store CE) d' h = GetHeader (ce_store CE) d h"
    and "GetBlockData (ce_store CE) d' h = GetBlockData (ce_store CE) d h"
  using assms by (simp_all add: GetBlockData_def GetHeader_def db_Get_total clean_height_keys)

lemma InvalidateRange_view:
  assumes "b < - 1"
  obtains cs' where "InvalidateRange CE cs a b = Some cs'" and "c_db cs' = c_db cs" and "c_writeCh cs' = c_writeCh cs"
    and "c_stopped cs' = c_stopped cs"
    and "hview (c_headerCache cs') = hview (c_headerCache cs) |` (- {h. a \<le> h \<and> h \<le> b})"
    and "bview (c_blockDataCache cs') = bview (c_blockDataCache cs) |` (- {h. a \<le> h \<and> h \<le> b})"
proof -
  let ?f = "\<lambda>cs h. cs\<lparr>c_headerCache := lru_Remove (ce_headers CE) (c_headerCache cs) h,
         c_blockDataCache := lru_Remove (ce_blocks CE) (c_blockDataCache cs) h\<rparr>"
  have inv: "c_db (foldl ?f c hs) = c_db c \<and> c_writeCh (foldl ?f c hs) = c_writeCh c \<and> c_stopped (foldl ?f c hs) = c_stopped c \<and>
    hview (c_headerCache (foldl ?f c hs)) = hview (c_headerCache c) |` (- set hs) \<and>
    bview (c_blockDataCache (foldl ?f c hs)) = bview (c_blockDataCache c) |` (- set hs)" for c hs
    by (induction hs arbitrary: c)
      (auto simp: hl.remove_view bl.remove_view restrict_map_def fun_eq_iff)
  show ?thesis
    using inv [of cs "u64_range a b"] by (intro that [of "foldl ?f cs (u64_range a b)"])
      (simp_all add: InvalidateRange_def upto_loop_range [OF assms] set_u64_range)
qed

lemma block_key_mem:
  "getHeaderKey h \<in> block_keys (ce_store CE) m h' \<longleftrightarrow> h = h'" "getDataKey h \<in> block_keys (ce_store CE) m h' \<longleftrightarrow> h = h'"
  by (auto simp: block_keys_def key_forms split: option.splits)

lemma block_key_other: "getHeaderKey h \<noteq> getStateAtHeightKey h'" "getDataKey h \<noteq> getStateAtHeightKey h'"
  "getHeaderKey h \<noteq> getHeightKey" "getDataKey h \<noteq> getHeightKey" "getHeaderKey h \<noteq> GetMetaKey k" "getDataKey h \<noteq> GetMetaKey k"
  by (simp_all add: key_forms)

lemma Rollback_keeps_block:
  assumes "Rollback (ce_store CE) d n agg = (d', None)" and "Height (ce_store CE) d = Inr c" and "\<not> (n < h \<and> h \<le> c)"
  shows "view d' (getHeaderKey h) = view d (getHeaderKey h)" and "view d' (getDataKey h) = view d (getDataKey h)"
proof -
  obtain c' m ks where c: "Height (ce_store CE) d = Inr c'" "n < c'"
    and m: "m = view d \<or> (\<exists>v. m = (view d)(GetMetaKey DAIncludedHeightKey \<mapsto> v))"
    and ks: "set ks = (\<Union>h \<in> {h. n < h \<and> h \<le> c'}. insert (getStateAtHeightKey h) (block_keys (ce_store CE) (view d) h))"
    and v: "view d' = (\<lambda>k. if k \<in> set ks then None else m k)(getHeightKey \<mapsto> encodeHeight n)"
    using Rollback_view [OF assms(1)] by blast
  have "getHeaderKey h \<notin> set ks" "getDataKey h \<notin> set ks"
    using c(1) assms(2,3) by (auto simp: ks block_key_mem block_key_other)
  then show "view d' (getHeaderKey h) = view d (getHeaderKey h)" "view d' (getDataKey h) = view d (getDataKey h)"
    using m by (auto simp: v block_key_other)
qed

lemma Rollback_cached:
  assumes "ok cs" and "Height (ce_store CE) (c_db cs) = Inr c" and "c < - 1"
  shows "\<exists>cs' r. Cached_Rollback CE cs n agg = Some (cs', r) \<and> ok cs'"
proof -
  obtain d r where rb: "Rollback (ce_store CE) (c_db cs) n agg = (d, r)" by fastforce
  show ?thesis
  proof (cases r)
    case (Some e)
    then have "view d = view (c_db cs)" using Rollback_failed rb by blast
    then have "ok (cs\<lparr>c_db := d\<rparr>)"
      by (intro ok_step [OF assms(1)]) (simp_all add: read_same [of d _ "c_db cs"])
    with Some rb assms(2) show ?thesis by (simp add: Cached_Rollback_def)
  next
    case None
    have nc: "n < c" using Rollback_refines [of "c_db cs" n agg d] rb None assms(2) by auto
    obtain cs' where cs': "InvalidateRange CE (cs\<lparr>c_db := d\<rparr>) (n + 1) c = Some cs'" "c_db cs' = d"
      "hview (c_headerCache cs') = hview (c_headerCache cs) |` (- {h. n + 1 \<le> h \<and> h \<le> c})"
      "bview (c_blockDataCache cs') = bview (c_blockDataCache cs) |` (- {h. n + 1 \<le> h \<and> h \<le> c})"
      by (rule InvalidateRange_view [OF assms(3), of "cs\<lparr>c_db := d\<rparr>" "n + 1"]) (rule that, simp_all)
    have "GetHeader (ce_store CE) d h = GetHeader (ce_store CE) (c_db cs) h"
      "GetBlockData (ce_store CE) d h = GetBlockData (ce_store CE) (c_db cs) h" if "\<not> (n < h \<and> h \<le> c)" for h
      using read_same [OF Rollback_keeps_block [OF rb [unfolded None] assms(2) that]] .
    then have "ok cs'"
      by (intro ok_step [OF assms(1)]) (auto simp: cs' u64_after [OF nc] restrict_map_def split: if_splits)
    with None rb assms(2) cs' show ?thesis by (simp add: Cached_Rollback_def)
  qed
qed

lemma PruneBlocks_keeps_block:
  assumes "n < - 1" and "PruneBlocks (ce_store CE) d n = Some (d', None)" and "\<not> (1 \<le> h \<and> h \<le> n)"
  shows "view d' (getHeaderKey h) = view d (getHeaderKey h)" and "view d' (getDataKey h) = view d (getDataKey h)"
proof -
  obtain l where v: "n \<le> l \<and> d' = d \<or> l < n \<and> view d' =
           (\<lambda>k. if k \<in> (\<Union>x \<in> {x. l < x \<and> x \<le> n}. prune_keys (ce_store CE) (view d) x) then None else view d k)
           (GetMetaKey LastPrunedBlockHeightKey \<mapsto> encodeHeight n)"
    using PruneBlocks_view [OF assms(1,2)] by (auto simp: pruned_view_def)
  have "l < h \<Longrightarrow> 1 \<le> h" by (simp add: u64_order)
  then have "getHeaderKey h \<notin> (\<Union>x \<in> {x. l < x \<and> x \<le> n}. prune_keys (ce_store CE) (view d) x)"
    "getDataKey h \<notin> (\<Union>x \<in> {x. l < x \<and> x \<le> n}. prune_keys (ce_store CE) (view d) x)"
    using assms(3) by (auto simp: prune_keys_def block_key_mem block_key_other)
  with v show "view d' (getHeaderKey h) = view d (getHeaderKey h)" "view d' (getDataKey h) = view d (getDataKey h)"
    by (auto simp: block_key_other)
qed

lemma PruneBlocks_cached:
  assumes "ok cs" and "n < - 1"
  shows "\<exists>cs' r. Cached_PruneBlocks CE cs n = Some (cs', r) \<and> ok cs'"
proof -
  obtain d r where pr: "PruneBlocks (ce_store CE) (c_db cs) n = Some (d, r)"
    using Prune_returns(1) [OF assms(2), of "c_db cs"] by auto
  show ?thesis
  proof (cases r)
    case (Some e)
    then have "view d = view (c_db cs)" using PruneBlocks_view [OF assms(2) pr] by (simp add: pruned_view_def)
    then have "ok (cs\<lparr>c_db := d\<rparr>)"
      by (intro ok_step [OF assms(1)]) (simp_all add: read_same [of d _ "c_db cs"])
    with Some pr show ?thesis by (simp add: Cached_PruneBlocks_def)
  next
    case None
    obtain cs' where cs': "InvalidateRange CE (cs\<lparr>c_db := d\<rparr>) 1 n = Some cs'" "c_db cs' = d"
      "hview (c_headerCache cs') = hview (c_headerCache cs) |` (- {h. 1 \<le> h \<and> h \<le> n})"
      "bview (c_blockDataCache cs') = bview (c_blockDataCache cs) |` (- {h. 1 \<le> h \<and> h \<le> n})"
      by (rule InvalidateRange_view [OF assms(2), of "cs\<lparr>c_db := d\<rparr>" 1]) (rule that, simp_all)
    have "GetHeader (ce_store CE) d h = GetHeader (ce_store CE) (c_db cs) h"
      "GetBlockData (ce_store CE) d h = GetBlockData (ce_store CE) (c_db cs) h" if "\<not> (1 \<le> h \<and> h \<le> n)" for h
      using read_same [OF PruneBlocks_keeps_block [OF assms(2) pr [unfolded None] that]] .
    then have "ok cs'"
      by (intro ok_step [OF assms(1)]) (auto simp: cs' restrict_map_def split: if_splits)
    with None pr cs' show ?thesis by (simp add: Cached_PruneBlocks_def)
  qed
qed

section \<open>Queued writes reach the store\<close>

lemma batch_puts_ops: "list_all (meta_clean \<circ> fst) kvs \<Longrightarrow>
    batch_puts (ce_store CE) d ops kvs = Inr (ops @ map (\<lambda>(k, v). DPut (GetMetaKey k) v) kvs)"
  by (induction kvs arbitrary: ops) (auto simp: batch_total_ops new_key)

lemma batch_deletes_ops: "list_all meta_clean ks \<Longrightarrow>
    batch_deletes (ce_store CE) d ops ks = Inr (ops @ map (DDelete \<circ> GetMetaKey) ks)"
  by (induction ks arbitrary: ops) (auto simp: batch_total_ops new_key)

lemma BatchMetadata_view:
  assumes "list_all (meta_clean \<circ> fst) puts" and "list_all meta_clean deletes"
    and "BatchMetadata (ce_store CE) d puts deletes = (d', e)"
  shows "e = None \<and> view d' = apply_ops (view d) (map (\<lambda>(k, v). DPut (GetMetaKey k) v) puts @ map (DDelete \<circ> GetMetaKey) deletes)"
proof (cases "puts = [] \<and> deletes = []")
  case True
  with assms(3) show ?thesis by (simp add: BatchMetadata_def)
next
  case False
  let ?ops = "map (\<lambda>(k, v). DPut (GetMetaKey k) v) puts @ map (DDelete \<circ> GetMetaKey) deletes"
  have "Commit (ce_store CE) d ?ops = (d', e)"
    using assms False unfolding BatchMetadata_def
    by (simp only: if_not_P) (simp add: batch_total_ops batch_puts_ops batch_deletes_ops commit_result_def)
  with Commit_succeeds [of d ?ops] Commit_view(1) [of d ?ops d' e] show ?thesis by auto
qed

lemma apply_puts:
  "distinct (map fst puts) \<Longrightarrow> apply_ops m (map (\<lambda>(k, v). DPut (GetMetaKey k) v) puts) (GetMetaKey key) =
     (case map_of puts key of None \<Rightarrow> m (GetMetaKey key) | Some v \<Rightarrow> Some v)"
  "k \<notin> range GetMetaKey \<Longrightarrow> apply_ops m (map (\<lambda>(k, v). DPut (GetMetaKey k) v) puts) k = m k"
proof (induction puts arbitrary: m)
  case (Cons p puts)
  case 1
  have "map_of puts key = None" if "fst p = key" using 1 that by (auto simp: map_of_eq_None_iff)
  with 1 show ?case by (cases p) (auto simp: Cons(1) split: option.split)
next
  case (Cons p puts)
  case 2
  with Cons(2) show ?case by (cases p) auto
qed simp_all

lemma coalesced_effect:
  assumes "coalesced ops puts deletes"
  shows "meta_effect m (last_op ops)
    (apply_ops m (map (\<lambda>(k, v). DPut (GetMetaKey k) v) puts @ map (DDelete \<circ> GetMetaKey) deletes))"
proof -
  have del: "apply_ops m' (map (DDelete \<circ> GetMetaKey) deletes) k = (if k \<in> GetMetaKey ` set deletes then None else m' k)" for m' k
    using apply_ops_deletes [of m' "map GetMetaKey deletes"] by (simp add: comp_def)
  have look: "map_of puts key = Some v \<longleftrightarrow> (\<exists>x. last_op ops key = Some x \<and> \<not> aw_isDelete x \<and> aw_value x = v)" for key v
    using assms by (subst map_of_eq_Some_iff) (auto simp: coalesced_def)
  have "GetMetaKey key \<in> GetMetaKey ` set deletes \<longleftrightarrow> (\<exists>x. last_op ops key = Some x \<and> aw_isDelete x)" for key
    using assms by (auto simp: coalesced_def)
  moreover have "map_of puts key = (case last_op ops key of None \<Rightarrow> None | Some x \<Rightarrow> if aw_isDelete x then None else Some (aw_value x))" for key
  proof (cases "map_of puts key")
    case None
    with look [of key] show ?thesis by (auto split: option.split)
  next
    case (Some a)
    with look [of key a] show ?thesis by auto
  qed
  ultimately show ?thesis
    using assms by (auto simp: meta_effect_def del apply_puts coalesced_def split: option.splits)
qed

lemma coalesced_clean:
  assumes "coalesced ops puts deletes" and "list_all (meta_clean \<circ> aw_key) ops"
  shows "list_all (meta_clean \<circ> fst) puts" and "list_all meta_clean deletes"
proof -
  have "meta_clean k" if "last_op ops k = Some x" for k x
    using last_op_in [OF that] assms(2) by (auto simp: list_all_iff)
  then show "list_all (meta_clean \<circ> fst) puts" "list_all meta_clean deletes"
    using assms(1) by (auto simp: coalesced_def list_all_iff)
qed

lemma flush_view:
  assumes "flush CE cs cs'" and "list_all (meta_clean \<circ> aw_key) (c_writeCh cs)"
  obtains ops where "c_writeCh cs = ops @ c_writeCh cs'" and "view (c_db cs') = apply_ops (view (c_db cs)) (map to_op ops)"
    and "c_headerCache cs' = c_headerCache cs" and "c_blockDataCache cs' = c_blockDataCache cs"
proof -
  from assms(1) obtain ops rest puts deletes d e where f: "cs' = cs\<lparr>c_db := d, c_writeCh := rest\<rparr>" "c_writeCh cs = ops @ rest"
    and co: "coalesced ops puts deletes" and b: "BatchMetadata (ce_store CE) (c_db cs) puts deletes = (d, e)"
    by (rule flush_elim) blast
  have "list_all (meta_clean \<circ> aw_key) ops" using assms(2) f(2) by simp
  from BatchMetadata_view [OF coalesced_clean [OF co this] b] coalesced_effect [OF co]
  have "meta_effect (view (c_db cs)) (last_op ops) (view d)" by simp
  then have "view d = apply_ops (view (c_db cs)) (map to_op ops)"
    using meta_effect_ops meta_effect_unique by blast
  with f show ?thesis by (intro that [of ops]) simp_all
qed

lemma flush_ok:
  assumes "ok cs" and "flush CE cs cs'" and "list_all (meta_clean \<circ> aw_key) (c_writeCh cs)"
  shows "ok cs'"
proof (rule flush_view [OF assms(2,3)])
  fix ops assume v: "view (c_db cs') = apply_ops (view (c_db cs)) (map to_op ops)"
    and c: "c_headerCache cs' = c_headerCache cs" "c_blockDataCache cs' = c_blockDataCache cs"
  have "view (c_db cs') k = view (c_db cs) k" if "k \<notin> range GetMetaKey" for k
    using meta_effect_ops [of "view (c_db cs)" ops] that by (simp add: v meta_effect_def)
  moreover have "getHeaderKey h \<notin> range GetMetaKey" "getDataKey h \<notin> range GetMetaKey" for h
    by (auto simp: block_key_other)
  ultimately have same: "view (c_db cs') (getHeaderKey h) = view (c_db cs) (getHeaderKey h)"
    "view (c_db cs') (getDataKey h) = view (c_db cs) (getDataKey h)" for h by blast+
  show "ok cs'"
    by (rule ok_step [OF assms(1)]) (simp_all add: c read_same [OF same])
qed

lemma drained:
  assumes "(flush CE)\<^sup>*\<^sup>* cs cs'" and "list_all (meta_clean \<circ> aw_key) (c_writeCh cs)"
  shows "\<exists>ops. c_writeCh cs = ops @ c_writeCh cs' \<and> view (c_db cs') = apply_ops (view (c_db cs)) (map to_op ops)"
  using assms
proof (induction rule: converse_rtranclp_induct)
  case base
  show ?case by (intro exI [of _ "[]"]) simp
next
  case (step cs cs1)
  obtain o1 where o1: "c_writeCh cs = o1 @ c_writeCh cs1" "view (c_db cs1) = apply_ops (view (c_db cs)) (map to_op o1)"
    using flush_view [OF step.hyps(1) step.prems] by blast
  then obtain o2 where "c_writeCh cs1 = o2 @ c_writeCh cs'" "view (c_db cs') = apply_ops (view (c_db cs1)) (map to_op o2)"
    using step.IH step.prems by auto
  with o1 show ?case by (intro exI [of _ "o1 @ o2"]) simp
qed

lemma Close_view:
  assumes "Close CE cs cs'" and "list_all (meta_clean \<circ> aw_key) (c_writeCh cs)"
  shows "view (c_db cs') = apply_ops (view (c_db cs)) (map to_op (c_writeCh cs))"
proof -
  obtain cs1 where "(flush CE)\<^sup>*\<^sup>* (cs\<lparr>c_stopped := True\<rparr>) cs1" "c_writeCh cs1 = []" "cs' = ClearCache CE cs1"
    using assms(1) by (rule Close_elim) blast
  with drained [of "cs\<lparr>c_stopped := True\<rparr>" cs1] assms(2) show ?thesis by (auto simp: ClearCache_def)
qed

lemma Close_possible: "\<exists>cs'. Close CE cs cs'"
proof (cases "c_writeCh cs = []")
  case True
  then show ?thesis by (intro exI) (rule close_drained [OF rtranclp.rtrancl_refl], simp)
next
  case False
  obtain puts deletes where "coalesced (c_writeCh cs) puts deletes" using coalesced_exists by blast
  moreover obtain d e where "BatchMetadata (ce_store CE) (c_db cs) puts deletes = (d, e)" by fastforce
  ultimately have "flush CE (cs\<lparr>c_stopped := True\<rparr>) (cs\<lparr>c_stopped := True, c_db := d, c_writeCh := []\<rparr>)"
    using False flush_group [of "cs\<lparr>c_stopped := True\<rparr>" "c_writeCh cs" "[]" puts deletes CE d e] by simp
  then show ?thesis by (intro exI) (rule close_drained [OF r_into_rtranclp], auto)
qed

lemma ok_same_view:
  assumes "ok cs" and "\<And>h. view d (getHeaderKey h) = view (c_db cs) (getHeaderKey h)"
    and "\<And>h. view d (getDataKey h) = view (c_db cs) (getDataKey h)"
  shows "ok (cs\<lparr>c_db := d\<rparr>)"
  by (rule ok_step [OF assms(1)]) (simp_all add: read_same [OF assms(2,3)])

lemma save_ok:
  assumes "ok cs" and "hview (c_headerCache cs) n = None" and "bview (c_blockDataCache cs) n = None"
    and "n = Header_Height (sh_Header sh)" and "NewBatch (ce_store CE) (c_db cs) = Inr b0"
    and "SaveBlockDataFromBytes (ce_store CE) (c_db cs) b0 sh hb db sig = Inr b1"
    and "SetHeight (ce_store CE) (c_db cs) b1 n = Inr b2" and "UpdateState (ce_store CE) (c_db cs) b2 st = Inr b3"
    and "Commit (ce_store CE) (c_db cs) b3 = (d', e)"
  shows "ok (cs\<lparr>c_db := d'\<rparr>)"
proof (cases e)
  case (Some e')
  then have "view d' = view (c_db cs)" using Commit_view(2) [OF assms(9)] by simp
  then show ?thesis by (intro ok_same_view [OF assms(1)]) simp_all
next
  case None
  obtain c where b2: "b2 = b1 @ (if n \<le> c then [] else [DPut getHeightKey (encodeHeight n)])"
    using SetHeight_ops [OF assms(7)] by blast
  obtain sb where b3: "b3 = b2 @ [DPut (getStateAtHeightKey (st_LastBlockHeight st)) sb]"
    using UpdateState_ops [OF assms(8)] by blast
  have v: "view d' = apply_ops (view (c_db cs)) b3" using Commit_view(1) [OF assms(9)] None by simp
  note ops = v b3 b2 SaveBlockDataFromBytes_ops [OF assms(6)] NewBatch_Inr [OF assms(5)] assms(4)
  have "view d' (getHeaderKey h) = view (c_db cs) (getHeaderKey h)" "view d' (getDataKey h) = view (c_db cs) (getDataKey h)"
    if "h \<noteq> n" for h
    using that by (cases "n \<le> c"; simp add: ops key_forms)+
  note same = read_same [OF this]
  show ?thesis
  proof (rule ok_step [OF assms(1)])
    fix h sh assume h: "hview (c_headerCache (cs\<lparr>c_db := d'\<rparr>)) h = Some sh"
    then have "h \<noteq> n" using assms(2) by auto
    with h same(1) show "hview (c_headerCache cs) h = Some sh \<and>
        GetHeader (ce_store CE) (c_db (cs\<lparr>c_db := d'\<rparr>)) h = GetHeader (ce_store CE) (c_db cs) h \<or>
        (\<exists>sh0. GetHeader (ce_store CE) (c_db (cs\<lparr>c_db := d'\<rparr>)) h = Inr sh0 \<and> sh = memoized (ce_store CE) sh0)" by simp
  next
    fix h p assume h: "bview (c_blockDataCache (cs\<lparr>c_db := d'\<rparr>)) h = Some p"
    then have "h \<noteq> n" using assms(3) by auto
    with h same(2) show "bview (c_blockDataCache cs) h = Some p \<and>
        GetBlockData (ce_store CE) (c_db (cs\<lparr>c_db := d'\<rparr>)) h = GetBlockData (ce_store CE) (c_db cs) h \<or>
        (\<exists>sh0. GetBlockData (ce_store CE) (c_db (cs\<lparr>c_db := d'\<rparr>)) h = Inr (sh0, snd p) \<and> fst p = memoized (ce_store CE) sh0)"
      by simp
  qed
qed

lemma meta_write_ok:
  assumes "ok cs" and "meta_clean key"
  shows "ok (cs\<lparr>c_db := fst (SetMetadata (ce_store CE) (c_db cs) key v)\<rparr>)"
    and "ok (cs\<lparr>c_db := fst (DeleteMetadata (ce_store CE) (c_db cs) key)\<rparr>)"
proof -
  have "view (fst (SetMetadata (ce_store CE) (c_db cs) key v)) = (view (c_db cs))(GetMetaKey key \<mapsto> v)"
    "view (fst (DeleteMetadata (ce_store CE) (c_db cs) key)) = (view (c_db cs))(GetMetaKey key := None)"
    using put_view [of "c_db cs" "GetMetaKey key" v] delete_view [of "c_db cs" "GetMetaKey key"] assms(2)
    by (simp_all add: SetMetadata_def DeleteMetadata_def new_key Let_def case_prod_unfold)
  then show "ok (cs\<lparr>c_db := fst (SetMetadata (ce_store CE) (c_db cs) key v)\<rparr>)"
    "ok (cs\<lparr>c_db := fst (DeleteMetadata (ce_store CE) (c_db cs) key)\<rparr>)"
    by (intro ok_same_view [OF assms(1)]; simp add: block_key_other)+
qed

lemma ok_writeCh: "ok (cs\<lparr>c_writeCh := ops\<rparr>) = ok cs"
  by (simp add: cache_ok_def)

lemma Cached_writeCh:
  "Cached_GetHeader CE cs h = (cs', r) \<Longrightarrow> c_writeCh cs' = c_writeCh cs"
  "Cached_GetBlockData CE cs h = (cs', r2) \<Longrightarrow> c_writeCh cs' = c_writeCh cs"
  by (auto simp: Cached_GetHeader_def Cached_GetBlockData_def Let_def split: prod.splits option.splits sum.splits)

lemma Invalidate_writeCh: "InvalidateRange CE cs a b = Some cs' \<Longrightarrow> c_writeCh cs' = c_writeCh cs"
proof -
  have "c_writeCh (foldl (\<lambda>cs h. cs\<lparr>c_headerCache := lru_Remove (ce_headers CE) (c_headerCache cs) h,
         c_blockDataCache := lru_Remove (ce_blocks CE) (c_blockDataCache cs) h\<rparr>) c hs) = c_writeCh c" for c hs
    by (induction hs arbitrary: c) simp_all
  then show "InvalidateRange CE cs a b = Some cs' \<Longrightarrow> c_writeCh cs' = c_writeCh cs"
    by (auto simp: InvalidateRange_def)
qed

lemma step_inv: "cached_step CE cs cs' \<Longrightarrow> inv cs \<Longrightarrow> inv cs'"
proof (induction rule: cached_step.induct)
  case (step_header cs h cs' r)
  then show ?case using GetHeader_cached [of cs h cs' r] Cached_writeCh(1) by (auto simp: cached_inv_def)
next
  case (step_block cs h cs' r)
  then show ?case using GetBlockData_cached [of cs h cs' r] Cached_writeCh(2) by (auto simp: cached_inv_def)
next
  case (step_rollback cs c n agg cs' e)
  moreover have "c_writeCh cs' = c_writeCh cs"
    using step_rollback(3) by (auto simp: Cached_Rollback_def split: sum.splits prod.splits option.splits dest!: Invalidate_writeCh)
  ultimately show ?case using Rollback_cached [of cs c n agg] by (auto simp: cached_inv_def)
next
  case (step_prune n cs cs' e)
  moreover have "c_writeCh cs' = c_writeCh cs"
    using step_prune(2) by (auto simp: Cached_PruneBlocks_def split: sum.splits prod.splits option.splits dest!: Invalidate_writeCh)
  ultimately show ?case using PruneBlocks_cached [of cs n] by (auto simp: cached_inv_def)
next
  case (step_set key cs v cs' e)
  then show ?case
    using meta_write_ok(1) [of cs key v]
    by (auto simp: cached_inv_def Cached_SetMetadata_def ok_writeCh Let_def case_prod_unfold split: if_splits)
next
  case (step_delete key cs cs' e)
  then show ?case
    using meta_write_ok(2) [of cs key]
    by (auto simp: cached_inv_def Cached_DeleteMetadata_def ok_writeCh Let_def case_prod_unfold split: if_splits)
next
  case (step_flush cs cs')
  then show ?case using flush_ok flush_view [OF step_flush(1)] by (fastforce simp: cached_inv_def)
next
  case (step_save cs n sh b0 hb db sig b1 b2 st b3 d' e)
  have "hview (c_headerCache cs) n = None" "bview (c_blockDataCache cs) n = None"
    using step_save(1,2) hl.get_view bl.get_view by (metis prod.collapse)+
  with step_save save_ok show ?case by (auto simp: cached_inv_def)
qed

lemma steps_inv: "(cached_step CE)\<^sup>*\<^sup>* cs cs' \<Longrightarrow> inv cs \<Longrightarrow> inv cs'"
  by (induction rule: rtranclp_induct) (auto intro: step_inv)

end

section \<open>The store over a cache of two entries\<close>

definition mem_cached :: "(mem, bytes, (u64 \<times> bytes SignedHeader) list, (u64 \<times> bytes SignedHeader \<times> Data) list) cached_env" where
  "mem_cached = \<lparr>ce_store = store_on mem_ds, ce_headers = list_lru 2, ce_blocks = list_lru 2\<rparr>"

lemma mem_cached_sel [simp]: "ce_store mem_cached = store_on mem_ds" "ce_headers mem_cached = list_lru 2"
  "ce_blocks mem_cached = list_lru 2"
  by (simp_all add: mem_cached_def)

interpretation mc: cached_store mem_cached map_of map_of map_of
  unfolding cached_store_def mem_cached_sel
  by (intro conjI mem_store.reliable_store_axioms list_lru.lru_laws_axioms)

section \<open>Properties\<close>

text \<open>C19: Through any sequence of reads, rollbacks, pruning, metadata writes and blocks committed at heights that are not
  cached, a cached read of a header or a block returns what the underlying store holds, with its hash memoized,
  or the store's error.\<close>

theorem cached_reads_agree:
  assumes "cached_store CE view hview bview" and "(cached_step CE)\<^sup>*\<^sup>* cs cs'"
    and "hview (c_headerCache cs) = Map.empty" and "bview (c_blockDataCache cs) = Map.empty" and "c_writeCh cs = []"
  shows "snd (Cached_GetHeader CE cs' h) = bindE (GetHeader (ce_store CE) (c_db cs') h) (\<lambda>sh. Inr (memoized (ce_store CE) sh)) \<and>
    snd (Cached_GetBlockData CE cs' h) =
      bindE (GetBlockData (ce_store CE) (c_db cs') h) (\<lambda>(sh, data). Inr (memoized (ce_store CE) sh, data))"
proof -
  have "cached_inv CE hview bview cs"
    using assms(3-5) by (simp add: cached_inv_def cache_ok_def)
  then have "cache_ok CE hview bview cs'"
    using cached_store.steps_inv [OF assms(1,2)] by (simp add: cached_inv_def)
  then show ?thesis
    using cached_store.GetHeader_cached [OF assms(1)] cached_store.GetBlockData_cached [OF assms(1)]
    by (metis prod.collapse)
qed

definition ex_cached :: "(mem, (u64 \<times> bytes SignedHeader) list, (u64 \<times> bytes SignedHeader \<times> Data) list) CachedStore" where
  "ex_cached = \<lparr>c_db = ex_chain, c_headerCache = [], c_blockDataCache = [], c_writeCh = [], c_stopped = False\<rparr>"

theorem cached_reads_agree_witness:
  "\<exists>cs'. (cached_step mem_cached)\<^sup>*\<^sup>* ex_cached cs' \<and> c_writeCh cs' \<noteq> [] \<and>
     snd (Cached_GetHeader mem_cached cs' 2) =
       bindE (GetHeader (store_on mem_ds) (c_db cs') 2) (\<lambda>sh. Inr (memoized (store_on mem_ds) sh))"
proof -
  let ?cs = "ex_cached\<lparr>c_writeCh := [\<lparr>aw_key = DAIncludedHeightKey, aw_value = [1], aw_isDelete = False\<rparr>]\<rparr>"
  have "cached_step mem_cached ex_cached ?cs"
    by (rule step_set [OF meta_clean_keys(1), of _ _ "[1]" _ None]) (simp add: Cached_SetMetadata_def ex_cached_def)
  then have "(cached_step mem_cached)\<^sup>*\<^sup>* ex_cached ?cs" by (rule r_into_rtranclp)
  with cached_reads_agree [OF mc.cached_store_axioms this, of 2] show ?thesis
    by (intro exI [of _ ?cs]) (simp add: ex_cached_def)
qed





end
