(* ===== verification/Forced_Inclusion.thy ===== *)
theory Forced_Inclusion
  imports Epoch Datastore Block_Types
begin

text \<open>
  Forced inclusion (\<open>block/internal/da/forced_inclusion_retriever.go\<close>, \<open>async_block_retriever.go\<close>): the
  transactions of a DA epoch are collected when its last height is reached, from an in-memory cache that a
  background subscriber fills and from the DA client for the heights it lacks. The DA client is the record
  \<open>da_client\<close>, the answers it gives at the moment of the call; the cache is an in-memory datastore, and its
  protobuf codec a parameter. A cancelled context is the flag \<open>ctxErr\<close>.
\<close>

section \<open>The DA client\<close>

datatype StatusCode =
    StatusUnknown
  | StatusSuccess
  | StatusNotFound
  | StatusNotIncludedInBlock
  | StatusAlreadyInMempool
  | StatusTooBig
  | StatusContextDeadline
  | StatusError
  | StatusIncorrectAccountSequence
  | StatusContextCanceled
  | StatusHeightFromFuture

record ResultRetrieve =
  rr_Code :: StatusCode
  rr_Message :: string
  rr_Timestamp :: instant
  rr_Data :: "bytes list"

record da_client =
  dc_Retrieve :: "u64 \<Rightarrow> bytes \<Rightarrow> ResultRetrieve"
  dc_GetLatestDAHeight :: "string + u64"
  dc_HasForcedInclusionNamespace :: bool
  dc_GetForcedInclusionNamespace :: bytes

datatype da_error =
    ErrForceInclusionNotConfigured
  | ErrHeightFromFuture u64
  | ErrBeforeStart u64 u64
  | ErrCachedBlock ds_error
  | ErrUnmarshalBlock
  | ErrRetrieveBlock u64 string
  | ErrCtx
  | ErrInline

section \<open>The block cache\<close>

record BlockData =
  bd_Height :: u64
  bd_Timestamp :: instant
  bd_Blobs :: "bytes list"

record 'c asyncBlockRetriever =
  ar_namespace :: bytes
  ar_cache :: 'c
  ar_daStartHeight :: u64
  ar_consumedHeight :: u64
  ar_prefetchWindow :: u64

record 'c fi_env =
  fe_ds :: "'c datastore"
  fe_empty :: 'c
  fe_Marshal :: "u64 \<times> u64 \<times> bytes list \<Rightarrow> bytes option"
  fe_Unmarshal :: "bytes \<Rightarrow> (u64 \<times> u64 \<times> bytes list) option"

definition NewAsyncBlockRetriever :: "'c fi_env \<Rightarrow> bytes \<Rightarrow> u64 \<Rightarrow> u64 \<Rightarrow> 'c asyncBlockRetriever" where
  "NewAsyncBlockRetriever F namespace daStartHeight prefetchWindow =
     \<lparr>ar_namespace = namespace, ar_cache = fe_empty F, ar_daStartHeight = daStartHeight, ar_consumedHeight = 0,
      ar_prefetchWindow = (if prefetchWindow = 0 then 10 else prefetchWindow)\<rparr>"

text \<open>\<open>Time.UnixNano\<close> wraps outside the years 1678 to 2262; the \<open>int64\<close> travels as its 64 bits.\<close>

definition UnixNano :: "instant \<Rightarrow> u64" where
  "UnixNano t = word_of_int t"

definition newBlockDataKey :: "'c fi_env \<Rightarrow> u64 \<Rightarrow> string" where
  "newBlockDataKey F height = ds_NewKey (fe_ds F) (''/block/'' @ FormatUint height)"

definition GetCachedBlock :: "'c fi_env \<Rightarrow> 'c asyncBlockRetriever \<Rightarrow> u64 \<Rightarrow> da_error + BlockData option" where
  "GetCachedBlock F f daHeight =
     (if ar_namespace f = [] then Inr None
      else if daHeight < ar_daStartHeight f then Inl (ErrBeforeStart daHeight (ar_daStartHeight f))
      else case ds_Get (fe_ds F) (ar_cache f) (newBlockDataKey F daHeight) of
        Inl e \<Rightarrow> if e = ErrNotFound then Inr None else Inl (ErrCachedBlock e)
      | Inr data \<Rightarrow>
          (case fe_Unmarshal F data of
             None \<Rightarrow> Inl ErrUnmarshalBlock
           | Some (height, timestamp, blobs) \<Rightarrow>
               Inr (Some \<lparr>bd_Height = height, bd_Timestamp = unix_nano timestamp, bd_Blobs = blobs\<rparr>)))"

text \<open>A failed write to the cache is only logged.\<close>

definition cacheBlock :: "'c fi_env \<Rightarrow> 'c asyncBlockRetriever \<Rightarrow> u64 \<Rightarrow> instant \<Rightarrow> bytes list \<Rightarrow> 'c asyncBlockRetriever" where
  "cacheBlock F f daHeight daTimestamp blobs =
     (case fe_Marshal F (daHeight, UnixNano daTimestamp, blobs) of
        None \<Rightarrow> f
      | Some data \<Rightarrow> f\<lparr>ar_cache := fst (ds_Put (fe_ds F) (ar_cache f) (newBlockDataKey F daHeight) data)\<rparr>)"

definition fetchAndCacheBlock ::
  "'c fi_env \<Rightarrow> da_client \<Rightarrow> bool \<Rightarrow> 'c asyncBlockRetriever \<Rightarrow> u64 \<Rightarrow> 'c asyncBlockRetriever \<times> da_error option" where
  "fetchAndCacheBlock F D ctxErr f height =
     (if ctxErr then (f, Some ErrCtx)
      else let result = dc_Retrieve D height (ar_namespace f) in
        case rr_Code result of
          StatusHeightFromFuture \<Rightarrow> (f, Some (ErrHeightFromFuture height))
        | StatusNotFound \<Rightarrow> (cacheBlock F f height (rr_Timestamp result) [], None)
        | StatusSuccess \<Rightarrow>
            (cacheBlock F f height (rr_Timestamp result) (filter (\<lambda>blob. blob \<noteq> []) (rr_Data result)), None)
        | _ \<Rightarrow> (f, Some (ErrRetrieveBlock height (rr_Message result))))"

definition HandleEvent :: "'c fi_env \<Rightarrow> bool \<Rightarrow> 'c asyncBlockRetriever \<Rightarrow> u64 \<Rightarrow> instant \<Rightarrow> bytes list \<Rightarrow> bool \<Rightarrow>
    'c asyncBlockRetriever \<times> da_error option" where
  "HandleEvent F ctxErr f evHeight evTimestamp evBlobs isInline =
     (if ctxErr then (f, Some ErrCtx)
      else let f = cacheBlock F f evHeight evTimestamp evBlobs
           in if isInline then (f, Some ErrInline) else (f, None))"

definition isCached :: "'c fi_env \<Rightarrow> 'c asyncBlockRetriever \<Rightarrow> u64 \<Rightarrow> bool" where
  "isCached F f h = (case ds_Get (fe_ds F) (ar_cache f) (newBlockDataKey F h) of Inl _ \<Rightarrow> False | Inr _ \<Rightarrow> True)"

text \<open>The loop over the prefetch window, which does not end when the target is the largest \<open>uint64\<close>.\<close>

partial_function (option) prefetch_loop :: "'c fi_env \<Rightarrow> da_client \<Rightarrow> bool \<Rightarrow> u64 \<Rightarrow> u64 \<Rightarrow> 'c asyncBlockRetriever \<Rightarrow>
    ('c asyncBlockRetriever \<times> da_error option) option" where
  "prefetch_loop F D ctxErr h target f =
     (if h \<le> target then
        (if ctxErr then Some (f, Some ErrCtx)
         else if isCached F f h then prefetch_loop F D ctxErr (h + 1) target f
         else (case fetchAndCacheBlock F D ctxErr f h of
                 (f', Some e) \<Rightarrow> Some (f', Some e)
               | (f', None) \<Rightarrow> prefetch_loop F D ctxErr (h + 1) target f'))
      else Some (f, None))"

definition HandleCatchup :: "'c fi_env \<Rightarrow> da_client \<Rightarrow> bool \<Rightarrow> 'c asyncBlockRetriever \<Rightarrow> u64 \<Rightarrow>
    ('c asyncBlockRetriever \<times> da_error option) option" where
  "HandleCatchup F D ctxErr f daHeight =
     (if ctxErr then Some (f, Some ErrCtx)
      else case (if isCached F f daHeight then (f, None) else fetchAndCacheBlock F D ctxErr f daHeight) of
             (f', Some e) \<Rightarrow> Some (f', Some e)
           | (f', None) \<Rightarrow> prefetch_loop F D ctxErr (daHeight + 1) (daHeight + ar_prefetchWindow f) f')"

text \<open>\<open>Sscanf(key, "/block/%d")\<close>: the digits after the prefix, as a \<open>uint64\<close>.\<close>

definition digit_of :: "char \<Rightarrow> nat option" where
  "digit_of c = (if 48 \<le> (of_char c :: nat) \<and> (of_char c :: nat) \<le> 57 then Some (of_char c - 48) else None)"

fun scan_digits :: "nat \<Rightarrow> string \<Rightarrow> nat" where
  "scan_digits acc [] = acc"
| "scan_digits acc (c # cs) = (case digit_of c of None \<Rightarrow> acc | Some d \<Rightarrow> scan_digits (10 * acc + d) cs)"

definition scanBlockKey :: "string \<Rightarrow> u64 option" where
  "scanBlockKey key =
     (if take 7 key \<noteq> ''/block/'' then None
      else case drop 7 key of
             [] \<Rightarrow> None
           | c # cs \<Rightarrow> if digit_of c = None \<or> 2 ^ 64 \<le> scan_digits 0 (c # cs) then None
                       else Some (word_of_nat (scan_digits 0 (c # cs))))"

fun cleanup_loop :: "'c fi_env \<Rightarrow> u64 \<Rightarrow> (ds_error + string \<times> bytes) list \<Rightarrow> 'c \<Rightarrow> 'c" where
  "cleanup_loop F cleanupThreshold [] c = c"
| "cleanup_loop F cleanupThreshold (Inl _ # results) c = cleanup_loop F cleanupThreshold results c"
| "cleanup_loop F cleanupThreshold (Inr (k, _) # results) c =
     (case scanBlockKey (ds_NewKey (fe_ds F) k) of
        None \<Rightarrow> cleanup_loop F cleanupThreshold results c
      | Some height \<Rightarrow>
          cleanup_loop F cleanupThreshold results
            (if height < cleanupThreshold then fst (ds_Delete (fe_ds F) c (ds_NewKey (fe_ds F) k)) else c))"

definition cleanupOldBlocks :: "'c fi_env \<Rightarrow> 'c asyncBlockRetriever \<Rightarrow> u64 \<Rightarrow> 'c asyncBlockRetriever" where
  "cleanupOldBlocks F f currentHeight =
     (if currentHeight < ar_prefetchWindow f then f
      else case ds_Query (fe_ds F) (ar_cache f) of
             Inl _ \<Rightarrow> f
           | Inr results \<Rightarrow>
               f\<lparr>ar_cache := cleanup_loop F (currentHeight - ar_prefetchWindow f) results (ar_cache f)\<rparr>)"

definition UpdateCurrentHeight :: "'c fi_env \<Rightarrow> 'c asyncBlockRetriever \<Rightarrow> u64 \<Rightarrow> 'c asyncBlockRetriever" where
  "UpdateCurrentHeight F f height =
     (if height \<le> ar_consumedHeight f then f
      else cleanupOldBlocks F (f\<lparr>ar_consumedHeight := height\<rparr>) height)"

section \<open>The retriever\<close>

record 'c forcedInclusionRetriever =
  fi_daEpochSize :: u64
  fi_daStartHeight :: u64
  fi_asyncFetcher :: "'c asyncBlockRetriever"

record ForcedInclusionEvent =
  ev_Timestamp :: instant
  ev_StartDaHeight :: u64
  ev_EndDaHeight :: u64
  ev_Txs :: "bytes list"

definition NewForcedInclusionRetriever :: "'c fi_env \<Rightarrow> da_client \<Rightarrow> u64 \<Rightarrow> u64 \<Rightarrow> 'c forcedInclusionRetriever" where
  "NewForcedInclusionRetriever F D daStartHeight daEpochSize =
     \<lparr>fi_daEpochSize = daEpochSize, fi_daStartHeight = daStartHeight,
      fi_asyncFetcher = NewAsyncBlockRetriever F (dc_GetForcedInclusionNamespace D) daStartHeight (daEpochSize * 2)\<rparr>"

definition emptyEvent :: "instant \<Rightarrow> u64 \<Rightarrow> ForcedInclusionEvent" where
  "emptyEvent t daHeight = \<lparr>ev_Timestamp = t, ev_StartDaHeight = daHeight, ev_EndDaHeight = daHeight, ev_Txs = []\<rparr>"

text \<open>The cached blocks of the heights, and the heights that have none (or whose lookup fails).\<close>

fun read_cache :: "'c fi_env \<Rightarrow> 'c asyncBlockRetriever \<Rightarrow> u64 list \<Rightarrow> (u64 \<rightharpoonup> BlockData) \<times> u64 list" where
  "read_cache F f [] = (Map.empty, [])"
| "read_cache F f (h # hs) =
     (let (cachedBlocks, missingHeights) = read_cache F f hs
      in case GetCachedBlock F f h of
           Inr (Some block) \<Rightarrow> (cachedBlocks(h \<mapsto> block), missingHeights)
         | _ \<Rightarrow> (cachedBlocks, h # missingHeights))"

text \<open>The missing heights fetched from the client, with the errors; a height from the future ends the call.\<close>

fun fetch_missing :: "da_client \<Rightarrow> u64 list \<Rightarrow> da_error + (u64 \<rightharpoonup> BlockData) \<times> da_error list" where
  "fetch_missing D [] = Inr (Map.empty, [])"
| "fetch_missing D (h # hs) =
     (let result = dc_Retrieve D h (dc_GetForcedInclusionNamespace D)
      in if rr_Code result = StatusHeightFromFuture then Inl (ErrHeightFromFuture h)
         else bindE (fetch_missing D hs) (\<lambda>(blocks, errs).
           if rr_Code result = StatusNotFound
           then Inr (blocks(h \<mapsto> \<lparr>bd_Height = 0, bd_Timestamp = rr_Timestamp result, bd_Blobs = []\<rparr>), errs)
           else if rr_Code result \<noteq> StatusSuccess
           then Inr (blocks, ErrRetrieveBlock h (rr_Message result) # errs)
           else Inr (blocks(h \<mapsto> \<lparr>bd_Height = 0, bd_Timestamp = rr_Timestamp result,
                                    bd_Blobs = rr_Data result\<rparr>), errs)))"

definition add_block :: "ForcedInclusionEvent \<Rightarrow> BlockData \<Rightarrow> ForcedInclusionEvent" where
  "add_block event block =
     (let event = event\<lparr>ev_Txs := ev_Txs event @ filter (\<lambda>blob. blob \<noteq> []) (bd_Blobs block)\<rparr>
      in if ev_Timestamp event < bd_Timestamp block then event\<lparr>ev_Timestamp := bd_Timestamp block\<rparr> else event)"

fun add_blocks :: "(u64 \<rightharpoonup> BlockData) \<Rightarrow> (u64 \<rightharpoonup> BlockData) \<Rightarrow> u64 list \<Rightarrow> ForcedInclusionEvent \<Rightarrow> ForcedInclusionEvent" where
  "add_blocks cached fetched [] event = event"
| "add_blocks cached fetched (h # hs) event =
     add_blocks cached fetched hs
       (case cached h of
          Some block \<Rightarrow> add_block event block
        | None \<Rightarrow> (case fetched h of Some block \<Rightarrow> add_block event block | None \<Rightarrow> event))"

text \<open>\<open>None\<close>: the loop that collects the heights of the epoch does not end.\<close>

definition RetrieveForcedIncludedTxs ::
  "'c fi_env \<Rightarrow> da_client \<Rightarrow> 'c forcedInclusionRetriever \<Rightarrow> u64 \<Rightarrow>
     ('c forcedInclusionRetriever \<times> (da_error + ForcedInclusionEvent)) option" where
  "RetrieveForcedIncludedTxs F D r daHeight =
     (if \<not> dc_HasForcedInclusionNamespace D then Some (r, Inl ErrForceInclusionNotConfigured)
      else if daHeight < fi_daStartHeight r then Some (r, Inl (ErrBeforeStart daHeight (fi_daStartHeight r)))
      else
        let (epochStart, epochEnd, currentEpochNumber) =
              CalculateEpochBoundaries daHeight (fi_daStartHeight r) (fi_daEpochSize r);
            r = r\<lparr>fi_asyncFetcher := UpdateCurrentHeight F (fi_asyncFetcher r) daHeight\<rparr>
        in if daHeight \<noteq> epochEnd then Some (r, Inr (emptyEvent zero_time daHeight))
           else map_option (\<lambda>heights.
             (r, let (cachedBlocks, missingHeights) = read_cache F (fi_asyncFetcher r) heights
                 in bindE (fetch_missing D missingHeights) (\<lambda>(fetched, processErrs).
                      let event = add_blocks cachedBlocks fetched heights
                            \<lparr>ev_Timestamp = zero_time, ev_StartDaHeight = epochStart, ev_EndDaHeight = epochEnd, ev_Txs = []\<rparr>
                      in if processErrs \<noteq> [] then Inr (emptyEvent (ev_Timestamp event) daHeight) else Inr event)))
             (upto_loop epochStart epochEnd))"

end
