(* ===== verification/Genesis.thy ===== *)
theory Genesis
  imports Block_Types
begin

text \<open>
  The genesis file (\<open>pkg/genesis/genesis.go\<close>) and the interface to the execution layer
  (\<open>core/execution/execution.go\<close>). The execution layer is not part of the repository's core: its answers at the
  moment of a call are the record \<open>exec_client\<close>, a parameter of the definitions that call it.
\<close>

record Genesis =
  g_ChainID :: string
  g_StartTime :: instant
  g_InitialHeight :: u64
  g_ProposerAddress :: "bytes option"
  g_DAStartHeight :: u64
  g_DAEpochForcedInclusion :: u64

datatype genesis_error =
    ErrMissingChainID
  | ErrInitialHeight u64
  | ErrZeroStartTime
  | ErrNilProposer
  | ErrEpochSize u64

definition NewGenesis :: "string \<Rightarrow> u64 \<Rightarrow> instant \<Rightarrow> bytes option \<Rightarrow> Genesis" where
  "NewGenesis chainID initialHeight startTime proposerAddress =
     \<lparr>g_ChainID = chainID, g_StartTime = startTime, g_InitialHeight = initialHeight,
      g_ProposerAddress = proposerAddress, g_DAStartHeight = 0, g_DAEpochForcedInclusion = 50\<rparr>"

definition Genesis_Validate :: "Genesis \<Rightarrow> genesis_error option" where
  "Genesis_Validate g =
     (if g_ChainID g = [] then Some ErrMissingChainID
      else if g_InitialHeight g < 1 then Some (ErrInitialHeight (g_InitialHeight g))
      else if g_StartTime g = zero_time then Some ErrZeroStartTime
      else if g_ProposerAddress g = None then Some ErrNilProposer
      else if g_DAEpochForcedInclusion g < 1 then Some (ErrEpochSize (g_DAEpochForcedInclusion g))
      else None)"

lemma Genesis_Validate_ok:
  "Genesis_Validate g = None \<Longrightarrow> g_ChainID g \<noteq> [] \<and> g_InitialHeight g \<noteq> 0 \<and> g_DAEpochForcedInclusion g \<noteq> 0"
  by (auto simp: Genesis_Validate_def not_less split: if_splits)

section \<open>The execution layer\<close>

datatype FilterStatus = FilterOK | FilterRemove | FilterPostpone

record ExecuteResult =
  er_UpdatedStateRoot :: bytes
  er_NextProposerAddress :: bytes

record exec_client =
  ec_InitChain :: "instant \<Rightarrow> u64 \<Rightarrow> string \<Rightarrow> string + bytes"
  ec_GetTxs :: "string + bytes list"
  ec_ExecuteTxs :: "bytes list \<Rightarrow> u64 \<Rightarrow> instant \<Rightarrow> bytes \<Rightarrow> string + ExecuteResult"
  ec_SetFinal :: "u64 \<Rightarrow> string option"
  ec_GetExecutionInfo :: "string + u64"
  ec_FilterTxs :: "bytes list \<Rightarrow> u64 \<Rightarrow> u64 \<Rightarrow> bool \<Rightarrow> string + FilterStatus list"

text \<open>What the interface documents of \<open>FilterTxs\<close>: one status for each transaction.\<close>

definition filter_contract :: "exec_client \<Rightarrow> bool" where
  "filter_contract X \<longleftrightarrow> (\<forall>txs maxBytes maxGas forced statuses.
     ec_FilterTxs X txs maxBytes maxGas forced = Inr statuses \<longrightarrow> length statuses = length txs)"

text \<open>The gas limit, none when the execution layer does not answer.\<close>

definition getMaxGas :: "exec_client \<Rightarrow> u64" where
  "getMaxGas X = (case ec_GetExecutionInfo X of Inl _ \<Rightarrow> 0 | Inr maxGas \<Rightarrow> maxGas)"

text \<open>The statuses of the transactions, all \<open>FilterOK\<close> when filtering fails.\<close>

definition filterStatuses :: "exec_client \<Rightarrow> bytes list \<Rightarrow> u64 \<Rightarrow> bool \<Rightarrow> FilterStatus list" where
  "filterStatuses X txs maxBytes forced =
     (case ec_FilterTxs X txs maxBytes (getMaxGas X) forced of
        Inl _ \<Rightarrow> replicate (length txs) FilterOK
      | Inr statuses \<Rightarrow> statuses)"

lemma length_filterStatuses: "filter_contract X \<Longrightarrow> length (filterStatuses X txs maxBytes forced) = length txs"
  by (auto simp: filter_contract_def filterStatuses_def split: sum.splits)

end
