(* ===== verification/Sequencers.thy ===== *)
theory Sequencers
  imports Batch_Queue Block_Store Forced_Inclusion Genesis
begin

text \<open>
  The sequencers: the checkpoint of the position in the DA layer (\<open>pkg/sequencers/common/checkpoint.go\<close>), the
  single sequencer (\<open>pkg/sequencers/single/sequencer.go\<close>), which puts the forced transactions of the DA epochs
  before its own queue, the based sequencer (\<open>pkg/sequencers/based/sequencer.go\<close>), which has only them, and the
  solo sequencer (\<open>pkg/sequencers/solo/sequencer.go\<close>), which has only a queue in memory. A call returns the new
  state with a response or an error; \<open>None\<close> is a call that does not return. The write-ahead log of the queue, the
  checkpoint and the block store live under disjoint prefixes of one database, which are three datastores here.
\<close>

section \<open>Checkpoint\<close>

record Checkpoint =
  cp_DAHeight :: u64
  cp_TxIndex :: u64

datatype cp_error =
    ErrCheckpointNotFound
  | ErrLoadCheckpoint ds_error
  | ErrUnmarshalCheckpoint
  | ErrMarshalCheckpoint
  | ErrSaveCheckpoint ds_error
  | ErrDeleteCheckpoint ds_error

record 'e checkpoint_env =
  ck_ds :: "'e datastore"
  ck_key :: string
  ck_Marshal :: "Checkpoint \<Rightarrow> bytes option"
  ck_Unmarshal :: "bytes \<Rightarrow> Checkpoint option"

definition Checkpoint_Load :: "'e checkpoint_env \<Rightarrow> 'e \<Rightarrow> cp_error + Checkpoint" where
  "Checkpoint_Load C db =
     (case ds_Get (ck_ds C) db (ck_key C) of
        Inl e \<Rightarrow> Inl (if e = ErrNotFound then ErrCheckpointNotFound else ErrLoadCheckpoint e)
      | Inr data \<Rightarrow> (case ck_Unmarshal C data of None \<Rightarrow> Inl ErrUnmarshalCheckpoint | Some c \<Rightarrow> Inr c))"

definition Checkpoint_Save :: "'e checkpoint_env \<Rightarrow> 'e \<Rightarrow> Checkpoint \<Rightarrow> 'e \<times> cp_error option" where
  "Checkpoint_Save C db c =
     (case ck_Marshal C c of
        None \<Rightarrow> (db, Some ErrMarshalCheckpoint)
      | Some data \<Rightarrow>
          (case ds_Put (ck_ds C) db (ck_key C) data of
             (db', None) \<Rightarrow> (db', None)
           | (db', Some e) \<Rightarrow> (db', Some (ErrSaveCheckpoint e))))"

definition Checkpoint_Delete :: "'e checkpoint_env \<Rightarrow> 'e \<Rightarrow> 'e \<times> cp_error option" where
  "Checkpoint_Delete C db =
     (case ds_Delete (ck_ds C) db (ck_key C) of
        (db', None) \<Rightarrow> (db', None)
      | (db', Some e) \<Rightarrow> if e = ErrNotFound then (db', None) else (db', Some (ErrDeleteCheckpoint e)))"

section \<open>Requests and responses\<close>

record GetNextBatchRequest =
  rq_Id :: bytes
  rq_LastBatchData :: "bytes list"
  rq_MaxBytes :: u64

record GetNextBatchResponse =
  rs_Batch :: "bytes list"
  rs_Timestamp :: instant
  rs_BatchData :: "bytes list"

datatype seq_error =
    ErrInvalidID
  | ErrNoBatch
  | ErrNoDAClient
  | ErrLoadQueue queue_error
  | ErrReconcileHeight store_error
  | ErrReconcileBlock u64 store_error
  | ErrReconcileDrop queue_error
  | ErrCheckpoint cp_error
  | ErrAddBatch queue_error
  | ErrAck queue_error
  | ErrForced da_error
  | ErrGetProofs string
  | ErrValidateProof string
  | ErrSoloQueueFull
  | ErrSeqCtx
  | ErrIndexOutOfRange

text \<open>A number of milliseconds as a \<open>time.Duration\<close>, an \<open>int64\<close> of nanoseconds that wraps.\<close>

definition millis :: "u64 \<Rightarrow> int" where
  "millis n = sint (n * 1000000)"

definition neg_millis :: "u64 \<Rightarrow> int" where
  "neg_millis n = sint ((- n) * 1000000)"

text \<open>The forced transactions that fit, of an event.\<close>

definition size_filter :: "u64 \<Rightarrow> bytes list \<Rightarrow> bytes list" where
  "size_filter maxBytes txs = filter (\<lambda>tx. word_of_nat (length tx) \<le> maxBytes) txs"

section \<open>The based sequencer\<close>

record ('e, 'c) BasedSequencer =
  bs_fiRetriever :: "'c forcedInclusionRetriever"
  bs_daHeight :: u64
  bs_db :: 'e
  bs_checkpoint :: Checkpoint
  bs_currentBatchTxs :: "bytes list"
  bs_currentDAEndTime :: instant
  bs_currentEpochTxCount :: u64

record ('e, 'c) based_env =
  be_fi :: "'c fi_env"
  be_ck :: "'e checkpoint_env"

definition NewBasedSequencer ::
  "('e, 'c) based_env \<Rightarrow> da_client \<Rightarrow> ('s, 'k) store_env \<Rightarrow> 's \<Rightarrow> Genesis \<Rightarrow> 'e \<Rightarrow> seq_error + ('e, 'c) BasedSequencer" where
  "NewBasedSequencer B D S store g db =
     (let daStartHeight = (case GetState S store of
            Inl _ \<Rightarrow> g_DAStartHeight g
          | Inr state \<Rightarrow> if 0 < st_DAHeight state then st_DAHeight state else g_DAStartHeight g);
          fi = NewForcedInclusionRetriever (be_fi B) D (g_DAStartHeight g) (g_DAEpochForcedInclusion g);
          new = (\<lambda>c. \<lparr>bs_fiRetriever = fi, bs_daHeight = daStartHeight, bs_db = db, bs_checkpoint = c,
                   bs_currentBatchTxs = [], bs_currentDAEndTime = g_StartTime g, bs_currentEpochTxCount = 0\<rparr>)
      in case Checkpoint_Load (be_ck B) db of
           Inl ErrCheckpointNotFound \<Rightarrow> Inr (new \<lparr>cp_DAHeight = daStartHeight, cp_TxIndex = 0\<rparr>)
         | Inl e \<Rightarrow> Inl (ErrCheckpoint e)
         | Inr checkpoint \<Rightarrow> Inr (new checkpoint))"

definition Based_SubmitBatchTxs :: "('e, 'c) BasedSequencer \<Rightarrow> bytes list \<Rightarrow> ('e, 'c) BasedSequencer" where
  "Based_SubmitBatchTxs s txs = s"

definition Based_SetDAHeight :: "('e, 'c) BasedSequencer \<Rightarrow> u64 \<Rightarrow> ('e, 'c) BasedSequencer" where
  "Based_SetDAHeight s height = s\<lparr>bs_daHeight := height\<rparr>"

definition Based_VerifyBatch :: "('e, 'c) BasedSequencer \<Rightarrow> bytes list \<Rightarrow> bool" where
  "Based_VerifyBatch s batchData = True"

definition Based_fetchNextDAEpoch ::
  "('e, 'c) based_env \<Rightarrow> da_client \<Rightarrow> ('e, 'c) BasedSequencer \<Rightarrow> u64 \<Rightarrow>
     (('e, 'c) BasedSequencer \<times> (seq_error + u64)) option" where
  "Based_fetchNextDAEpoch B D s maxBytes =
     map_option (\<lambda>(fi, res).
       let s = s\<lparr>bs_fiRetriever := fi\<rparr> in
       case res of
         Inl (ErrHeightFromFuture _) \<Rightarrow> (s, Inr 0)
       | Inl e \<Rightarrow> (s, Inl (ErrForced e))
       | Inr event \<Rightarrow>
           let validTxs = size_filter maxBytes (ev_Txs event)
           in (s\<lparr>bs_currentBatchTxs := validTxs,
                 bs_currentEpochTxCount := word_of_nat (length validTxs),
                 bs_currentDAEndTime := (if bs_currentDAEndTime s < ev_Timestamp event then ev_Timestamp event
                                         else bs_currentDAEndTime s)\<rparr>,
               Inr (ev_EndDaHeight event)))
     (RetrieveForcedIncludedTxs (be_fi B) D (bs_fiRetriever s) (cp_DAHeight (bs_checkpoint s)))"

text \<open>The loop over the statuses, which stops at the first transaction that is postponed: the valid transactions
  and how many are consumed; \<open>None\<close> is an index out of range.\<close>

fun based_loop :: "bytes list \<Rightarrow> FilterStatus list \<Rightarrow> bytes list \<Rightarrow> u64 \<Rightarrow> (bytes list \<times> u64) option" where
  "based_loop txs [] validTxs consumedCount = Some (validTxs, consumedCount)"
| "based_loop txs (FilterOK # statuses) validTxs consumedCount =
     (case txs of
        [] \<Rightarrow> None
      | tx # txs \<Rightarrow> based_loop txs statuses (validTxs @ [tx]) (consumedCount + 1))"
| "based_loop txs (FilterRemove # statuses) validTxs consumedCount =
     based_loop (tl txs) statuses validTxs (consumedCount + 1)"
| "based_loop txs (FilterPostpone # statuses) validTxs consumedCount = Some (validTxs, consumedCount)"

text \<open>The checkpoint after \<open>consumedCount\<close> transactions: the new state and the index used for the timestamp.\<close>

definition based_advance :: "('e, 'c) based_env \<Rightarrow> ('e, 'c) BasedSequencer \<Rightarrow> u64 \<Rightarrow> u64 \<Rightarrow>
    ('e, 'c) BasedSequencer \<times> u64 \<times> cp_error option" where
  "based_advance B s daHeight consumedCount =
     (let txIndex = cp_TxIndex (bs_checkpoint s) + consumedCount;
          s = s\<lparr>bs_checkpoint := (bs_checkpoint s)\<lparr>cp_TxIndex := txIndex\<rparr>\<rparr>;
          s = (if word_of_nat (length (bs_currentBatchTxs s)) \<le> txIndex
               then s\<lparr>bs_checkpoint := \<lparr>cp_DAHeight = daHeight + 1, cp_TxIndex = 0\<rparr>,
                      bs_currentBatchTxs := [], bs_daHeight := daHeight + 1\<rparr>
               else s);
          (db, e) = Checkpoint_Save (be_ck B) (bs_db s) (bs_checkpoint s)
      in (s\<lparr>bs_db := db\<rparr>, txIndex, e))"

definition based_remaining :: "('e, 'c) BasedSequencer \<Rightarrow> bytes list" where
  "based_remaining s =
     (if bs_currentBatchTxs s \<noteq> [] \<and> cp_TxIndex (bs_checkpoint s) < word_of_nat (length (bs_currentBatchTxs s))
      then drop (unat (cp_TxIndex (bs_checkpoint s))) (bs_currentBatchTxs s) else [])"

text \<open>\<open>GetNextBatch\<close> after the fetch, at the DA height it returned.\<close>

definition based_produce :: "('e, 'c) based_env \<Rightarrow> exec_client \<Rightarrow> ('e, 'c) BasedSequencer \<Rightarrow> u64 \<Rightarrow> GetNextBatchRequest \<Rightarrow>
    ('e, 'c) BasedSequencer \<times> (seq_error + GetNextBatchResponse)" where
  "based_produce B X s daHeight req =
     (let batchTxs = based_remaining s
      in case based_loop batchTxs (filterStatuses X batchTxs (rq_MaxBytes req) True) [] 0 of
           None \<Rightarrow> (s, Inl ErrIndexOutOfRange)
         | Some (validTxs, consumedCount) \<Rightarrow>
             (let (s, txIndexForTimestamp, err) =
                    (if 0 < daHeight \<or> batchTxs \<noteq> [] then based_advance B s daHeight consumedCount else (s, 0, None));
                  epochStart = bs_currentDAEndTime s + neg_millis (bs_currentEpochTxCount s)
              in case err of
                   Some e \<Rightarrow> (s, Inl (ErrCheckpoint e))
                 | None \<Rightarrow>
                     if validTxs = [] then (s, Inl ErrNoBatch)
                     else (s, Inr \<lparr>rs_Batch = validTxs, rs_Timestamp = epochStart + millis txIndexForTimestamp,
                                   rs_BatchData = rq_LastBatchData req\<rparr>)))"

definition Based_GetNextBatch ::
  "('e, 'c) based_env \<Rightarrow> da_client \<Rightarrow> exec_client \<Rightarrow> bool \<Rightarrow> ('e, 'c) BasedSequencer \<Rightarrow> GetNextBatchRequest \<Rightarrow>
     (('e, 'c) BasedSequencer \<times> (seq_error + GetNextBatchResponse)) option" where
  "Based_GetNextBatch B D X ctxErr s req =
     (if ctxErr then Some (s, Inl ErrSeqCtx)
      else if 0 < bs_daHeight s \<and> (bs_currentBatchTxs s = [] \<or>
                word_of_nat (length (bs_currentBatchTxs s)) \<le> cp_TxIndex (bs_checkpoint s))
      then map_option (\<lambda>(s, res). case res of
               Inl e \<Rightarrow> (s, Inl e)
             | Inr daEndHeight \<Rightarrow> based_produce B X s daEndHeight req)
           (Based_fetchNextDAEpoch B D s (rq_MaxBytes req))
      else Some (based_produce B X s (bs_daHeight s) req))"

section \<open>The single sequencer\<close>

datatype catchUp = catchUpUnchecked | catchUpInProgress | catchUpDone

record ('d, 'e, 'c) Sequencer =
  sq_Id :: bytes
  sq_queue :: "'d BatchQueue"
  sq_fiRetriever :: "'c forcedInclusionRetriever"
  sq_daHeight :: u64
  sq_daStartHeight :: u64
  sq_db :: 'e
  sq_checkpoint :: Checkpoint
  sq_cachedForcedInclusionTxs :: "bytes list"
  sq_catchUpState :: catchUp
  sq_currentDAEndTime :: instant
  sq_currentEpochTxCount :: u64

record ('d, 'e, 'c, 's, 'k) seq_env =
  se_queue :: "'d queue_env"
  se_fi :: "'c fi_env"
  se_ck :: "'e checkpoint_env"
  se_store :: "('s, 'k) store_env"
  se_genesis :: Genesis

definition reconcileQueueWithLastBlock ::
  "('d, 'e, 'c, 's, 'k) seq_env \<Rightarrow> 's \<Rightarrow> 'd BatchQueue \<Rightarrow> 'd BatchQueue \<times> seq_error option" where
  "reconcileQueueWithLastBlock E store q =
     (if Size q = 0 then (q, None)
      else case Height (se_store E) store of
        Inl e \<Rightarrow> (q, Some (ErrReconcileHeight e))
      | Inr height \<Rightarrow>
          if height = 0 then (q, None)
          else (case GetBlockData (se_store E) store height of
                  Inl e \<Rightarrow> (q, Some (ErrReconcileBlock height e))
                | Inr (_, data) \<Rightarrow>
                    if d_Txs data = [] then (q, None)
                    else (case DropIncluded (se_queue E) q (d_Txs data) of
                            (q', _, Some e) \<Rightarrow> (q', Some (ErrReconcileDrop e))
                          | (q', _, None) \<Rightarrow> (q', None))))"

definition getInitialDAStartHeight ::
  "('d, 'e, 'c, 's, 'k) seq_env \<Rightarrow> 's \<Rightarrow> ('d, 'e, 'c) Sequencer \<Rightarrow> ('d, 'e, 'c) Sequencer \<times> u64" where
  "getInitialDAStartHeight E store c =
     (if sq_daStartHeight c \<noteq> 0 then (c, sq_daStartHeight c)
      else case GetMetadata (se_store E) store GenesisDAHeightKey of
             Inl _ \<Rightarrow> (c, 0)
           | Inr b \<Rightarrow> if length b \<noteq> 8 then (c, 0)
                       else (c\<lparr>sq_daStartHeight := Uint64_LE b\<rparr>, Uint64_LE b))"

definition newRetriever :: "('d, 'e, 'c, 's, 'k) seq_env \<Rightarrow> da_client \<Rightarrow> 's \<Rightarrow> ('d, 'e, 'c) Sequencer \<Rightarrow> ('d, 'e, 'c) Sequencer" where
  "newRetriever E D store c =
     (let (c, initialDAHeight) = getInitialDAStartHeight E store c
      in c\<lparr>sq_fiRetriever := NewForcedInclusionRetriever (se_fi E) D initialDAHeight
             (g_DAEpochForcedInclusion (se_genesis E))\<rparr>)"

text \<open>The database of the queue is returned in every case: loading and reconciling may have changed it.\<close>

definition NewSequencer :: "('d, 'e, 'c, 's, 'k) seq_env \<Rightarrow> da_client option \<Rightarrow> 's \<Rightarrow> 'd \<Rightarrow> 'e \<Rightarrow> bytes \<Rightarrow> int \<Rightarrow>
    'd \<times> (seq_error + ('d, 'e, 'c) Sequencer)" where
  "NewSequencer E daClient store qdb db reqId maxQueueSize =
     (case daClient of
        None \<Rightarrow> (qdb, Inl ErrNoDAClient)
      | Some D \<Rightarrow>
        (case Load (se_queue E) (NewBatchQueue qdb maxQueueSize) of
           (q, Some e) \<Rightarrow> (bq_db q, Inl (ErrLoadQueue e))
         | (q, None) \<Rightarrow>
        (case reconcileQueueWithLastBlock E store q of
           (q, Some e) \<Rightarrow> (bq_db q, Inl e)
         | (q, None) \<Rightarrow>
           let g = se_genesis E;
               new = (\<lambda>c. (bq_db q, Inr (newRetriever E D store
                 \<lparr>sq_Id = reqId, sq_queue = q,
                  sq_fiRetriever = NewForcedInclusionRetriever (se_fi E) D 0 (g_DAEpochForcedInclusion g),
                  sq_daHeight = g_DAStartHeight g, sq_daStartHeight = g_DAStartHeight g, sq_db = db,
                  sq_checkpoint = c, sq_cachedForcedInclusionTxs = [], sq_catchUpState = catchUpUnchecked,
                  sq_currentDAEndTime = g_StartTime g, sq_currentEpochTxCount = 0\<rparr>)))
           in case Checkpoint_Load (se_ck E) db of
                Inl ErrCheckpointNotFound \<Rightarrow> new \<lparr>cp_DAHeight = g_DAStartHeight g, cp_TxIndex = 0\<rparr>
              | Inl e \<Rightarrow> (bq_db q, Inl (ErrCheckpoint e))
              | Inr checkpoint \<Rightarrow> new checkpoint)))"

definition SetDAHeight :: "('d, 'e, 'c) Sequencer \<Rightarrow> u64 \<Rightarrow> ('d, 'e, 'c) Sequencer" where
  "SetDAHeight c height = c\<lparr>sq_daHeight := height\<rparr>"

definition isValid :: "('d, 'e, 'c) Sequencer \<Rightarrow> bytes \<Rightarrow> bool" where
  "isValid c reqId \<longleftrightarrow> sq_Id c = reqId"

definition isCatchingUp :: "('d, 'e, 'c) Sequencer \<Rightarrow> bool" where
  "isCatchingUp c \<longleftrightarrow> sq_catchUpState c = catchUpInProgress"

definition SubmitBatchTxs :: "('d, 'e, 'c, 's, 'k) seq_env \<Rightarrow> ('d, 'e, 'c) Sequencer \<Rightarrow> bytes \<Rightarrow> bytes list \<Rightarrow>
    ('d, 'e, 'c) Sequencer \<times> seq_error option" where
  "SubmitBatchTxs E c reqId txs =
     (if \<not> isValid c reqId then (c, Some ErrInvalidID)
      else if txs = [] then (c, None)
      else case AddBatch (se_queue E) (sq_queue c) txs of
             (q, Some e) \<Rightarrow> (c\<lparr>sq_queue := q\<rparr>, Some (ErrAddBatch e))
           | (q, None) \<Rightarrow> (c\<lparr>sq_queue := q\<rparr>, None))"

definition AckBatch :: "('d, 'e, 'c, 's, 'k) seq_env \<Rightarrow> ('d, 'e, 'c) Sequencer \<Rightarrow> ('d, 'e, 'c) Sequencer \<times> seq_error option" where
  "AckBatch E c =
     (case Ack (se_queue E) (sq_queue c) of (q, e) \<Rightarrow> (c\<lparr>sq_queue := q\<rparr>, map_option ErrAck e))"

definition VerifyBatch :: "(bytes list \<Rightarrow> bytes \<Rightarrow> string + bytes list) \<Rightarrow>
    (bytes list \<Rightarrow> bytes list \<Rightarrow> bytes \<Rightarrow> string + bool list) \<Rightarrow> ('d, 'e, 'c) Sequencer \<Rightarrow> bytes \<Rightarrow> bytes list \<Rightarrow> seq_error + bool" where
  "VerifyBatch da_GetProofs da_Validate c reqId batchData =
     (if \<not> isValid c reqId then Inl ErrInvalidID
      else bindE (mapE ErrGetProofs (da_GetProofs batchData (sq_Id c))) (\<lambda>proofs.
           bindE (mapE ErrValidateProof (da_Validate batchData proofs (sq_Id c))) (\<lambda>valid.
             Inr (list_all (\<lambda>v. v) valid))))"

definition updateCatchUpState :: "('d, 'e, 'c, 's, 'k) seq_env \<Rightarrow> da_client \<Rightarrow> 's \<Rightarrow> ('d, 'e, 'c) Sequencer \<Rightarrow>
    ('d, 'e, 'c) Sequencer" where
  "updateCatchUpState E D store c =
     (if sq_catchUpState c \<noteq> catchUpUnchecked then c
      else
        let c = c\<lparr>sq_catchUpState := catchUpDone\<rparr>;
            epochSize = g_DAEpochForcedInclusion (se_genesis E);
            daStartHeight = g_DAStartHeight (se_genesis E);
            currentDAHeight = cp_DAHeight (sq_checkpoint c)
        in if epochSize = 0 then c
           else case dc_GetLatestDAHeight D of
             Inl _ \<Rightarrow> c
           | Inr latestDAHeight \<Rightarrow>
               if latestDAHeight \<le> currentDAHeight then c
               else let currentEpoch = CalculateEpochNumber currentDAHeight daStartHeight epochSize;
                        latestEpoch = CalculateEpochNumber latestDAHeight daStartHeight epochSize;
                        missedEpochs = latestEpoch - currentEpoch
                    in if missedEpochs = 0 then c
                       else let c = c\<lparr>sq_catchUpState := catchUpInProgress\<rparr>
                            in case GetState (se_store E) store of
                                 Inl _ \<Rightarrow> c
                               | Inr state \<Rightarrow>
                                   if st_LastBlockTime state \<noteq> zero_time \<and> sq_currentDAEndTime c < st_LastBlockTime state
                                   then c\<lparr>sq_currentDAEndTime := st_LastBlockTime state\<rparr> else c)"

definition fetchNextDAEpoch :: "('d, 'e, 'c, 's, 'k) seq_env \<Rightarrow> da_client \<Rightarrow> 's \<Rightarrow> ('d, 'e, 'c) Sequencer \<Rightarrow> u64 \<Rightarrow>
    (('d, 'e, 'c) Sequencer \<times> (seq_error + u64)) option" where
  "fetchNextDAEpoch E D store c maxBytes =
     (let c = updateCatchUpState E D store c in
      map_option (\<lambda>(fi, res).
        let c = c\<lparr>sq_fiRetriever := fi\<rparr> in
        case res of
          Inl (ErrHeightFromFuture _) \<Rightarrow>
            (if sq_catchUpState c = catchUpInProgress then c\<lparr>sq_catchUpState := catchUpDone\<rparr> else c, Inr 0)
        | Inl ErrForceInclusionNotConfigured \<Rightarrow>
            (c\<lparr>sq_cachedForcedInclusionTxs := [], sq_catchUpState := catchUpDone\<rparr>, Inr 0)
        | Inl e \<Rightarrow> (c, Inl (ErrForced e))
        | Inr event \<Rightarrow>
            let validTxs = size_filter maxBytes (ev_Txs event)
            in (c\<lparr>sq_cachedForcedInclusionTxs := validTxs,
                  sq_currentEpochTxCount := word_of_nat (length validTxs),
                  sq_currentDAEndTime := (if sq_currentDAEndTime c < ev_Timestamp event then ev_Timestamp event
                                          else sq_currentDAEndTime c)\<rparr>,
                Inr (ev_EndDaHeight event)))
      (RetrieveForcedIncludedTxs (se_fi E) D (sq_fiRetriever c) (cp_DAHeight (sq_checkpoint c))))"

text \<open>The loop over the statuses: the first \<open>forcedTxCount\<close> transactions are forced and keep their order, the
  others come from the queue. \<open>None\<close> is an index out of range.\<close>

record filtered =
  fl_validForcedTxs :: "bytes list"
  fl_validMempoolTxs :: "bytes list"
  fl_postponedMempoolTxs :: "bytes list"
  fl_forcedTxConsumedCount :: u64
  fl_forcedTxPostponed :: bool

definition no_filtered :: filtered where
  "no_filtered = \<lparr>fl_validForcedTxs = [], fl_validMempoolTxs = [], fl_postponedMempoolTxs = [],
     fl_forcedTxConsumedCount = 0, fl_forcedTxPostponed = False\<rparr>"

fun filter_loop :: "nat \<Rightarrow> bytes list \<Rightarrow> FilterStatus list \<Rightarrow> filtered \<Rightarrow> filtered option" where
  "filter_loop n txs [] a = Some a"
| "filter_loop (Suc n) txs (status # statuses) a =
     (if fl_forcedTxPostponed a then filter_loop n (tl txs) statuses a
      else case status of
        FilterOK \<Rightarrow>
          (case txs of
             [] \<Rightarrow> None
           | tx # _ \<Rightarrow> filter_loop n (tl txs) statuses
               (a\<lparr>fl_validForcedTxs := fl_validForcedTxs a @ [tx],
                  fl_forcedTxConsumedCount := fl_forcedTxConsumedCount a + 1\<rparr>))
      | FilterRemove \<Rightarrow> filter_loop n (tl txs) statuses
          (a\<lparr>fl_forcedTxConsumedCount := fl_forcedTxConsumedCount a + 1\<rparr>)
      | FilterPostpone \<Rightarrow> filter_loop n (tl txs) statuses (a\<lparr>fl_forcedTxPostponed := True\<rparr>))"
| "filter_loop 0 txs (status # statuses) a =
     (case status of
        FilterOK \<Rightarrow>
          (case txs of
             [] \<Rightarrow> None
           | tx # _ \<Rightarrow> filter_loop 0 (tl txs) statuses (a\<lparr>fl_validMempoolTxs := fl_validMempoolTxs a @ [tx]\<rparr>))
      | FilterPostpone \<Rightarrow>
          (case txs of
             [] \<Rightarrow> None
           | tx # _ \<Rightarrow> filter_loop 0 (tl txs) statuses (a\<lparr>fl_postponedMempoolTxs := fl_postponedMempoolTxs a @ [tx]\<rparr>))
      | FilterRemove \<Rightarrow> filter_loop 0 (tl txs) statuses a)"

text \<open>The checkpoint after \<open>consumedCount\<close> forced transactions: the new state and the index used for the timestamp.\<close>

definition advance :: "('d, 'e, 'c, 's, 'k) seq_env \<Rightarrow> ('d, 'e, 'c) Sequencer \<Rightarrow> u64 \<Rightarrow> u64 \<Rightarrow>
    ('d, 'e, 'c) Sequencer \<times> u64 \<times> cp_error option" where
  "advance E c daHeight consumedCount =
     (let txIndex = cp_TxIndex (sq_checkpoint c) + consumedCount;
          c = c\<lparr>sq_checkpoint := (sq_checkpoint c)\<lparr>cp_TxIndex := txIndex\<rparr>\<rparr>;
          c = (if word_of_nat (length (sq_cachedForcedInclusionTxs c)) \<le> txIndex
               then c\<lparr>sq_checkpoint := \<lparr>cp_DAHeight = daHeight + 1, cp_TxIndex = 0\<rparr>,
                      sq_cachedForcedInclusionTxs := [], sq_daHeight := daHeight + 1\<rparr>
               else c);
          (db, e) = Checkpoint_Save (se_ck E) (sq_db c) (sq_checkpoint c)
      in (c\<lparr>sq_db := db\<rparr>, txIndex, e))"

definition remaining :: "('d, 'e, 'c) Sequencer \<Rightarrow> bytes list" where
  "remaining c =
     (if sq_cachedForcedInclusionTxs c \<noteq> [] \<and>
         cp_TxIndex (sq_checkpoint c) < word_of_nat (length (sq_cachedForcedInclusionTxs c))
      then drop (unat (cp_TxIndex (sq_checkpoint c))) (sq_cachedForcedInclusionTxs c) else [])"

text \<open>\<open>GetNextBatch\<close> after the fetch, at the DA height it returned: the queue is drained, the transactions are
  filtered, the checkpoint advances, and the batch is stamped.\<close>

definition produce :: "('d, 'e, 'c, 's, 'k) seq_env \<Rightarrow> exec_client \<Rightarrow> instant \<Rightarrow> ('d, 'e, 'c) Sequencer \<Rightarrow> u64 \<Rightarrow>
    GetNextBatchRequest \<Rightarrow> ('d, 'e, 'c) Sequencer \<times> (seq_error + GetNextBatchResponse)" where
  "produce E X now c daHeight req =
     (let forcedTxs = remaining c;
          (q, mempoolBatch) = (if sq_catchUpState c \<noteq> catchUpInProgress
                               then Drain (se_queue E) (sq_queue c) (rq_MaxBytes req) else (sq_queue c, []));
          c = c\<lparr>sq_queue := q\<rparr>;
          allTxs = forcedTxs @ mempoolBatch
      in case filter_loop (length forcedTxs) allTxs
                (filterStatuses X allTxs (rq_MaxBytes req) (0 < length forcedTxs)) no_filtered of
           None \<Rightarrow> (c, Inl ErrIndexOutOfRange)
         | Some a \<Rightarrow>
             (let c = c\<lparr>sq_queue := SetPostponed (sq_queue c) (fl_postponedMempoolTxs a)\<rparr>;
                  (c, txIndexForTimestamp, err) =
                    (if 0 < daHeight \<or> forcedTxs \<noteq> [] then advance E c daHeight (fl_forcedTxConsumedCount a)
                     else (c, 0, None));
                  batchTxs = fl_validForcedTxs a @ fl_validMempoolTxs a;
                  timestamp =
                    (if sq_catchUpState c = catchUpInProgress \<or> 0 < fl_forcedTxConsumedCount a
                     then sq_currentDAEndTime c + neg_millis (sq_currentEpochTxCount c) + millis txIndexForTimestamp
                     else now)
              in case err of
                   Some e \<Rightarrow> (c, Inl (ErrCheckpoint e))
                 | None \<Rightarrow>
                     if isCatchingUp c \<and> batchTxs = [] then (c, Inl ErrNoBatch)
                     else (c, Inr \<lparr>rs_Batch = batchTxs, rs_Timestamp = timestamp,
                                   rs_BatchData = rq_LastBatchData req\<rparr>)))"

text \<open>The sequencer learns the DA height at which the chain started.\<close>

definition bootstrap :: "('d, 'e, 'c, 's, 'k) seq_env \<Rightarrow> da_client \<Rightarrow> 's \<Rightarrow> ('d, 'e, 'c) Sequencer \<Rightarrow> ('d, 'e, 'c) Sequencer" where
  "bootstrap E D store c =
     (if 0 < sq_daHeight c \<and> cp_DAHeight (sq_checkpoint c) = 0
      then newRetriever E D store (c\<lparr>sq_checkpoint := \<lparr>cp_DAHeight = sq_daHeight c, cp_TxIndex = 0\<rparr>\<rparr>)
      else c)"

definition GetNextBatch :: "('d, 'e, 'c, 's, 'k) seq_env \<Rightarrow> da_client \<Rightarrow> exec_client \<Rightarrow> instant \<Rightarrow> 's \<Rightarrow>
    ('d, 'e, 'c) Sequencer \<Rightarrow> GetNextBatchRequest \<Rightarrow>
    (('d, 'e, 'c) Sequencer \<times> (seq_error + GetNextBatchResponse)) option" where
  "GetNextBatch E D X now store c req =
     (if \<not> isValid c (rq_Id req) then Some (c, Inl ErrInvalidID)
      else
        let c = bootstrap E D store c
        in if 0 < sq_daHeight c \<and> (sq_cachedForcedInclusionTxs c = [] \<or>
                word_of_nat (length (sq_cachedForcedInclusionTxs c)) \<le> cp_TxIndex (sq_checkpoint c))
           then map_option (\<lambda>(c, res). case res of
                    Inl e \<Rightarrow> (c, Inl e)
                  | Inr daEndHeight \<Rightarrow> produce E X now c daEndHeight req)
                (fetchNextDAEpoch E D store c (rq_MaxBytes req))
           else Some (produce E X now c (sq_daHeight c) req))"

section \<open>The solo sequencer\<close>

record SoloSequencer =
  so_id :: bytes
  so_daHeight :: u64
  so_queue :: "bytes list"
  so_queueBytes :: u64
  so_maxQueueBytes :: u64

definition NewSoloSequencer :: "bytes \<Rightarrow> u64 \<Rightarrow> SoloSequencer" where
  "NewSoloSequencer reqId maxQueueBytes =
     \<lparr>so_id = reqId, so_daHeight = 0, so_queue = [], so_queueBytes = 0, so_maxQueueBytes = maxQueueBytes\<rparr>"

definition Solo_SubmitBatchTxs :: "SoloSequencer \<Rightarrow> bytes \<Rightarrow> bytes list \<Rightarrow> SoloSequencer \<times> seq_error option" where
  "Solo_SubmitBatchTxs s reqId txs =
     (if so_id s \<noteq> reqId then (s, Some ErrInvalidID)
      else if txs = [] then (s, None)
      else if so_maxQueueBytes s = 0 then (s\<lparr>so_queue := so_queue s @ txs\<rparr>, None)
      else if so_maxQueueBytes s < so_queueBytes s + entryBytes txs then (s, Some ErrSoloQueueFull)
      else (s\<lparr>so_queue := so_queue s @ txs, so_queueBytes := so_queueBytes s + entryBytes txs\<rparr>, None))"

text \<open>The loop over the statuses: the transactions kept, which overwrite the front of the slice, and the postponed
  ones. \<open>None\<close> is an index out of range.\<close>

fun solo_loop :: "bytes list \<Rightarrow> FilterStatus list \<Rightarrow> (bytes list \<times> bytes list) option" where
  "solo_loop txs [] = Some ([], [])"
| "solo_loop txs (FilterRemove # statuses) = solo_loop (tl txs) statuses"
| "solo_loop txs (FilterOK # statuses) =
     (case txs of [] \<Rightarrow> None | tx # txs \<Rightarrow> map_option (\<lambda>(kept, postponed). (tx # kept, postponed)) (solo_loop txs statuses))"
| "solo_loop txs (FilterPostpone # statuses) =
     (case txs of [] \<Rightarrow> None | tx # txs \<Rightarrow> map_option (\<lambda>(kept, postponed). (kept, tx # postponed)) (solo_loop txs statuses))"

text \<open>The queue is taken under the lock, the filter runs without it, and the postponed transactions are put back
  under the lock, before whatever was submitted in between (\<open>between\<close>).\<close>

definition Solo_take :: "SoloSequencer \<Rightarrow> SoloSequencer \<times> bytes list" where
  "Solo_take s = (s\<lparr>so_queue := [], so_queueBytes := 0\<rparr>, so_queue s)"

definition Solo_putBack :: "SoloSequencer \<Rightarrow> bytes list \<Rightarrow> SoloSequencer" where
  "Solo_putBack s postponedTxs =
     (if postponedTxs = [] then s
      else s\<lparr>so_queue := postponedTxs @ so_queue s, so_queueBytes := so_queueBytes s + entryBytes postponedTxs\<rparr>)"

definition Solo_GetNextBatch :: "exec_client \<Rightarrow> instant \<Rightarrow> (SoloSequencer \<Rightarrow> SoloSequencer) \<Rightarrow> SoloSequencer \<Rightarrow> GetNextBatchRequest \<Rightarrow>
    SoloSequencer \<times> (seq_error + GetNextBatchResponse)" where
  "Solo_GetNextBatch X now between s req =
     (if so_id s \<noteq> rq_Id req then (s, Inl ErrInvalidID)
      else
        let (s, txs) = Solo_take s;
            s = between s;
            response = (\<lambda>batch. Inr \<lparr>rs_Batch = batch, rs_Timestamp = now, rs_BatchData = rq_LastBatchData req\<rparr>)
        in if txs = [] then (s, response [])
           else case ec_FilterTxs X txs (rq_MaxBytes req) (getMaxGas X) False of
                  Inl _ \<Rightarrow> (s, response txs)
                | Inr statuses \<Rightarrow>
                    (case solo_loop txs statuses of
                       None \<Rightarrow> (s, Inl ErrIndexOutOfRange)
                     | Some (kept, postponed) \<Rightarrow> (Solo_putBack s postponed, response kept)))"

definition Solo_VerifyBatch :: "SoloSequencer \<Rightarrow> bytes \<Rightarrow> seq_error + bool" where
  "Solo_VerifyBatch s reqId = (if so_id s \<noteq> reqId then Inl ErrInvalidID else Inr True)"

definition Solo_SetDAHeight :: "SoloSequencer \<Rightarrow> u64 \<Rightarrow> SoloSequencer" where
  "Solo_SetDAHeight s height = s\<lparr>so_daHeight := height\<rparr>"

end
