(* ===== verification/Forced_Laws.thy ===== *)
theory Forced_Laws
  imports Forced_Inclusion Protobuf
begin

text \<open>
  The forced inclusion retriever against the DA ledger. \<open>fi_reachable\<close> are the states a retriever can be in
  while subscription events and catch-up calls fill its cache; the locale \<open>block_cache\<close> states what is
  relied on (the datastore laws and that \<open>proto.Unmarshal\<close> inverts \<open>proto.Marshal\<close>) and shows that every
  cached block is the ledger's; it is interpreted on the in-memory datastores of \<open>Datastore\<close>.
\<close>

section \<open>The cache agrees with the DA ledger\<close>

text \<open>
  The DA ledger: the block time and the blobs of every height in the forced inclusion namespace. A client is
  honest when the heights it reports are the ledger's; it may fail, or say that a height is not there yet.
\<close>

record ledger =
  led_Time :: "u64 \<Rightarrow> instant"
  led_Blobs :: "u64 \<Rightarrow> bytes list"

definition txs_at :: "ledger \<Rightarrow> u64 \<Rightarrow> bytes list" where
  "txs_at L h = filter (\<lambda>blob. blob \<noteq> []) (led_Blobs L h)"

definition honest :: "ledger \<Rightarrow> da_client \<Rightarrow> bool" where
  "honest L D \<longleftrightarrow> (\<forall>h. let result = dc_Retrieve D h (dc_GetForcedInclusionNamespace D) in
     (rr_Code result = StatusSuccess \<longrightarrow> rr_Timestamp result = led_Time L h \<and> rr_Data result = led_Blobs L h) \<and>
     (rr_Code result = StatusNotFound \<longrightarrow> rr_Timestamp result = led_Time L h \<and> led_Blobs L h = []))"

definition representable :: "ledger \<Rightarrow> bool" where
  "representable L \<longleftrightarrow> (\<forall>h. - (2 ^ 63) \<le> led_Time L h \<and> led_Time L h < 2 ^ 63)"

text \<open>The states of a retriever: its background cache is fed by subscription events and catch-up calls in
  any order, between the calls of the sequencer.\<close>

inductive fi_reachable :: "'c fi_env \<Rightarrow> ledger \<Rightarrow> bytes \<Rightarrow> 'c forcedInclusionRetriever \<Rightarrow> bool" for F L ns where
  new: "dc_GetForcedInclusionNamespace D = ns \<Longrightarrow> fi_reachable F L ns (NewForcedInclusionRetriever F D st sz)"
| event: "fi_reachable F L ns r \<Longrightarrow> filter (\<lambda>blob. blob \<noteq> []) blobs = txs_at L h \<Longrightarrow>
    HandleEvent F ctxErr (fi_asyncFetcher r) h (led_Time L h) blobs isInline = (f, e) \<Longrightarrow>
    fi_reachable F L ns (r\<lparr>fi_asyncFetcher := f\<rparr>)"
| catchup: "fi_reachable F L ns r \<Longrightarrow> honest L D \<Longrightarrow> dc_GetForcedInclusionNamespace D = ns \<Longrightarrow>
    HandleCatchup F D ctxErr (fi_asyncFetcher r) h = Some (f, e) \<Longrightarrow>
    fi_reachable F L ns (r\<lparr>fi_asyncFetcher := f\<rparr>)"
| retrieve: "fi_reachable F L ns r \<Longrightarrow> honest L D \<Longrightarrow> dc_GetForcedInclusionNamespace D = ns \<Longrightarrow>
    RetrieveForcedIncludedTxs F D r h = Some (r', res) \<Longrightarrow> fi_reachable F L ns r'"

lemma clean_block_key: "clean_path (''/block/'' @ FormatUint h)"
proof -
  have "CHR ''/'' \<notin> set (FormatUint h)" using decimal_plain by (auto simp: FormatUint_def)
  moreover have "clean_comp (FormatUint h)"
    using decimal_plain [of _ "unat h"] by (force simp: clean_comp_def FormatUint_def)
  ultimately show ?thesis
    using path_comps_append [of "''block''" "FormatUint h"]
    by (simp add: clean_path_def path_comps_plain clean_comp_def)
qed

lemma unix_nano_UnixNano: "representable L \<Longrightarrow> unix_nano (UnixNano (led_Time L h)) = led_Time L h"
  by (simp add: representable_def UnixNano_def unix_nano_def sint_sbintrunc' signed_take_bit_int_eq_self)

text \<open>The specification: the transactions of the heights in order, and the latest time.\<close>

definition epoch_txs :: "ledger \<Rightarrow> u64 list \<Rightarrow> bytes list" where
  "epoch_txs L hs = concat (map (txs_at L) hs)"

definition epoch_time :: "ledger \<Rightarrow> u64 list \<Rightarrow> instant" where
  "epoch_time L hs = fold (\<lambda>h t. max t (led_Time L h)) hs zero_time"

definition epoch_event :: "ledger \<Rightarrow> u64 \<Rightarrow> u64 \<Rightarrow> ForcedInclusionEvent" where
  "epoch_event L s e = \<lparr>ev_Timestamp = epoch_time L (u64_range s e), ev_StartDaHeight = s, ev_EndDaHeight = e,
     ev_Txs = epoch_txs L (u64_range s e)\<rparr>"

definition agrees :: "ledger \<Rightarrow> u64 \<Rightarrow> BlockData \<Rightarrow> bool" where
  "agrees L h b \<longleftrightarrow> bd_Timestamp b = led_Time L h \<and> filter (\<lambda>blob. blob \<noteq> []) (bd_Blobs b) = txs_at L h"

lemma add_blocks_agree:
  assumes "\<And>h. h \<in> set hs \<Longrightarrow>
    (\<exists>b. agrees L h b \<and> (cached h = Some b \<or> cached h = None \<and> fetched h = Some b))"
  shows "add_blocks cached fetched hs ev =
    ev\<lparr>ev_Timestamp := fold (\<lambda>h t. max t (led_Time L h)) hs (ev_Timestamp ev), ev_Txs := ev_Txs ev @ epoch_txs L hs\<rparr>"
  using assms
proof (induction hs arbitrary: ev)
  case Nil
  show ?case by (simp add: epoch_txs_def)
next
  case (Cons h hs)
  obtain b where b: "agrees L h b" "cached h = Some b \<or> cached h = None \<and> fetched h = Some b"
    using Cons.prems [of h] by auto
  have "add_blocks cached fetched (h # hs) ev = add_blocks cached fetched hs (add_block ev b)"
    using b(2) by auto
  also have "add_block ev b = ev\<lparr>ev_Timestamp := max (ev_Timestamp ev) (led_Time L h), ev_Txs := ev_Txs ev @ txs_at L h\<rparr>"
    using b(1) by (simp add: add_block_def agrees_def Let_def max_def)
  finally show ?case
    using Cons by (simp add: epoch_txs_def)
qed

lemma fetch_missing_agree:
  assumes "honest L D" and "fetch_missing D hs = Inr (blocks, errs)" and "errs = []" and "h \<in> set hs"
  shows "\<exists>b. blocks h = Some b \<and> agrees L h b"
  using assms(2-4)
proof (induction hs arbitrary: blocks errs)
  case (Cons x hs)
  let ?res = "dc_Retrieve D x (dc_GetForcedInclusionNamespace D)"
  from Cons.prems obtain bs b where bs: "fetch_missing D hs = Inr (bs, [])"
    and b: "blocks = bs(x \<mapsto> b)" "bd_Timestamp b = rr_Timestamp ?res"
    and c: "rr_Code ?res = StatusNotFound \<and> bd_Blobs b = [] \<or> rr_Code ?res = StatusSuccess \<and> bd_Blobs b = rr_Data ?res"
    by (auto simp: bindE_eq_Inr Let_def split: if_splits prod.splits)
  have "agrees L x b" using assms(1) b(2) c by (auto simp: honest_def Let_def agrees_def txs_at_def)
  with Cons.IH [OF bs refl] Cons.prems(3) b(1) show ?case by auto
qed simp

lemma read_cache_missing: "read_cache F f hs = (cached, missing) \<Longrightarrow> h \<in> set hs \<Longrightarrow> cached h = None \<Longrightarrow> h \<in> set missing"
  by (induction hs arbitrary: cached missing)
    (auto simp: Let_def split: prod.splits sum.splits option.splits if_splits)

lemma read_cache_found: "read_cache F f hs = (cached, missing) \<Longrightarrow> cached h = Some b \<Longrightarrow> GetCachedBlock F f h = Inr (Some b)"
  by (induction hs arbitrary: cached missing)
    (auto simp: Let_def split: prod.splits sum.splits option.splits if_splits)

text \<open>What goes wrong while the heights that are not cached are fetched.\<close>

definition fetch_errors :: "'c fi_env \<Rightarrow> da_client \<Rightarrow> 'c asyncBlockRetriever \<Rightarrow> u64 list \<Rightarrow> da_error + da_error list" where
  "fetch_errors F D f hs = bindE (fetch_missing D (snd (read_cache F f hs))) (\<lambda>(_, errs). Inr errs)"

locale block_cache = datastore_laws "fe_ds F" view for F :: "'c fi_env" and view +
  assumes blockData_codec: "fe_Marshal F x = Some b \<Longrightarrow> fe_Unmarshal F b = Some x"
    and empty_cache: "view (fe_empty F) = Map.empty"
begin

lemma block_key: "newBlockDataKey F h = ''/block/'' @ FormatUint h"
  using newKey_clean [OF clean_block_key] by (simp add: newBlockDataKey_def)

lemma block_key_inj: "newBlockDataKey F h = newBlockDataKey F h' \<longleftrightarrow> h = h'"
  by (simp add: block_key)

definition cache_sound :: "ledger \<Rightarrow> 'c asyncBlockRetriever \<Rightarrow> bool" where
  "cache_sound L f \<longleftrightarrow> (\<forall>h data. view (ar_cache f) (newBlockDataKey F h) = Some data \<longrightarrow>
     (\<exists>blobs. fe_Unmarshal F data = Some (h, UnixNano (led_Time L h), blobs) \<and>
        filter (\<lambda>blob. blob \<noteq> []) blobs = txs_at L h))"

lemma cacheBlock_sound:
  assumes "cache_sound L f" and "filter (\<lambda>blob. blob \<noteq> []) blobs = txs_at L h"
  shows "cache_sound L (cacheBlock F f h (led_Time L h) blobs)"
proof (cases "fe_Marshal F (h, UnixNano (led_Time L h), blobs)")
  case None
  with assms show ?thesis by (simp add: cacheBlock_def)
next
  case (Some data)
  obtain c e where p: "ds_Put (fe_ds F) (ar_cache f) (newBlockDataKey F h) data = (c, e)" by fastforce
  have "view c = view (ar_cache f) \<or> view c = (view (ar_cache f))(newBlockDataKey F h \<mapsto> data)"
    using p put_ok put_failed by (cases e) auto
  with assms p Some blockData_codec [OF Some] show ?thesis
    by (auto simp: cacheBlock_def cache_sound_def block_key_inj split: if_splits)
qed

lemma cacheBlock_namespace [simp]: "ar_namespace (cacheBlock F f h t blobs) = ar_namespace f"
  by (simp add: cacheBlock_def split: option.splits)

lemma fetch_sound:
  assumes "honest L D" and "ar_namespace f = dc_GetForcedInclusionNamespace D" and "cache_sound L f"
    and "fetchAndCacheBlock F D ctxErr f h = (f', e)"
  shows "cache_sound L f' \<and> ar_namespace f' = ar_namespace f"
proof -
  let ?res = "dc_Retrieve D h (dc_GetForcedInclusionNamespace D)"
  have "rr_Code ?res = StatusSuccess \<Longrightarrow> rr_Timestamp ?res = led_Time L h \<and> rr_Data ?res = led_Blobs L h"
    and "rr_Code ?res = StatusNotFound \<Longrightarrow> rr_Timestamp ?res = led_Time L h \<and> led_Blobs L h = []"
    using assms(1) by (simp_all add: honest_def Let_def)
  with assms(2-4) cacheBlock_sound [OF assms(3)] show ?thesis
    by (auto simp: fetchAndCacheBlock_def txs_at_def Let_def split: StatusCode.splits if_splits)
qed

lemma prefetch_sound:
  assumes "prefetch_loop F' D' ctxErr h target f = Some res"
  shows "F' = F \<longrightarrow> D' = D \<longrightarrow> honest L D \<longrightarrow> ar_namespace f = dc_GetForcedInclusionNamespace D \<longrightarrow>
    cache_sound L f \<longrightarrow> cache_sound L (fst res) \<and> ar_namespace (fst res) = ar_namespace f"
proof (rule prefetch_loop.raw_induct [OF _ assms, where P = "\<lambda>F' D' ctxErr h target f res. F' = F \<longrightarrow> D' = D \<longrightarrow>
      honest L D \<longrightarrow> ar_namespace f = dc_GetForcedInclusionNamespace D \<longrightarrow> cache_sound L f \<longrightarrow>
      cache_sound L (fst res) \<and> ar_namespace (fst res) = ar_namespace f"], goal_cases)
  case (1 loop F' D' ctxErr h target f res)
  show ?case
  proof (intro impI)
    assume *: "F' = F" "D' = D" "honest L D" "ar_namespace f = dc_GetForcedInclusionNamespace D" "cache_sound L f"
    obtain f1 e1 where f1: "fetchAndCacheBlock F D ctxErr f h = (f1, e1)" by fastforce
    note s1 = fetch_sound [OF *(3-5) f1]
    obtain f2 e2 where res: "res = (f2, e2)" by fastforce
    show "cache_sound L (fst res) \<and> ar_namespace (fst res) = ar_namespace f"
      using 1(2) * f1 s1 1(1) [of F' D' ctxErr "h + 1" target f res] 1(1) [of F' D' ctxErr "h + 1" target f1 res]
      unfolding res by (auto split: if_splits option.splits)
  qed
qed

lemma HandleCatchup_sound:
  assumes "honest L D" and "ar_namespace f = dc_GetForcedInclusionNamespace D" and "cache_sound L f"
    and "HandleCatchup F D ctxErr f h = Some (f', e)"
  shows "cache_sound L f' \<and> ar_namespace f' = ar_namespace f"
proof -
  obtain f1 e1 where f1: "fetchAndCacheBlock F D ctxErr f h = (f1, e1)" by fastforce
  note s1 = fetch_sound [OF assms(1-3) f1]
  show ?thesis
    using assms f1 s1 prefetch_sound [of F D ctxErr "h + 1" _ f "(f', e)" D L] prefetch_sound [of F D ctxErr "h + 1" _ f1 "(f', e)" D L]
    by (auto simp: HandleCatchup_def split: if_splits option.splits)
qed

lemma delete_shrinks: "view (fst (ds_Delete (fe_ds F) c k)) \<subseteq>\<^sub>m view c"
proof -
  obtain c' e where d: "ds_Delete (fe_ds F) c k = (c', e)" by fastforce
  have "view c' = view c \<or> view c' = (view c)(k := None)"
    using delete_ok delete_failed d by (cases e) metis+
  then show ?thesis unfolding d by (auto simp: map_le_def split: if_splits)
qed

lemma cleanup_loop_shrinks: "view (cleanup_loop F t results c) \<subseteq>\<^sub>m view c"
proof (induction results arbitrary: c)
  case (Cons x results)
  note IH = Cons.IH [of c] Cons.IH [THEN map_le_trans, OF delete_shrinks]
  show ?case
  proof (cases x)
    case (Inr kv)
    then show ?thesis using IH by (cases kv) (simp split: option.splits)
  qed (simp add: IH)
qed simp

lemma UpdateCurrentHeight_shrinks: "view (ar_cache (UpdateCurrentHeight F f h)) \<subseteq>\<^sub>m view (ar_cache f)"
  using cleanup_loop_shrinks by (simp add: UpdateCurrentHeight_def cleanupOldBlocks_def split: sum.splits)

lemma UpdateCurrentHeight_sound:
  assumes "cache_sound L f"
  shows "cache_sound L (UpdateCurrentHeight F f h) \<and> ar_namespace (UpdateCurrentHeight F f h) = ar_namespace f"
proof -
  have "view (ar_cache f) k = Some v" if "view (ar_cache (UpdateCurrentHeight F f h)) k = Some v" for k v
    using UpdateCurrentHeight_shrinks [of f h] that unfolding map_le_def by (metis domI)
  with assms have "cache_sound L (UpdateCurrentHeight F f h)" unfolding cache_sound_def by blast
  then show ?thesis by (simp add: UpdateCurrentHeight_def cleanupOldBlocks_def split: sum.splits)
qed

lemma retrieve_state:
  assumes "RetrieveForcedIncludedTxs F D r h = Some (r', res)"
  shows "r' = r \<or> r' = r\<lparr>fi_asyncFetcher := UpdateCurrentHeight F (fi_asyncFetcher r) h\<rparr>"
  using assms by (cases "CalculateEpochBoundaries h (fi_daStartHeight r) (fi_daEpochSize r)")
    (auto simp: RetrieveForcedIncludedTxs_def Let_def split: if_splits)

lemma reachable_sound:
  "fi_reachable F L ns r \<Longrightarrow> cache_sound L (fi_asyncFetcher r) \<and> ar_namespace (fi_asyncFetcher r) = ns"
proof (induction rule: fi_reachable.induct)
  case (new D st sz)
  then show ?case
    by (simp add: NewForcedInclusionRetriever_def NewAsyncBlockRetriever_def cache_sound_def empty_cache)
next
  case (event r blobs h ctxErr isInline f e)
  then show ?case
    using cacheBlock_sound by (auto simp: HandleEvent_def Let_def split: if_splits)
next
  case (catchup r D ctxErr h f e)
  then show ?case using HandleCatchup_sound [OF catchup.hyps(2) _ _ catchup.hyps(4)] by simp
next
  case (retrieve r D h r' res)
  then show ?case using retrieve_state [OF retrieve.hyps(4)] UpdateCurrentHeight_sound by auto
qed

lemma cached_agrees:
  assumes "representable L" and "cache_sound L f" and "GetCachedBlock F f h = Inr (Some b)"
  shows "agrees L h b"
proof -
  obtain data height t blobs where "ds_Get (fe_ds F) (ar_cache f) (newBlockDataKey F h) = Inr data"
    and u: "fe_Unmarshal F data = Some (height, t, blobs)"
    and b: "b = \<lparr>bd_Height = height, bd_Timestamp = unix_nano t, bd_Blobs = blobs\<rparr>"
    using assms(3) by (auto simp: GetCachedBlock_def split: if_splits sum.splits option.splits prod.splits)
  then have "view (ar_cache f) (newBlockDataKey F h) = Some data" by (simp add: get_found)
  with assms(2) obtain blobs' where "fe_Unmarshal F data = Some (h, UnixNano (led_Time L h), blobs')"
    and "filter (\<lambda>blob. blob \<noteq> []) blobs' = txs_at L h"
    unfolding cache_sound_def by blast
  with u show ?thesis by (auto simp: agrees_def b unix_nano_UnixNano [OF assms(1)])
qed

text \<open>At the end of an epoch: the ledger's event, an event with nothing, or a height that is not there yet.\<close>

lemma retrieve_at_end:
  assumes "fi_reachable F L ns r" and "honest L D" and "representable L" and "dc_GetForcedInclusionNamespace D = ns"
    and "dc_HasForcedInclusionNamespace D" and "fi_daStartHeight r \<le> h" and "h < - 1"
    and "CalculateEpochBoundaries h (fi_daStartHeight r) (fi_daEpochSize r) = (s, h, n)"
  defines "f \<equiv> UpdateCurrentHeight F (fi_asyncFetcher r) h"
  shows "\<exists>res. RetrieveForcedIncludedTxs F D r h = Some (r\<lparr>fi_asyncFetcher := f\<rparr>, res) \<and>
    (case fetch_errors F D f (u64_range s h) of
       Inl e \<Rightarrow> res = Inl e
     | Inr [] \<Rightarrow> res = Inr (epoch_event L s h)
     | Inr _ \<Rightarrow> \<exists>t. res = Inr (emptyEvent t h))"
proof -
  let ?hs = "u64_range s h"
  have sound: "cache_sound L f"
    using reachable_sound [OF assms(1)] UpdateCurrentHeight_sound by (simp add: f_def)
  obtain cached missing where rc: "read_cache F f ?hs = (cached, missing)" by fastforce
  have run: "RetrieveForcedIncludedTxs F D r h = Some (r\<lparr>fi_asyncFetcher := f\<rparr>,
      bindE (fetch_missing D missing) (\<lambda>(fetched, processErrs).
        let event = add_blocks cached fetched ?hs \<lparr>ev_Timestamp = zero_time, ev_StartDaHeight = s, ev_EndDaHeight = h, ev_Txs = []\<rparr>
        in if processErrs \<noteq> [] then Inr (emptyEvent (ev_Timestamp event) h) else Inr event))"
    using assms(5-8) rc leD [OF assms(6)]
    by (simp add: RetrieveForcedIncludedTxs_def Let_def upto_loop_range f_def [symmetric])
  show ?thesis
  proof (cases "fetch_missing D missing")
    case (Inl e)
    then show ?thesis using run by (simp add: fetch_errors_def rc)
  next
    case (Inr fe)
    obtain fetched errs where fe: "fe = (fetched, errs)" by fastforce
    show ?thesis
    proof (cases errs)
      case (Cons e es)
      then show ?thesis using run Inr fe by (auto simp: fetch_errors_def rc Let_def)
    next
      case Nil
      have "\<exists>b. agrees L x b \<and> (cached x = Some b \<or> cached x = None \<and> fetched x = Some b)" if "x \<in> set ?hs" for x
      proof (cases "cached x")
        case None
        then show ?thesis
          using fetch_missing_agree [OF assms(2) Inr [unfolded fe] Nil] read_cache_missing [OF rc that] by auto
      next
        case (Some b)
        then show ?thesis using cached_agrees [OF assms(3) sound read_cache_found [OF rc]] by auto
      qed
      from add_blocks_agree [OF this] show ?thesis
        using run Inr fe Nil by (simp add: fetch_errors_def rc Let_def epoch_event_def epoch_time_def)
    qed
  qed
qed

end

section \<open>Instances\<close>

definition enc_BlockData :: "u64 \<times> u64 \<times> bytes list \<Rightarrow> bytes" where
  "enc_BlockData p = (case p of (height, timestamp, blobs) \<Rightarrow>
     enc_fields (vfield 1 height @ vfield 2 timestamp @ rfield 3 blobs))"

definition dec_BlockData :: "bytes \<Rightarrow> (u64 \<times> u64 \<times> bytes list) option" where
  "dec_BlockData bs = map_option (\<lambda>fs. (getv 1 fs, getv 2 fs, getr 3 fs)) (dec_fields bs)"

lemma getv_rfield [simp]: "getv n (rfield m bs) = 0"
  by (cases bs) (auto simp: getv_def rfield_def split: option.splits wval.splits dest!: map_of_SomeD)

lemma getr_vfield [simp]: "getr n (vfield m v) = []"
  by (simp add: vfield_def)

lemma dec_enc_BlockData [simp]: "dec_BlockData (enc_BlockData p) = Some p"
  by (cases p) (simp add: dec_BlockData_def enc_BlockData_def del: enc_fields_append)

definition fi_on :: "'c datastore \<Rightarrow> 'c \<Rightarrow> 'c fi_env" where
  "fi_on DS c = \<lparr>fe_ds = DS, fe_empty = c, fe_Marshal = (\<lambda>x. Some (enc_BlockData x)), fe_Unmarshal = dec_BlockData\<rparr>"

lemma fi_on_simps [simp]:
  "fe_ds (fi_on DS c) = DS" "fe_empty (fi_on DS c) = c" "fe_Marshal (fi_on DS c) x = Some (enc_BlockData x)"
  "fe_Unmarshal (fi_on DS c) = dec_BlockData"
  by (simp_all add: fi_on_def)

interpretation mem_cache: block_cache "fi_on mem_ds []" map_of
  using mem.datastore_laws_axioms by (auto simp: block_cache_def block_cache_axioms_def)

interpretation faulty_cache: block_cache "fi_on faulty_ds ([], fails)" "\<lambda>s. map_of (fst s)"
  using faulty.datastore_laws_axioms by (auto simp: block_cache_def block_cache_axioms_def)

text \<open>A ledger with two epochs of two heights, the client that serves it, one that fails on height 11, and a
  cache that holds height 10 only.\<close>

definition ex_ledger :: ledger where
  "ex_ledger = \<lparr>led_Time = (\<lambda>h. 1000 * (uint h mod 100)), led_Blobs = (\<lambda>h. if h = 10 then [[1], [], [2]] else if h = 11 then [[3]] else [])\<rparr>"

definition ex_client :: "u64 set \<Rightarrow> da_client" where
  "ex_client bad = \<lparr>dc_Retrieve = (\<lambda>h ns. \<lparr>rr_Code = (if h \<in> bad then StatusError else if 20 < h then StatusHeightFromFuture
       else if led_Blobs ex_ledger h = [] then StatusNotFound else StatusSuccess),
       rr_Message = [], rr_Timestamp = led_Time ex_ledger h, rr_Data = led_Blobs ex_ledger h\<rparr>),
     dc_GetLatestDAHeight = Inr 20, dc_HasForcedInclusionNamespace = True, dc_GetForcedInclusionNamespace = [7]\<rparr>"

definition ex_retriever :: "mem forcedInclusionRetriever" where
  "ex_retriever = NewForcedInclusionRetriever (fi_on mem_ds []) (ex_client {}) 10 2"

definition ex_cached_retriever :: "mem forcedInclusionRetriever" where
  "ex_cached_retriever = ex_retriever\<lparr>fi_asyncFetcher :=
     fst (HandleEvent (fi_on mem_ds []) False (fi_asyncFetcher ex_retriever) 10 10000 [[1], [2]] False)\<rparr>"

lemma ex_reachable: "fi_reachable (fi_on mem_ds []) ex_ledger [7] ex_cached_retriever"
proof -
  have "fi_reachable (fi_on mem_ds []) ex_ledger [7] ex_retriever"
    unfolding ex_retriever_def by (rule fi_reachable.new) (simp add: ex_client_def)
  moreover have "filter (\<lambda>blob. blob \<noteq> []) [[1], [2]] = txs_at ex_ledger 10"
    by (simp add: txs_at_def ex_ledger_def)
  ultimately show ?thesis
    unfolding ex_cached_retriever_def
    by (rule fi_reachable.event [where ctxErr = False and isInline = False and e = None])
      (simp add: HandleEvent_def ex_ledger_def)
qed

lemma ex_honest: "honest ex_ledger (ex_client bad)"
  by (simp add: honest_def ex_client_def)

lemma ex_representable: "representable ex_ledger"
proof -
  have "0 \<le> 1000 * (uint h mod 100) \<and> 1000 * (uint h mod 100) < 100000" for h :: u64
    using pos_mod_bound [of 100 "uint h"] pos_mod_sign [of 100 "uint h"] by linarith
  then show ?thesis by (auto simp: representable_def ex_ledger_def intro: order.strict_trans order_trans)
qed

text \<open>The evaluation of the examples: the cache after the event, its cleanup and a read of the epoch.\<close>

abbreviation ex_F :: "mem fi_env" where
  "ex_F \<equiv> fi_on mem_ds []"

lemma ex_keys: "newBlockDataKey ex_F 10 = ''/block/10''" "newBlockDataKey ex_F 11 = ''/block/11''"
  "mem_NewKey ''/block/10'' = ''/block/10''" "u64_range 10 11 = [10, 11]"
  by code_simp+

lemma ex_scan: "scanBlockKey ''/block/10'' = Some 10"
  by (simp add: scanBlockKey_def digit_of_def)

lemma ex_retriever_eval:
  "fi_daStartHeight ex_cached_retriever = 10" "fi_daEpochSize ex_cached_retriever = 2"
  "fi_asyncFetcher ex_cached_retriever = \<lparr>ar_namespace = [7],
     ar_cache = [(''/block/10'', enc_BlockData (10, UnixNano 10000, [[1], [2]]))],
     ar_daStartHeight = 10, ar_consumedHeight = 0, ar_prefetchWindow = 4\<rparr>"
  using ex_keys(1) by (simp_all add: ex_cached_retriever_def ex_retriever_def NewForcedInclusionRetriever_def HandleEvent_def
      cacheBlock_def NewAsyncBlockRetriever_def ex_client_def mem_ds_def)

lemma ex_cleanup: "UpdateCurrentHeight ex_F (fi_asyncFetcher ex_cached_retriever) 11 =
    (fi_asyncFetcher ex_cached_retriever)\<lparr>ar_consumedHeight := 11\<rparr>"
  by (simp add: UpdateCurrentHeight_def cleanupOldBlocks_def ex_retriever_eval mem_ds_def mem_Query_def ex_keys ex_scan)

lemma ex_read: "read_cache ex_F (UpdateCurrentHeight ex_F (fi_asyncFetcher ex_cached_retriever) 11) (u64_range 10 11) =
    ([10 \<mapsto> \<lparr>bd_Height = 10, bd_Timestamp = unix_nano (UnixNano 10000), bd_Blobs = [[1], [2]]\<rparr>], [11])"
  unfolding ex_cleanup ex_keys(4)
  using ex_keys by (simp add: ex_retriever_eval GetCachedBlock_def mem_ds_def mem_Get_def)

section \<open>Properties\<close>



end
