(* ===== verification/Sequencer_Laws.thy ===== *)
theory Sequencer_Laws
  imports Sequencers Forced_Laws
begin

text \<open>
  What the sequencers deliver. The loops over the filter statuses are related to list functions; the single
  sequencer in catch-up is mapped to the based sequencer by \<open>based_of\<close>; \<open>based_run\<close> are the runs of a based
  sequencer over the DA ledger, with restarts, and \<open>based_inv\<close> their invariant: what was delivered is what lies
  before the checkpoint. The locale \<open>checkpoint_store\<close> states what the checkpoint relies on.
\<close>

section \<open>The loops over the filter statuses\<close>

text \<open>The transactions with a given status, and how many statuses come before the first postponement.\<close>

definition with_status :: "FilterStatus \<Rightarrow> bytes list \<Rightarrow> FilterStatus list \<Rightarrow> bytes list" where
  "with_status st txs statuses = map fst (filter (\<lambda>(_, st'). st' = st) (zip txs statuses))"

definition consumed :: "FilterStatus list \<Rightarrow> nat" where
  "consumed statuses = length (takeWhile (\<lambda>st. st \<noteq> FilterPostpone) statuses)"

lemma with_status_simps [simp]:
  "with_status st [] statuses = []" "with_status st txs [] = []"
  "with_status st (tx # txs) (st' # statuses) = (if st' = st then tx # with_status st txs statuses else with_status st txs statuses)"
  by (simp_all add: with_status_def)

lemma consumed_simps [simp]:
  "consumed [] = 0" "consumed (st # statuses) = (if st = FilterPostpone then 0 else Suc (consumed statuses))"
  by (simp_all add: consumed_def)

lemma consumed_le: "consumed statuses \<le> length statuses"
  by (simp add: consumed_def length_takeWhile_le)

lemma consumed_nth: "consumed statuses < length statuses \<Longrightarrow> statuses ! consumed statuses = FilterPostpone"
  unfolding consumed_def using nth_length_takeWhile [of "\<lambda>st. st \<noteq> FilterPostpone" statuses] by simp

lemma based_loop_spec:
  "length txs = length statuses \<Longrightarrow> based_loop txs statuses v c =
     Some (v @ with_status FilterOK (take (consumed statuses) txs) statuses, c + word_of_nat (consumed statuses))"
proof (induction txs statuses v c rule: based_loop.induct)
  case (2 txs statuses v c)
  then show ?case by (cases txs) (simp_all add: algebra_simps)
next
  case (3 txs statuses v c)
  then show ?case by (cases txs) (simp_all add: algebra_simps)
qed simp_all

lemma filter_loop_mempool:
  "length txs = length statuses \<Longrightarrow> filter_loop 0 txs statuses a =
     Some (a\<lparr>fl_validMempoolTxs := fl_validMempoolTxs a @ with_status FilterOK txs statuses,
             fl_postponedMempoolTxs := fl_postponedMempoolTxs a @ with_status FilterPostpone txs statuses\<rparr>)"
proof (induction statuses arbitrary: txs a)
  case (Cons st statuses)
  then obtain tx txs' where [simp]: "txs = tx # txs'" by (cases txs) auto
  show ?case using Cons.prems Cons.IH by (cases st) simp_all
qed simp

lemma filter_loop_postponed:
  "length txs = length statuses \<Longrightarrow> n \<le> length txs \<Longrightarrow> fl_forcedTxPostponed a \<Longrightarrow>
     filter_loop n txs statuses a = filter_loop 0 (drop n txs) (drop n statuses) a"
proof (induction n arbitrary: txs statuses)
  case (Suc n)
  then obtain tx txs' st statuses' where [simp]: "txs = tx # txs'" "statuses = st # statuses'"
    by (cases txs; cases statuses) auto
  show ?case using Suc by simp
qed simp

definition filter_result :: "nat \<Rightarrow> bytes list \<Rightarrow> FilterStatus list \<Rightarrow> filtered \<Rightarrow> filtered" where
  "filter_result n txs statuses a =
     \<lparr>fl_validForcedTxs = fl_validForcedTxs a @ with_status FilterOK (take (consumed (take n statuses)) txs) statuses,
      fl_validMempoolTxs = fl_validMempoolTxs a @ with_status FilterOK (drop n txs) (drop n statuses),
      fl_postponedMempoolTxs = fl_postponedMempoolTxs a @ with_status FilterPostpone (drop n txs) (drop n statuses),
      fl_forcedTxConsumedCount = fl_forcedTxConsumedCount a + word_of_nat (consumed (take n statuses)),
      fl_forcedTxPostponed = (consumed (take n statuses) < n)\<rparr>"

lemma filter_loop_spec:
  "length txs = length statuses \<Longrightarrow> n \<le> length txs \<Longrightarrow> \<not> fl_forcedTxPostponed a \<Longrightarrow>
     filter_loop n txs statuses a = Some (filter_result n txs statuses a)"
proof (induction n arbitrary: txs statuses a)
  case 0
  then show ?case by (simp add: filter_loop_mempool filter_result_def)
next
  case (Suc n)
  then obtain tx txs' st statuses' where [simp]: "txs = tx # txs'" "statuses = st # statuses'"
    by (cases txs; cases statuses) auto
  have len: "length txs' = length statuses'" "n \<le> length txs'" using Suc.prems by simp_all
  show ?case
    using Suc.prems(3) len
    by (cases st) (simp_all add: Suc.IH filter_result_def filter_loop_postponed [where n = n] filter_loop_mempool add.assoc)
qed

lemma solo_loop_spec:
  "length txs = length statuses \<Longrightarrow>
     solo_loop txs statuses = Some (with_status FilterOK txs statuses, with_status FilterPostpone txs statuses)"
proof (induction statuses arbitrary: txs)
  case (Cons st statuses)
  then obtain tx txs' where [simp]: "txs = tx # txs'" by (cases txs) auto
  show ?case using Cons by (cases st) simp_all
qed simp


section \<open>The single sequencer in catch-up is the based sequencer\<close>

definition based_of :: "('d, 'e, 'c) Sequencer \<Rightarrow> ('e, 'c) BasedSequencer" where
  "based_of c = \<lparr>bs_fiRetriever = sq_fiRetriever c, bs_daHeight = sq_daHeight c, bs_db = sq_db c,
     bs_checkpoint = sq_checkpoint c, bs_currentBatchTxs = sq_cachedForcedInclusionTxs c,
     bs_currentDAEndTime = sq_currentDAEndTime c, bs_currentEpochTxCount = sq_currentEpochTxCount c\<rparr>"

definition based_env_of :: "('d, 'e, 'c, 's, 'k) seq_env \<Rightarrow> ('e, 'c) based_env" where
  "based_env_of E = \<lparr>be_fi = se_fi E, be_ck = se_ck E\<rparr>"

lemma based_of_simps [simp]:
  "bs_fiRetriever (based_of c) = sq_fiRetriever c" "bs_daHeight (based_of c) = sq_daHeight c"
  "bs_db (based_of c) = sq_db c" "bs_checkpoint (based_of c) = sq_checkpoint c"
  "bs_currentBatchTxs (based_of c) = sq_cachedForcedInclusionTxs c"
  "bs_currentDAEndTime (based_of c) = sq_currentDAEndTime c"
  "bs_currentEpochTxCount (based_of c) = sq_currentEpochTxCount c"
  "be_fi (based_env_of E) = se_fi E" "be_ck (based_env_of E) = se_ck E"
  by (simp_all add: based_of_def based_env_of_def)

lemma based_of_advance:
  "based_advance (based_env_of E) (based_of c) h n =
     (case advance E c h n of (c', i, e) \<Rightarrow> (based_of c', i, e))"
  by (cases "Checkpoint_Save (se_ck E) (sq_db c) \<lparr>cp_DAHeight = h + 1, cp_TxIndex = 0\<rparr>";
      cases "Checkpoint_Save (se_ck E) (sq_db c) (sq_checkpoint c\<lparr>cp_TxIndex := cp_TxIndex (sq_checkpoint c) + n\<rparr>)")
    (simp add: based_advance_def advance_def Let_def based_of_def)

lemma advance_catchUp: "advance E c h n = (c', i, e) \<Longrightarrow> sq_catchUpState c' = sq_catchUpState c"
  by (auto simp: advance_def Let_def split: prod.splits if_splits)

lemma based_of_remaining [simp]: "based_remaining (based_of c) = remaining c"
  by (simp add: based_remaining_def remaining_def)

lemma based_of_queue [simp]: "based_of (c\<lparr>sq_queue := q\<rparr>) = based_of c" "remaining (c\<lparr>sq_queue := q\<rparr>) = remaining c"
  by (simp_all add: based_of_def remaining_def)

lemma filterStatuses_flag:
  "filter_contract X \<Longrightarrow> filterStatuses X txs maxBytes (0 < length txs) = filterStatuses X txs maxBytes True"
  using length_filterStatuses [of X txs maxBytes] by (cases txs) simp_all

lemma produce_based:
  assumes "filter_contract X" and "sq_catchUpState c = catchUpInProgress" and "produce E X now c h req = (c', res)"
  shows "based_produce (based_env_of E) X (based_of c) h req = (based_of c', res)"
proof -
  let ?txs = "remaining c"
  let ?sts = "filterStatuses X ?txs (rq_MaxBytes req) True"
  have len: "length ?txs = length ?sts" using length_filterStatuses [OF assms(1)] by simp
  let ?a = "filter_result (length ?txs) ?txs ?sts no_filtered"
  have loop: "filter_loop (length ?txs) ?txs ?sts no_filtered = Some ?a"
    by (rule filter_loop_spec) (simp_all add: len no_filtered_def)
  have a: "fl_validForcedTxs ?a = with_status FilterOK (take (consumed ?sts) ?txs) ?sts"
    "fl_validMempoolTxs ?a = []" "fl_forcedTxConsumedCount ?a = word_of_nat (consumed ?sts)"
    using len by (simp_all add: filter_result_def no_filtered_def)
  let ?c = "c\<lparr>sq_queue := SetPostponed (sq_queue c) (fl_postponedMempoolTxs ?a)\<rparr>"
  obtain c1 i e where adv: "advance E ?c h (word_of_nat (consumed ?sts)) = (c1, i, e)" by (metis prod_cases3)
  then have cu: "sq_catchUpState c1 = catchUpInProgress" using advance_catchUp [OF adv] assms(2) by simp
  have badv: "based_advance (based_env_of E) (based_of c) h (word_of_nat (consumed ?sts)) = (based_of c1, i, e)"
    using based_of_advance [of E ?c h] adv by simp
  show ?thesis
    using assms(2,3) loop a adv badv cu filterStatuses_flag [OF assms(1), of ?txs "rq_MaxBytes req"]
    by (auto simp: produce_def based_produce_def Let_def based_loop_spec [OF len] isCatchingUp_def split: if_splits option.splits)
qed

lemma fetch_based:
  assumes "sq_catchUpState c = catchUpInProgress" and "fetchNextDAEpoch E D store c mb = Some (c', res)"
    and "sq_catchUpState c' = catchUpInProgress"
  shows "Based_fetchNextDAEpoch (based_env_of E) D (based_of c) mb = Some (based_of c', res)"
proof -
  have u: "updateCatchUpState E D store c = c" using assms(1) by (simp add: updateCatchUpState_def)
  obtain fi r where "RetrieveForcedIncludedTxs (se_fi E) D (sq_fiRetriever c) (cp_DAHeight (sq_checkpoint c)) = Some (fi, r)"
    using assms(2) by (auto simp: fetchNextDAEpoch_def u)
  then show ?thesis
    using assms by (auto simp: fetchNextDAEpoch_def Based_fetchNextDAEpoch_def u Let_def based_of_def
        split: sum.splits da_error.splits if_splits)
qed

lemma produce_catchUp: "produce E X now c h req = (c', res) \<Longrightarrow> sq_catchUpState c' = sq_catchUpState c"
  using advance_catchUp by (fastforce simp: produce_def Let_def split: prod.splits option.splits if_splits)

section \<open>What the based sequencer delivers\<close>

text \<open>The forced transactions that the retriever returns for one DA height, and for the heights before \<open>h\<close>.\<close>

definition height_txs :: "ledger \<Rightarrow> u64 \<Rightarrow> u64 \<Rightarrow> u64 \<Rightarrow> bytes list" where
  "height_txs L st sz h = (case CalculateEpochBoundaries h st sz of (s, e, _) \<Rightarrow>
     if h = e then concat (map (txs_at L) (u64_range s e)) else [])"

definition delivered :: "ledger \<Rightarrow> u64 \<Rightarrow> u64 \<Rightarrow> u64 \<Rightarrow> u64 \<Rightarrow> bytes list" where
  "delivered L st sz mb h =
     concat (map (\<lambda>x. size_filter mb (height_txs L st sz (word_of_nat x))) [unat st..<unat h])"

lemma delivered_Suc:
  assumes "st \<le> h" and "h < - 1"
  shows "delivered L st sz mb (h + 1) = delivered L st sz mb h @ size_filter mb (height_txs L st sz h)"
  using assms unat_Suc_u64 [OF assms(2)] by (simp add: delivered_def u64_le_iff)

text \<open>A client that answers for every height, or says it is not there yet.\<close>

definition steady :: "da_client \<Rightarrow> bool" where
  "steady D \<longleftrightarrow> dc_HasForcedInclusionNamespace D \<and> (\<forall>h.
     rr_Code (dc_Retrieve D h (dc_GetForcedInclusionNamespace D)) \<in> {StatusSuccess, StatusNotFound, StatusHeightFromFuture})"

lemma fetch_missing_steady:
  "steady D \<Longrightarrow> (\<exists>h. fetch_missing D hs = Inl (ErrHeightFromFuture h)) \<or> (\<exists>b. fetch_missing D hs = Inr (b, []))"
proof (induction hs)
  case (Cons h hs)
  let ?c = "rr_Code (dc_Retrieve D h (dc_GetForcedInclusionNamespace D))"
  have "?c = StatusSuccess \<or> ?c = StatusNotFound \<or> ?c = StatusHeightFromFuture"
    using Cons.prems by (simp add: steady_def)
  then show ?case using Cons.IH [OF Cons.prems] by (auto simp: Let_def)
qed simp

lemma retrieve_height:
  assumes "block_cache F view" and "fi_reachable F L ns r" and "honest L D" and "representable L"
    and "dc_GetForcedInclusionNamespace D = ns" and "steady D"
    and "fi_daStartHeight r \<le> h" and "h < - 1"
  shows "\<exists>r' res. RetrieveForcedIncludedTxs F D r h = Some (r', res) \<and> fi_reachable F L ns r' \<and>
    fi_daStartHeight r' = fi_daStartHeight r \<and> fi_daEpochSize r' = fi_daEpochSize r \<and>
    ((\<exists>x. res = Inl (ErrHeightFromFuture x)) \<or>
     (\<exists>ev. res = Inr ev \<and> ev_EndDaHeight ev = h \<and> ev_Txs ev = height_txs L (fi_daStartHeight r) (fi_daEpochSize r) h))"
proof -
  let ?f = "UpdateCurrentHeight F (fi_asyncFetcher r) h" and ?st = "fi_daStartHeight r" and ?sz = "fi_daEpochSize r"
  have fi: "dc_HasForcedInclusionNamespace D" using assms(6) by (simp add: steady_def)
  obtain s e n where b: "CalculateEpochBoundaries h ?st ?sz = (s, e, n)" by (metis prod_cases3)
  have "\<exists>res. RetrieveForcedIncludedTxs F D r h = Some (r\<lparr>fi_asyncFetcher := ?f\<rparr>, res) \<and>
    ((\<exists>x. res = Inl (ErrHeightFromFuture x)) \<or> (\<exists>ev. res = Inr ev \<and> ev_EndDaHeight ev = h \<and> ev_Txs ev = height_txs L ?st ?sz h))"
  proof (cases "h = e")
    case False
    then show ?thesis using fi leD [OF assms(7)] b
      by (simp add: RetrieveForcedIncludedTxs_def Let_def emptyEvent_def height_txs_def)
  next
    case True
    have err: "(\<exists>x. fetch_errors F D ?f (u64_range s h) = Inl (ErrHeightFromFuture x)) \<or> fetch_errors F D ?f (u64_range s h) = Inr []"
      using fetch_missing_steady [OF assms(6), of "snd (read_cache F ?f (u64_range s h))"] by (auto simp: fetch_errors_def)
    have b': "CalculateEpochBoundaries h ?st ?sz = (s, h, n)" using b True by simp
    show ?thesis
      using block_cache.retrieve_at_end [OF assms(1-5) fi assms(7,8) b'] err b'
      by (auto simp: epoch_event_def epoch_txs_def height_txs_def)
  qed
  then obtain res where r: "RetrieveForcedIncludedTxs F D r h = Some (r\<lparr>fi_asyncFetcher := ?f\<rparr>, res)"
    and res: "(\<exists>x. res = Inl (ErrHeightFromFuture x)) \<or> (\<exists>ev. res = Inr ev \<and> ev_EndDaHeight ev = h \<and> ev_Txs ev = height_txs L ?st ?sz h)"
    by blast
  from fi_reachable.retrieve [OF assms(2,3,5) r] r res show ?thesis by auto
qed

text \<open>An execution layer that removes exactly the transactions that are not \<open>valid\<close>.\<close>

definition sorts :: "(bytes \<Rightarrow> bool) \<Rightarrow> exec_client \<Rightarrow> bool" where
  "sorts valid X \<longleftrightarrow> (\<forall>txs maxBytes maxGas forced. \<exists>statuses.
     ec_FilterTxs X txs maxBytes maxGas forced = Inr statuses \<and>
     list_all2 (\<lambda>tx st. (st = FilterRemove) = (\<not> valid tx)) txs statuses)"

lemma with_status_valid:
  "list_all2 (\<lambda>tx st. (st = FilterRemove) = (\<not> valid tx)) txs statuses \<Longrightarrow>
     with_status FilterOK (take (consumed statuses) txs) statuses = filter valid (take (consumed statuses) txs)"
  by (induction rule: list_all2_induct) (use FilterStatus.exhaust in auto)

lemma filterStatuses_sorts:
  assumes "sorts valid X"
  shows "list_all2 (\<lambda>tx st. (st = FilterRemove) = (\<not> valid tx)) txs (filterStatuses X txs maxBytes forced)"
proof -
  obtain statuses where "ec_FilterTxs X txs maxBytes (getMaxGas X) forced = Inr statuses"
    "list_all2 (\<lambda>tx st. (st = FilterRemove) = (\<not> valid tx)) txs statuses"
    using assms unfolding sorts_def by blast
  then show ?thesis by (simp add: filterStatuses_def)
qed

locale checkpoint_store = reliable_datastore "ck_ds C" view for C :: "'e checkpoint_env" and view +
  assumes checkpoint_codec: "\<exists>b. ck_Marshal C c = Some b \<and> ck_Unmarshal C b = Some c"
begin

definition stored :: "'e \<Rightarrow> Checkpoint option" where
  "stored db = (case view db (ck_key C) of None \<Rightarrow> None | Some b \<Rightarrow> ck_Unmarshal C b)"

lemma save_stored:
  obtains db' where "Checkpoint_Save C db c = (db', None)" and "stored db' = Some c"
proof -
  obtain b where b: "ck_Marshal C c = Some b" "ck_Unmarshal C b = Some c" using checkpoint_codec by blast
  let ?p = "ds_Put (ck_ds C) db (ck_key C) b"
  have "snd ?p = None" by (rule put_total)
  then have "Checkpoint_Save C db c = (fst ?p, None)" using b(1) by (cases ?p) (simp add: Checkpoint_Save_def)
  moreover have "stored (fst ?p) = Some c" using b(2) by (simp add: stored_def put_view)
  ultimately show ?thesis by (rule that)
qed

lemma load_stored: "stored db = Some c \<Longrightarrow> Checkpoint_Load C db = Inr c"
  by (auto simp: stored_def Checkpoint_Load_def get_total split: option.splits)

lemma load_missing: "view db (ck_key C) = None \<Longrightarrow> Checkpoint_Load C db = Inl ErrCheckpointNotFound"
  by (simp add: Checkpoint_Load_def get_total)

end

text \<open>Where the checkpoint stands: \<open>T\<close> are the transactions of its DA height, \<open>out\<close> what was delivered.\<close>

definition at_checkpoint :: "ledger \<Rightarrow> u64 \<Rightarrow> u64 \<Rightarrow> u64 \<Rightarrow> (bytes \<Rightarrow> bool) \<Rightarrow> Checkpoint \<Rightarrow> bytes list \<Rightarrow> bool" where
  "at_checkpoint L st sz mb valid c out \<longleftrightarrow>
     (let T = size_filter mb (height_txs L st sz (cp_DAHeight c)); i = unat (cp_TxIndex c) in
      st \<le> cp_DAHeight c \<and> (i = 0 \<or> i < length T) \<and>
      out = filter valid (delivered L st sz mb (cp_DAHeight c) @ take i T))"

lemma at_checkpoint_step:
  assumes "at_checkpoint L st sz mb valid c out" and "cp_DAHeight c < - 1"
    and "T = size_filter mb (height_txs L st sz (cp_DAHeight c))" and "length T < 2 ^ 64"
    and "unat (cp_TxIndex c) + k \<le> length T"
  shows "at_checkpoint L st sz mb valid
    (if word_of_nat (length T) \<le> cp_TxIndex c + word_of_nat k then \<lparr>cp_DAHeight = cp_DAHeight c + 1, cp_TxIndex = 0\<rparr>
     else c\<lparr>cp_TxIndex := cp_TxIndex c + word_of_nat k\<rparr>)
    (out @ filter valid (take k (drop (unat (cp_TxIndex c)) T)))"
proof -
  let ?i = "unat (cp_TxIndex c)"
  have w: "unat (cp_TxIndex c + word_of_nat k) = ?i + k"
    using assms(4,5) unat_add_no_wrap [of "cp_TxIndex c" "word_of_nat k"] by simp
  have lt: "word_of_nat (length T) \<le> cp_TxIndex c + word_of_nat k \<longleftrightarrow> length T \<le> ?i + k"
    using assms(4) w by (simp add: u64_le_iff)
  have st: "st \<le> cp_DAHeight c" and out: "out = filter valid (delivered L st sz mb (cp_DAHeight c) @ take ?i T)"
    using assms(1,3) by (simp_all add: at_checkpoint_def Let_def)
  have st': "st \<le> cp_DAHeight c + 1"
    using st unat_Suc_u64 [OF assms(2)] by (simp add: u64_le_iff)
  have tk: "take ?i T @ take k (drop ?i T) = take (?i + k) T" by (simp add: take_add)
  show ?thesis
  proof (cases "length T \<le> ?i + k")
    case True
    then have "take ?i T @ take k (drop ?i T) = T" using tk by simp
    then have "filter valid T = filter valid (take ?i T) @ filter valid (take k (drop ?i T))" by (metis filter_append)
    then show ?thesis
      using True st st' out delivered_Suc [OF st assms(2), of L sz mb]
      by (simp add: at_checkpoint_def Let_def lt assms(3) [symmetric])
  next
    case False
    have "filter valid (take (?i + k) T) = filter valid (take ?i T) @ filter valid (take k (drop ?i T))"
      using tk by (metis filter_append)
    then show ?thesis
      using False st out w by (simp add: at_checkpoint_def Let_def lt assms(3) [symmetric])
  qed
qed

text \<open>The invariant of the based sequencer: its DA height is the checkpoint's, the cached transactions are those of
  the checkpoint's DA height, and the checkpoint is what the database holds.\<close>

definition based_inv :: "('e, 'c) based_env \<Rightarrow> ('e \<Rightarrow> (string \<rightharpoonup> bytes)) \<Rightarrow> ledger \<Rightarrow> bytes \<Rightarrow> u64 \<Rightarrow> u64 \<Rightarrow> u64 \<Rightarrow>
    (bytes \<Rightarrow> bool) \<Rightarrow> ('e, 'c) BasedSequencer \<Rightarrow> bytes list \<Rightarrow> bool" where
  "based_inv B view L ns st sz mb valid s out \<longleftrightarrow>
     (let c = bs_checkpoint s; T = size_filter mb (height_txs L st sz (cp_DAHeight c)); r = bs_fiRetriever s in
      0 < st \<and> bs_daHeight s = cp_DAHeight c \<and> at_checkpoint L st sz mb valid c out \<and>
      fi_reachable (be_fi B) L ns r \<and> fi_daStartHeight r = st \<and> fi_daEpochSize r = sz \<and>
      (bs_currentBatchTxs s = [] \<or> bs_currentBatchTxs s = T) \<and>
      (checkpoint_store.stored (be_ck B) view (bs_db s) = Some c \<or>
       view (bs_db s) (ck_key (be_ck B)) = None \<and> c = \<lparr>cp_DAHeight = st, cp_TxIndex = 0\<rparr>))"

definition batch_of :: "seq_error + GetNextBatchResponse \<Rightarrow> bytes list" where
  "batch_of res = (case res of Inl _ \<Rightarrow> [] | Inr r \<Rightarrow> rs_Batch r)"

lemma drop_guard: "(if T \<noteq> [] \<and> i < word_of_nat (length T) then drop (unat i) T else []) = drop (unat i) T"
  if "length T < 2 ^ 64" for i :: u64
  using that by (auto simp: u64_less_iff)

lemma produce_inv:
  assumes "checkpoint_store (be_ck B) view" and "sorts valid X" and "rq_MaxBytes req = mb"
    and "based_inv B view L ns st sz mb valid s out" and "cp_DAHeight (bs_checkpoint s) < - 1"
    and "T = size_filter mb (height_txs L st sz (cp_DAHeight (bs_checkpoint s)))" and "length T < 2 ^ 64"
    and "bs_currentBatchTxs s = T" and "based_produce B X s (cp_DAHeight (bs_checkpoint s)) req = (s', res)"
  shows "based_inv B view L ns st sz mb valid s' (out @ batch_of res)"
proof -
  let ?c = "bs_checkpoint s" and ?i = "unat (cp_TxIndex (bs_checkpoint s))"
  let ?R = "drop ?i T"
  let ?sts = "filterStatuses X ?R mb True"
  let ?k = "consumed ?sts"
  note inv = assms(4) [unfolded based_inv_def Let_def, folded assms(6)]
  have at: "at_checkpoint L st sz mb valid ?c out" and st: "0 < st" "st \<le> cp_DAHeight ?c"
    using inv by (auto simp: at_checkpoint_def Let_def)
  have h: "0 < cp_DAHeight ?c" using st by (meson order.strict_trans2)
  have rem: "based_remaining s = ?R"
    unfolding based_remaining_def assms(8) by (rule drop_guard [OF assms(7)])
  have sts: "list_all2 (\<lambda>tx st. (st = FilterRemove) = (\<not> valid tx)) ?R ?sts"
    by (rule filterStatuses_sorts [OF assms(2)])
  then have len: "length ?R = length ?sts" by (rule list_all2_lengthD)
  have loop: "based_loop ?R ?sts [] 0 = Some (filter valid (take ?k ?R), word_of_nat ?k)"
    using based_loop_spec [OF len, of "[]" 0] with_status_valid [OF sts] by simp
  have i: "?i = 0 \<or> ?i < length T" using at assms(6) by (simp add: at_checkpoint_def Let_def)
  have k: "?i + ?k \<le> length T" using consumed_le [of ?sts] len i by auto
  define c' where "c' = (if word_of_nat (length T) \<le> cp_TxIndex ?c + word_of_nat ?k
     then \<lparr>cp_DAHeight = cp_DAHeight ?c + 1, cp_TxIndex = 0\<rparr> else ?c\<lparr>cp_TxIndex := cp_TxIndex ?c + word_of_nat ?k\<rparr>)"
  have at': "at_checkpoint L st sz mb valid c' (out @ filter valid (take ?k ?R))"
    unfolding c'_def by (rule at_checkpoint_step [OF at assms(5-7) k])
  obtain db' where db: "Checkpoint_Save (be_ck B) (bs_db s) c' = (db', None)"
    "checkpoint_store.stored (be_ck B) view db' = Some c'"
    by (rule checkpoint_store.save_stored [OF assms(1)])
  obtain s1 where adv: "based_advance B s (cp_DAHeight ?c) (word_of_nat ?k) = (s1, cp_TxIndex ?c + word_of_nat ?k, None)"
    and s1: "bs_checkpoint s1 = c'" "bs_daHeight s1 = cp_DAHeight c'" "bs_db s1 = db'" "bs_fiRetriever s1 = bs_fiRetriever s"
      "bs_currentBatchTxs s1 = [] \<or> bs_currentBatchTxs s1 = T \<and> cp_DAHeight c' = cp_DAHeight ?c"
    using db(1) inv assms(8) unfolding based_advance_def Let_def c'_def by (auto split: if_splits)
  have "s' = s1 \<and> batch_of res = filter valid (take ?k ?R)"
    using assms(3,9) h rem loop adv by (auto simp: based_produce_def Let_def batch_of_def split: if_splits)
  then show ?thesis
    using inv at' s1 db(2) assms(6) by (auto simp: based_inv_def Let_def)
qed

lemma GetNextBatch_inv:
  assumes "checkpoint_store (be_ck B) view" and "block_cache (be_fi B) cview" and "representable L"
    and "\<And>h. length (size_filter mb (height_txs L st sz h)) < 2 ^ 64"
    and "honest L D" and "dc_GetForcedInclusionNamespace D = ns" and "steady D" and "sorts valid X"
    and "rq_MaxBytes req = mb" and "based_inv B view L ns st sz mb valid s out"
    and "cp_DAHeight (bs_checkpoint s) < - 1"
  shows "\<exists>s' res. Based_GetNextBatch B D X False s req = Some (s', res) \<and>
    based_inv B view L ns st sz mb valid s' (out @ batch_of res)"
proof -
  let ?c = "bs_checkpoint s"
  define T where "T = size_filter mb (height_txs L st sz (cp_DAHeight ?c))"
  note inv = assms(10) [unfolded based_inv_def Let_def, folded T_def]
  have len: "length T < 2 ^ 64" unfolding T_def by (rule assms(4))
  have i: "unat (cp_TxIndex ?c) = 0 \<or> unat (cp_TxIndex ?c) < length T" and st: "st \<le> cp_DAHeight ?c" "0 < st"
    using inv by (auto simp: at_checkpoint_def Let_def T_def)
  have h: "0 < bs_daHeight s" using inv st by (metis order.strict_trans2)
  show ?thesis
  proof (cases "bs_currentBatchTxs s = []")
    case False
    then have T: "bs_currentBatchTxs s = T" using inv by blast
    with False i len have "\<not> word_of_nat (length (bs_currentBatchTxs s)) \<le> cp_TxIndex ?c"
      by (auto simp: u64_le_iff)
    then have "Based_GetNextBatch B D X False s req = Some (based_produce B X s (cp_DAHeight ?c) req)"
      using False inv by (simp add: Based_GetNextBatch_def)
    then show ?thesis
      using produce_inv [OF assms(1,8,9,10,11) T_def len T] by (metis surj_pair)
  next
    case True
    have r: "fi_reachable (be_fi B) L ns (bs_fiRetriever s)" "fi_daStartHeight (bs_fiRetriever s) = st"
      "fi_daEpochSize (bs_fiRetriever s) = sz"
      using inv by simp_all
    obtain r' res where ret: "RetrieveForcedIncludedTxs (be_fi B) D (bs_fiRetriever s) (cp_DAHeight ?c) = Some (r', res)"
      and r': "fi_reachable (be_fi B) L ns r'" "fi_daStartHeight r' = st" "fi_daEpochSize r' = sz"
      and res: "(\<exists>x. res = Inl (ErrHeightFromFuture x)) \<or>
        (\<exists>ev. res = Inr ev \<and> ev_EndDaHeight ev = cp_DAHeight ?c \<and> ev_Txs ev = height_txs L st sz (cp_DAHeight ?c))"
      using retrieve_height [OF assms(2) r(1) assms(5,3,6,7) _ assms(11)] r st by metis
    have get: "Based_GetNextBatch B D X False s req =
        map_option (\<lambda>(s, res). case res of Inl e \<Rightarrow> (s, Inl e) | Inr h \<Rightarrow> based_produce B X s h req)
          (Based_fetchNextDAEpoch B D s mb)"
      using True h assms(9) by (simp add: Based_GetNextBatch_def)
    from res show ?thesis
    proof
      assume "\<exists>x. res = Inl (ErrHeightFromFuture x)"
      then have f: "Based_fetchNextDAEpoch B D s mb = Some (s\<lparr>bs_fiRetriever := r'\<rparr>, Inr 0)"
        using ret by (auto simp: Based_fetchNextDAEpoch_def)
      have "filterStatuses X [] mb True = []"
        using list_all2_lengthD [OF filterStatuses_sorts [OF assms(8), of "[]" mb True]] by simp
      then have "based_produce B X (s\<lparr>bs_fiRetriever := r'\<rparr>) 0 req = (s\<lparr>bs_fiRetriever := r'\<rparr>, Inl ErrNoBatch)"
        using True assms(9) by (simp add: based_produce_def based_remaining_def)
      moreover have "based_inv B view L ns st sz mb valid (s\<lparr>bs_fiRetriever := r'\<rparr>) out"
        using inv r' by (simp add: based_inv_def Let_def T_def)
      ultimately show ?thesis using get f by (simp add: batch_of_def)
    next
      assume "\<exists>ev. res = Inr ev \<and> ev_EndDaHeight ev = cp_DAHeight ?c \<and> ev_Txs ev = height_txs L st sz (cp_DAHeight ?c)"
      then obtain ev where ev: "res = Inr ev" "ev_EndDaHeight ev = cp_DAHeight ?c" "size_filter mb (ev_Txs ev) = T"
        unfolding T_def by auto
      obtain s1 where f: "Based_fetchNextDAEpoch B D s mb = Some (s1, Inr (cp_DAHeight ?c))"
        and s1: "bs_currentBatchTxs s1 = T" "bs_checkpoint s1 = ?c" "bs_fiRetriever s1 = r'" "bs_daHeight s1 = bs_daHeight s"
          "bs_db s1 = bs_db s"
        using ret ev by (auto simp: Based_fetchNextDAEpoch_def Let_def)
      have inv1: "based_inv B view L ns st sz mb valid s1 out"
        using inv r' s1 by (simp add: based_inv_def Let_def T_def)
      have cp1: "cp_DAHeight (bs_checkpoint s1) < - 1" using s1 assms(11) by simp
      have T1: "T = size_filter mb (height_txs L st sz (cp_DAHeight (bs_checkpoint s1)))" by (simp add: s1 T_def)
      obtain s2 res2 where p: "based_produce B X s1 (cp_DAHeight ?c) req = (s2, res2)" by fastforce
      show ?thesis
        using get f p produce_inv [OF assms(1,8,9) inv1 cp1 T1 len s1(1), unfolded s1(2), OF p] by simp
    qed
  qed
qed

lemma restart_inv:
  assumes "checkpoint_store (be_ck B) view" and "based_inv B view L (dc_GetForcedInclusionNamespace D) (g_DAStartHeight g) (g_DAEpochForcedInclusion g) mb valid s out"
    and "GetState S store = Inr state" and "st_DAHeight state = cp_DAHeight (bs_checkpoint s)"
  shows "\<exists>s'. NewBasedSequencer B D S store g (bs_db s) = Inr s' \<and>
    based_inv B view L (dc_GetForcedInclusionNamespace D) (g_DAStartHeight g) (g_DAEpochForcedInclusion g) mb valid s' out"
proof -
  let ?c = "bs_checkpoint s" and ?st = "g_DAStartHeight g" and ?ns = "dc_GetForcedInclusionNamespace D"
  note inv = assms(2) [unfolded based_inv_def Let_def]
  have h: "0 < st_DAHeight state"
    using inv assms(4) by (auto simp: at_checkpoint_def Let_def intro: order.strict_trans2)
  have "Checkpoint_Load (be_ck B) (bs_db s) = Inr ?c \<or>
      Checkpoint_Load (be_ck B) (bs_db s) = Inl ErrCheckpointNotFound \<and> ?c = \<lparr>cp_DAHeight = ?st, cp_TxIndex = 0\<rparr>"
    using inv checkpoint_store.load_stored [OF assms(1)] checkpoint_store.load_missing [OF assms(1)] by auto
  then obtain s' where s': "NewBasedSequencer B D S store g (bs_db s) = Inr s'" and
    "bs_checkpoint s' = ?c" "bs_daHeight s' = cp_DAHeight ?c" "bs_db s' = bs_db s" "bs_currentBatchTxs s' = []"
    "bs_fiRetriever s' = NewForcedInclusionRetriever (be_fi B) D ?st (g_DAEpochForcedInclusion g)"
    using assms(3,4) h by (auto simp: NewBasedSequencer_def Let_def)
  moreover have "fi_reachable (be_fi B) L ?ns (NewForcedInclusionRetriever (be_fi B) D ?st (g_DAEpochForcedInclusion g))"
    by (rule fi_reachable.new) simp
  ultimately show ?thesis
    using inv by (simp add: based_inv_def Let_def NewForcedInclusionRetriever_def)
qed

text \<open>
  The runs of a based sequencer: it starts without a checkpoint, is asked for batches while the DA layer is served
  by clients that may lag behind but do not fail, its block cache is filled in the background, and it is restarted
  from its database at moments when the state of the chain has the DA height of the checkpoint.
\<close>

inductive based_run :: "('e, 'c) based_env \<Rightarrow> ('e \<Rightarrow> (string \<rightharpoonup> bytes)) \<Rightarrow> ('s, 'k) store_env \<Rightarrow> ledger \<Rightarrow> bytes \<Rightarrow> Genesis \<Rightarrow>
    u64 \<Rightarrow> (bytes \<Rightarrow> bool) \<Rightarrow> ('e, 'c) BasedSequencer \<Rightarrow> bytes list \<Rightarrow> bool" for B view S L ns g mb valid where
  start: "NewBasedSequencer B D S store g db = Inr s \<Longrightarrow> dc_GetForcedInclusionNamespace D = ns \<Longrightarrow>
    view db (ck_key (be_ck B)) = None \<Longrightarrow> 0 < g_DAStartHeight g \<Longrightarrow> GetState S store = Inl e \<Longrightarrow>
    based_run B view S L ns g mb valid s []"
| batch: "based_run B view S L ns g mb valid s out \<Longrightarrow> honest L D \<Longrightarrow> dc_GetForcedInclusionNamespace D = ns \<Longrightarrow>
    steady D \<Longrightarrow> sorts valid X \<Longrightarrow> rq_MaxBytes req = mb \<Longrightarrow> cp_DAHeight (bs_checkpoint s) < - 1 \<Longrightarrow>
    Based_GetNextBatch B D X False s req = Some (s', res) \<Longrightarrow>
    based_run B view S L ns g mb valid s' (out @ batch_of res)"
| prefetch: "based_run B view S L ns g mb valid s out \<Longrightarrow> fi_reachable (be_fi B) L ns r \<Longrightarrow>
    fi_daStartHeight r = g_DAStartHeight g \<Longrightarrow> fi_daEpochSize r = g_DAEpochForcedInclusion g \<Longrightarrow>
    based_run B view S L ns g mb valid (s\<lparr>bs_fiRetriever := r\<rparr>) out"
| restart: "based_run B view S L ns g mb valid s out \<Longrightarrow> dc_GetForcedInclusionNamespace D = ns \<Longrightarrow>
    GetState S store = Inr state \<Longrightarrow> st_DAHeight state = cp_DAHeight (bs_checkpoint s) \<Longrightarrow>
    NewBasedSequencer B D S store g (bs_db s) = Inr s' \<Longrightarrow>
    based_run B view S L ns g mb valid s' out"

lemma based_run_inv:
  assumes "checkpoint_store (be_ck B) view" and "block_cache (be_fi B) cview" and "representable L"
    and "\<And>h. length (size_filter mb (height_txs L (g_DAStartHeight g) (g_DAEpochForcedInclusion g) h)) < 2 ^ 64"
    and "based_run B view S L ns g mb valid s out"
  shows "based_inv B view L ns (g_DAStartHeight g) (g_DAEpochForcedInclusion g) mb valid s out"
  using assms(5)
proof (induction rule: based_run.induct)
  case (start D store db s e)
  have "Checkpoint_Load (be_ck B) db = Inl ErrCheckpointNotFound"
    by (rule checkpoint_store.load_missing [OF assms(1) start.hyps(3)])
  moreover have "fi_reachable (be_fi B) L ns (NewForcedInclusionRetriever (be_fi B) D (g_DAStartHeight g) (g_DAEpochForcedInclusion g))"
    using start.hyps(2) by (rule fi_reachable.new)
  ultimately show ?case
    using start.hyps by (auto simp: NewBasedSequencer_def Let_def based_inv_def at_checkpoint_def delivered_def
        NewForcedInclusionRetriever_def)
next
  case (batch s out D X req s' res)
  then show ?case
    using GetNextBatch_inv [OF assms(1-4) batch.hyps(2-6) batch.IH batch.hyps(7)] by simp
next
  case (prefetch s out r)
  then show ?case by (simp add: based_inv_def Let_def)
next
  case (restart s out D store state s')
  then show ?case
    using restart_inv [OF assms(1) restart.IH [folded restart.hyps(2)] restart.hyps(3,4)] by simp
qed

text \<open>The heights before \<open>h\<close> whose epoch is complete, in terms of the ledger.\<close>

lemma epoch_next:
  assumes "st \<le> h" and "sz \<noteq> 0" and "unat (h + 1) + unat sz < 2 ^ 64" and "h < - 1"
    and "CalculateEpochBoundaries h st sz = (s, e, n)" and "CalculateEpochBoundaries (h + 1) st sz = (s', e', n')"
  shows "unat s' = (if h = e then unat h + 1 else unat s)" and "unat s \<le> unat h" and "unat h \<le> unat e"
proof -
  have h1: "unat (h + 1) = Suc (unat h)" by (rule unat_Suc_u64 [OF assms(4)])
  have le: "st \<le> h + 1" using assms(1) h1 by (simp add: u64_le_iff)
  have w: "unat h + unat sz < 2 ^ 64" using assms(3) h1 by simp
  have st: "unat st \<le> unat h" and sz: "0 < unat sz" using assms(1,2) by (simp_all add: u64_le_iff unat_gt_0)
  define k where "k = (unat h - unat st) div unat sz"
  define k' where "k' = (unat (h + 1) - unat st) div unat sz"
  note b = CalculateEpochBoundaries_nat [OF assms(1,2) w assms(5), folded k_def]
  note b' = CalculateEpochBoundaries_nat [OF le assms(2,3,6), folded k'_def]
  note off = epoch_offset_bounds [OF st sz, folded k_def]
  show "unat s \<le> unat h" and "unat h \<le> unat e" using b off by simp_all
  have "k' = (if h = e then Suc k else k)"
  proof (cases "h = e")
    case True
    then have "Suc (unat h) = unat st + Suc k * unat sz" using b(2) by simp
    then have "unat (h + 1) - unat st = Suc k * unat sz" using h1 by simp
    then have "k' = Suc k * unat sz div unat sz" unfolding k'_def by (rule arg_cong)
    then show ?thesis using True sz by simp
  next
    case False
    then have "unat h \<noteq> unat e" by (simp add: u64_eq_iff)
    then have "Suc (unat h) < unat st + Suc k * unat sz" using b(2) off by simp
    then have "k * unat sz \<le> unat (h + 1) - unat st \<and> unat (h + 1) - unat st < Suc k * unat sz"
      using off(1) h1 by linarith
    then have "k' = k" using div_eq_interval [OF sz, of "unat (h + 1) - unat st" k] by (simp add: k'_def)
    then show ?thesis using False by simp
  qed
  then show "unat s' = (if h = e then unat h + 1 else unat s)" using b b' by auto
qed

lemma delivered_ledger:
  assumes "sz \<noteq> 0" and "st \<le> h" and "unat h + unat sz < 2 ^ 64" and "CalculateEpochBoundaries h st sz = (s, e, n)"
  shows "delivered L st sz mb h = size_filter mb (concat (map (\<lambda>x. txs_at L (word_of_nat x)) [unat st..<unat s]))"
  using assms(2-4)
proof (induction "unat h - unat st" arbitrary: h s e n)
  case 0
  then have "h = st" by (simp add: u64_order)
  then show ?case
    using 0 CalculateEpochBoundaries_nat [OF 0(2) assms(1) 0(3,4)] by (simp add: delivered_def size_filter_def)
next
  case (Suc m)
  define h0 where "h0 = h - 1"
  have st: "unat st < unat h" using Suc.hyps(2) by linarith
  then have "unat h0 = unat h - 1" unfolding h0_def by (subst unat_sub_no_wrap) (simp_all add: u64_le_iff)
  then have h': "h = h0 + 1" "unat h = Suc (unat h0)" "st \<le> h0" "unat h0 - unat st = m"
    using st Suc.hyps(2) by (simp_all add: h0_def u64_le_iff)
  then have "h0 < h" by (simp only: u64_less_iff)
  then have "h0 < - 1" by (rule order.strict_trans2) (rule word_order.extremum)
  note h = h'(1,2) this h'(3,4)
  obtain s0 e0 n0 where b0: "CalculateEpochBoundaries h0 st sz = (s0, e0, n0)" by (metis prod_cases3)
  have IH: "delivered L st sz mb h0 = size_filter mb (concat (map (\<lambda>x. txs_at L (word_of_nat x)) [unat st..<unat s0]))"
    using Suc.hyps(1) [OF h(5) [symmetric] h(4) _ b0] Suc.prems(2) h(2) by simp
  have w: "unat (h0 + 1) + unat sz < 2 ^ 64" using Suc.prems(2) h(1) by simp
  note nx = epoch_next [OF h(4) assms(1) w h(3) b0, of s e n, folded h(1), OF Suc.prems(3)]
  have s0: "unat st \<le> unat s0"
    using CalculateEpochBoundaries_nat [OF h(4) assms(1) _ b0] w h by simp
  show ?case
  proof (cases "h0 = e0")
    case False
    then show ?thesis using IH nx(1) delivered_Suc [OF h(4,3), of L sz mb] b0 h(1)
      by (simp add: height_txs_def size_filter_def)
  next
    case True
    have "[unat st..<unat s] = [unat st..<unat s0] @ [unat s0..<Suc (unat h0)]"
      using nx True s0 upt_add_eq_append [of "unat st" "unat s0" "Suc (unat h0) - unat s0"] by (simp del: upt_Suc)
    then show ?thesis using IH delivered_Suc [OF h(4,3), of L sz mb] b0 h(1) True
      by (simp add: height_txs_def size_filter_def u64_range_def comp_def del: upt_Suc)
  qed
qed

end
