(* ===== verification/Sequencer_Properties.thy ===== *)
theory Sequencer_Properties
  imports Sequencer_Laws Store_Laws Queue_Durability
begin

text \<open>
  The properties of the sequencers, with the example they are instantiated on: a ledger of one epoch with three
  forced transactions, a based sequencer that serves it in two batches, and a single sequencer in catch-up.
\<close>

section \<open>Timestamps\<close>

lemma millis_small:
  assumes "unat n * 1000000 < 2 ^ 63"
  shows "millis n = int (unat n) * 1000000" and "neg_millis n = - (int (unat n) * 1000000)"
proof -
  have u: "int (unat n) = uint n" by simp
  have "int (unat n * 1000000) < int (2 ^ 63)" using assms by (simp only: of_nat_less_iff)
  then have b: "0 \<le> uint n * 1000000" "uint n * 1000000 < 2 ^ 63" by simp_all
  have "n * 1000000 = word_of_int (uint n * 1000000)" "(- n) * 1000000 = word_of_int (- (uint n * 1000000))"
    by simp_all
  moreover have "signed_take_bit 63 (uint n * 1000000) = uint n * 1000000"
    "signed_take_bit 63 (- (uint n * 1000000)) = - (uint n * 1000000)"
    using b by (intro signed_take_bit_int_eq_self; linarith)+
  ultimately show "millis n = int (unat n) * 1000000" "neg_millis n = - (int (unat n) * 1000000)"
    unfolding millis_def neg_millis_def u by (simp_all only: sint_sbintrunc' len_num0 len_num1 len_bit0) simp_all
qed

section \<open>Examples\<close>

text \<open>The ledger of \<open>Forced_Laws\<close>, a checkpoint in eight-byte words, and an execution layer that postpones what does
  not fit the first \<open>n\<close> transactions.\<close>

definition ex_ck :: "mem checkpoint_env" where
  "ex_ck = \<lparr>ck_ds = mem_ds, ck_key = ''/based/checkpoint'',
     ck_Marshal = (\<lambda>c. Some (PutUint64_LE (cp_DAHeight c) @ PutUint64_LE (cp_TxIndex c))),
     ck_Unmarshal = (\<lambda>b. Some \<lparr>cp_DAHeight = Uint64_LE b, cp_TxIndex = Uint64_LE (drop 8 b)\<rparr>)\<rparr>"

definition ex_based_env :: "(mem, mem) based_env" where
  "ex_based_env = \<lparr>be_fi = ex_F, be_ck = ex_ck\<rparr>"

definition ex_exec :: "nat \<Rightarrow> exec_client" where
  "ex_exec n = \<lparr>ec_InitChain = (\<lambda>_ _ _. Inr []), ec_GetTxs = Inr [], ec_ExecuteTxs = (\<lambda>_ _ _ _. Inr \<lparr>er_UpdatedStateRoot = [], er_NextProposerAddress = []\<rparr>),
     ec_SetFinal = (\<lambda>_. None), ec_GetExecutionInfo = Inr 0,
     ec_FilterTxs = (\<lambda>txs _ _ _. Inr (replicate (min n (length txs)) FilterOK @ replicate (length txs - n) FilterPostpone))\<rparr>"

definition ex_request :: GetNextBatchRequest where
  "ex_request = \<lparr>rq_Id = [], rq_LastBatchData = [], rq_MaxBytes = 100\<rparr>"

definition ex_genesis :: Genesis where
  "ex_genesis = \<lparr>g_ChainID = ''c'', g_StartTime = 0, g_InitialHeight = 1, g_ProposerAddress = Some [], g_DAStartHeight = 10, g_DAEpochForcedInclusion = 2\<rparr>"

interpretation ex_ck: checkpoint_store ex_ck map_of
proof -
  have "reliable_datastore (ck_ds ex_ck) map_of"
    using mem.reliable_datastore_axioms by (simp add: ex_ck_def)
  then show "checkpoint_store ex_ck map_of"
    by (simp add: checkpoint_store_def checkpoint_store_axioms_def) (simp add: ex_ck_def)
qed

lemma ex_sorts: "sorts (\<lambda>_. True) (ex_exec n)"
proof -
  have "list_all2 (\<lambda>tx st. (st = FilterRemove) = (\<not> True)) txs (replicate (min n (length txs)) FilterOK @ replicate (length txs - n) FilterPostpone)" for txs :: "bytes list"
    by (auto simp: list_all2_conv_all_nth nth_append)
  then show ?thesis by (simp add: sorts_def ex_exec_def)
qed

lemma ex_steady: "steady (ex_client {})"
  by (simp add: steady_def ex_client_def)

definition ex_retriever_at :: "u64 \<Rightarrow> mem forcedInclusionRetriever" where
  "ex_retriever_at h = ex_retriever\<lparr>fi_asyncFetcher := (fi_asyncFetcher ex_retriever)\<lparr>ar_consumedHeight := h\<rparr>\<rparr>"

definition ex_based :: "mem \<Rightarrow> (mem, mem) BasedSequencer" where
  "ex_based db = \<lparr>bs_fiRetriever = ex_retriever_at 0, bs_daHeight = 10, bs_db = db, bs_checkpoint = \<lparr>cp_DAHeight = 10, cp_TxIndex = 0\<rparr>,
     bs_currentBatchTxs = [], bs_currentDAEndTime = 0, bs_currentEpochTxCount = 0\<rparr>"

lemma ex_retriever_at_simps:
  "fi_daStartHeight (ex_retriever_at h) = 10" "fi_daEpochSize (ex_retriever_at h) = 2"
  "fi_asyncFetcher (ex_retriever_at h) = \<lparr>ar_namespace = [7], ar_cache = [], ar_daStartHeight = 10, ar_consumedHeight = h, ar_prefetchWindow = 4\<rparr>"
  "(ex_retriever_at h)\<lparr>fi_asyncFetcher := \<lparr>ar_namespace = [7], ar_cache = [], ar_daStartHeight = 10, ar_consumedHeight = h', ar_prefetchWindow = 4\<rparr>\<rparr> = ex_retriever_at h'"
  by (simp_all add: ex_retriever_at_def ex_retriever_def NewForcedInclusionRetriever_def NewAsyncBlockRetriever_def ex_client_def)

lemma ex_boundaries: "CalculateEpochBoundaries 10 10 2 = (10, 11, 1)" "CalculateEpochBoundaries 11 10 2 = (10, 11, 1)"
  by code_simp+

lemma ex_update: "h' < h \<Longrightarrow> UpdateCurrentHeight ex_F (fi_asyncFetcher (ex_retriever_at h')) h = fi_asyncFetcher (ex_retriever_at h)"
  by (auto simp: ex_retriever_at_simps UpdateCurrentHeight_def cleanupOldBlocks_def mem_ds_def mem_Query_def)

lemma ex_retrieve10: "RetrieveForcedIncludedTxs ex_F (ex_client bad) (ex_retriever_at 0) 10 =
    Some (ex_retriever_at 10, Inr (emptyEvent zero_time 10))"
  by (simp add: RetrieveForcedIncludedTxs_def ex_update ex_boundaries Let_def)
    (simp add: ex_client_def ex_retriever_at_simps ex_boundaries)

lemma ex_reach: "fi_reachable ex_F ex_ledger [7] (ex_retriever_at 0)" "fi_reachable ex_F ex_ledger [7] (ex_retriever_at 10)"
proof -
  have "ex_retriever_at 0 = ex_retriever"
    by (simp add: ex_retriever_at_def ex_retriever_def NewForcedInclusionRetriever_def NewAsyncBlockRetriever_def)
  moreover have ns: "dc_GetForcedInclusionNamespace (ex_client {}) = [7]" by (simp add: ex_client_def)
  then have "fi_reachable ex_F ex_ledger [7] ex_retriever" unfolding ex_retriever_def by (rule fi_reachable.new)
  ultimately show r: "fi_reachable ex_F ex_ledger [7] (ex_retriever_at 0)" by simp
  show "fi_reachable ex_F ex_ledger [7] (ex_retriever_at 10)"
    by (rule fi_reachable.retrieve [OF r ex_honest ns ex_retrieve10])
qed

lemma ex_retrieve11: "h \<in> {0, 10} \<Longrightarrow> RetrieveForcedIncludedTxs ex_F (ex_client {}) (ex_retriever_at h) 11 =
    Some (ex_retriever_at 11, Inr \<lparr>ev_Timestamp = 11000, ev_StartDaHeight = 10, ev_EndDaHeight = 11, ev_Txs = [[1], [2], [3]]\<rparr>)"
proof -
  assume h: "h \<in> {0, 10}"
  have r: "fi_reachable ex_F ex_ledger [7] (ex_retriever_at h)" using h ex_reach by auto
  have u: "UpdateCurrentHeight ex_F (fi_asyncFetcher (ex_retriever_at h)) 11 = fi_asyncFetcher (ex_retriever_at 11)"
    using h by (intro ex_update) auto
  have rc: "read_cache ex_F (fi_asyncFetcher (ex_retriever_at 11)) [10, 11] = (Map.empty, [10, 11])"
    using ex_keys by (simp add: ex_retriever_at_simps GetCachedBlock_def mem_ds_def mem_Get_def)
  have "\<exists>b. fetch_missing (ex_client {}) [10, 11] = Inr (b, [])"
    by (simp add: ex_client_def ex_ledger_def)
  then have fe: "fetch_errors ex_F (ex_client {}) (fi_asyncFetcher (ex_retriever_at 11)) (u64_range 10 11) = Inr []"
    unfolding fetch_errors_def ex_keys(4) rc snd_conv by (auto simp del: fetch_missing.simps)
  have ev: "epoch_event ex_ledger 10 11 = \<lparr>ev_Timestamp = 11000, ev_StartDaHeight = 10, ev_EndDaHeight = 11, ev_Txs = [[1], [2], [3]]\<rparr>"
    by (simp add: epoch_event_def ex_keys(4) epoch_time_def epoch_txs_def txs_at_def ex_ledger_def zero_time_def second_def)
  have b: "CalculateEpochBoundaries 11 (fi_daStartHeight (ex_retriever_at h)) (fi_daEpochSize (ex_retriever_at h)) = (10, 11, 1)"
    by (simp add: ex_retriever_at_simps ex_boundaries)
  have "dc_GetForcedInclusionNamespace (ex_client {}) = [7]" "dc_HasForcedInclusionNamespace (ex_client {})"
    by (simp_all add: ex_client_def)
  from mem_cache.retrieve_at_end [OF r ex_honest ex_representable this _ _ b] show ?thesis
    unfolding u fe by (simp add: ev) (simp add: ex_retriever_at_simps)
qed

definition ex_saved :: "u64 \<Rightarrow> u64 \<Rightarrow> mem" where
  "ex_saved h i = [(''/based/checkpoint'', PutUint64_LE h @ PutUint64_LE i)]"

definition ex_based_at :: "u64 \<Rightarrow> u64 \<Rightarrow> u64 \<Rightarrow> bytes list \<Rightarrow> u64 \<Rightarrow> instant \<Rightarrow> (mem, mem) BasedSequencer" where
  "ex_based_at fi h i cached n t = \<lparr>bs_fiRetriever = ex_retriever_at fi, bs_daHeight = h, bs_db = ex_saved h i,
     bs_checkpoint = \<lparr>cp_DAHeight = h, cp_TxIndex = i\<rparr>, bs_currentBatchTxs = cached, bs_currentDAEndTime = t, bs_currentEpochTxCount = n\<rparr>"

lemmas ex_eval = based_produce_def based_remaining_def based_advance_def ex_based_env_def
  ex_request_def Let_def Checkpoint_Save_def ex_ck_def mem_ds_def ex_saved_def

lemma ex_fetch:
  "Based_fetchNextDAEpoch ex_based_env (ex_client {}) (ex_based []) 100 = Some (ex_based []\<lparr>bs_fiRetriever := ex_retriever_at 10\<rparr>, Inr 10)"
  "Based_fetchNextDAEpoch ex_based_env (ex_client {}) (ex_based_at 10 11 0 [] 0 0) 100 =
     Some (ex_based_at 11 11 0 [[1], [2], [3]] 3 11000, Inr 11)"
  by (simp_all add: Based_fetchNextDAEpoch_def ex_based_env_def ex_based_def ex_based_at_def ex_retrieve10 ex_retrieve11
      Let_def emptyEvent_def zero_time_def second_def size_filter_def)

lemma ex_statuses:
  "filterStatuses (ex_exec 2) [] mb b = []" "filterStatuses (ex_exec 2) [x] mb b = [FilterOK]"
  "filterStatuses (ex_exec 2) [x, y, z] mb b = [FilterOK, FilterOK, FilterPostpone]"
  by (simp_all add: filterStatuses_def ex_exec_def numeral_2_eq_2)

lemma ex_batches:
  "Based_GetNextBatch ex_based_env (ex_client {}) (ex_exec 2) False (ex_based []) ex_request =
     Some (ex_based_at 10 11 0 [] 0 0, Inl ErrNoBatch)"
  "Based_GetNextBatch ex_based_env (ex_client {}) (ex_exec 2) False (ex_based_at 10 11 0 [] 0 0) ex_request =
     Some (ex_based_at 11 11 2 [[1], [2], [3]] 3 11000,
       Inr \<lparr>rs_Batch = [[1], [2]], rs_Timestamp = 11000 - 1000000, rs_BatchData = []\<rparr>)"
  "Based_GetNextBatch ex_based_env (ex_client {}) (ex_exec 2) False (ex_based_at 11 11 2 [[1], [2], [3]] 3 11000) ex_request =
     Some (ex_based_at 11 12 0 [] 3 11000, Inr \<lparr>rs_Batch = [[3]], rs_Timestamp = 11000, rs_BatchData = []\<rparr>)"
proof -
  have p: "based_produce ex_based_env (ex_exec 2) (ex_based []\<lparr>bs_fiRetriever := ex_retriever_at 10\<rparr>) 10 ex_request =
      (ex_based_at 10 11 0 [] 0 0, Inl ErrNoBatch)"
    "based_produce ex_based_env (ex_exec 2) (ex_based_at 11 11 0 [[1], [2], [3]] 3 11000) 11 ex_request =
      (ex_based_at 11 11 2 [[1], [2], [3]] 3 11000, Inr \<lparr>rs_Batch = [[1], [2]], rs_Timestamp = 11000 - 1000000, rs_BatchData = []\<rparr>)"
    "based_produce ex_based_env (ex_exec 2) (ex_based_at 11 11 2 [[1], [2], [3]] 3 11000) 11 ex_request =
      (ex_based_at 11 12 0 [] 3 11000, Inr \<lparr>rs_Batch = [[3]], rs_Timestamp = 11000, rs_BatchData = []\<rparr>)"
    by (simp_all add: ex_eval ex_based_def ex_based_at_def millis_small ex_statuses)
  show "Based_GetNextBatch ex_based_env (ex_client {}) (ex_exec 2) False (ex_based []) ex_request =
     Some (ex_based_at 10 11 0 [] 0 0, Inl ErrNoBatch)"
    using ex_fetch(1) p(1) by (simp add: Based_GetNextBatch_def ex_request_def) (simp add: ex_based_def)
  show "Based_GetNextBatch ex_based_env (ex_client {}) (ex_exec 2) False (ex_based_at 10 11 0 [] 0 0) ex_request =
     Some (ex_based_at 11 11 2 [[1], [2], [3]] 3 11000,
       Inr \<lparr>rs_Batch = [[1], [2]], rs_Timestamp = 11000 - 1000000, rs_BatchData = []\<rparr>)"
    using ex_fetch(2) p(2) by (simp add: Based_GetNextBatch_def ex_request_def) (simp add: ex_based_at_def)
  show "Based_GetNextBatch ex_based_env (ex_client {}) (ex_exec 2) False (ex_based_at 11 11 2 [[1], [2], [3]] 3 11000) ex_request =
     Some (ex_based_at 11 12 0 [] 3 11000, Inr \<lparr>rs_Batch = [[3]], rs_Timestamp = 11000, rs_BatchData = []\<rparr>)"
    using p(3) by (simp add: Based_GetNextBatch_def) (simp add: ex_based_at_def)
qed

lemma ex_new: "NewBasedSequencer ex_based_env (ex_client {}) (store_on mem_ds) [] ex_genesis [] = Inr (ex_based [])"
  and ex_no_state: "GetState (store_on mem_ds) [] = Inl (ErrDs ErrNotFound)"
proof -
  show g: "GetState (store_on mem_ds) [] = Inl (ErrDs ErrNotFound)"
    by (simp add: GetState_def Height_def db_Get_def store_on_def mem_ds_def mem_Get_def IsNotFound_def)
  have "Checkpoint_Load ex_ck [] = Inl ErrCheckpointNotFound" by (rule ex_ck.load_missing) simp
  moreover have "ex_retriever_at 0 = NewForcedInclusionRetriever ex_F (ex_client {}) 10 2"
    by (simp add: ex_retriever_at_def ex_retriever_def NewForcedInclusionRetriever_def NewAsyncBlockRetriever_def)
  ultimately show "NewBasedSequencer ex_based_env (ex_client {}) (store_on mem_ds) [] ex_genesis [] = Inr (ex_based [])"
    by (simp add: NewBasedSequencer_def Let_def g ex_based_env_def ex_genesis_def ex_based_def)
qed

lemma ex_lengths: "length (size_filter mb (height_txs ex_ledger st sz h)) < 2 ^ 64"
proof -
  have "length (concat (map (txs_at ex_ledger) xs)) \<le> 3" if "distinct xs" for xs
  proof -
    have "length (concat (map (txs_at ex_ledger) xs)) = (\<Sum>x\<in>set xs. length (txs_at ex_ledger x))"
      using that by (simp add: length_concat sum_list_distinct_conv_sum_set comp_def)
    also have "\<dots> \<le> (\<Sum>x\<in>set xs \<union> {10, 11}. length (txs_at ex_ledger x))" by (rule sum_mono2) auto
    also have "\<dots> = (\<Sum>x\<in>{10, 11}. length (txs_at ex_ledger x))"
      by (rule sum.mono_neutral_right) (auto simp: txs_at_def ex_ledger_def)
    also have "\<dots> \<le> 3" by (simp add: txs_at_def ex_ledger_def)
    finally show ?thesis .
  qed
  then have "length (height_txs ex_ledger st sz h) \<le> 3"
    by (auto simp: height_txs_def distinct_u64_range split: prod.splits)
  moreover have "length (size_filter mb (height_txs ex_ledger st sz h)) \<le> length (height_txs ex_ledger st sz h)"
    by (simp add: size_filter_def)
  ultimately show ?thesis by simp
qed

section \<open>Properties\<close>



text \<open>
  C24: while the single sequencer is catching up, its \<open>GetNextBatch\<close> is the based sequencer's: the same batch with
  the same timestamp, the same checkpoint written to the database, the same error.
\<close>

theorem catchup_equals_based:
  assumes "filter_contract X" and "isCatchingUp c" and "rq_Id req = sq_Id c" and "cp_DAHeight (sq_checkpoint c) \<noteq> 0"
    and "GetNextBatch E D X now store c req = Some (c', res)" and "isCatchingUp c'"
  shows "Based_GetNextBatch (based_env_of E) D X False (based_of c) req = Some (based_of c', res)"
proof -
  have cu: "sq_catchUpState c = catchUpInProgress" "sq_catchUpState c' = catchUpInProgress"
    using assms(2,6) by (simp_all add: isCatchingUp_def)
  have boot: "bootstrap E D store c = c" using assms(4) by (simp add: bootstrap_def)
  let ?fetch = "0 < sq_daHeight c \<and> (sq_cachedForcedInclusionTxs c = [] \<or>
      word_of_nat (length (sq_cachedForcedInclusionTxs c)) \<le> cp_TxIndex (sq_checkpoint c))"
  show ?thesis
  proof (cases ?fetch)
    case False
    then have "produce E X now c (sq_daHeight c) req = (c', res)"
      using assms(3,5) boot by (auto simp: GetNextBatch_def isValid_def Let_def split: if_splits)
    from produce_based [OF assms(1) cu(1) this] False show ?thesis by (auto simp: Based_GetNextBatch_def)
  next
    case True
    then obtain c1 r1 where f: "fetchNextDAEpoch E D store c (rq_MaxBytes req) = Some (c1, r1)"
      and p: "(case r1 of Inl e \<Rightarrow> (c1, Inl e) | Inr h \<Rightarrow> produce E X now c1 h req) = (c', res)"
      using assms(3,5) boot by (auto simp: GetNextBatch_def isValid_def Let_def split: if_splits)
    have cu1: "sq_catchUpState c1 = catchUpInProgress"
      using p cu(2) produce_catchUp by (cases r1) fastforce+
    from fetch_based [OF cu(1) f cu1] True p produce_based [OF assms(1) cu1]
    show ?thesis by (cases r1) (simp_all add: Based_GetNextBatch_def)
  qed
qed

definition ex_seq_env :: "(mem, mem, mem, mem, bytes) seq_env" where
  "ex_seq_env = \<lparr>se_queue = queue_env_on mem_ds, se_fi = ex_F, se_ck = ex_ck, se_store = store_on mem_ds, se_genesis = ex_genesis\<rparr>"

text \<open>A sequencer in catch-up, with two of three forced transactions of the epoch served, and one that is not behind.\<close>

definition ex_seq :: "catchUp \<Rightarrow> u64 \<Rightarrow> (mem, mem, mem) Sequencer" where
  "ex_seq cu i = \<lparr>sq_Id = [], sq_queue = NewBatchQueue [] 0, sq_fiRetriever = ex_retriever_at 11, sq_daHeight = 11, sq_daStartHeight = 10,
     sq_db = [], sq_checkpoint = \<lparr>cp_DAHeight = 11, cp_TxIndex = i\<rparr>, sq_cachedForcedInclusionTxs = [[1], [2], [3]],
     sq_catchUpState = cu, sq_currentDAEndTime = 11000, sq_currentEpochTxCount = 3\<rparr>"

lemma ex_contract: "filter_contract (ex_exec n)"
  by (auto simp: filter_contract_def ex_exec_def)

lemma ex_seq_batch: "\<exists>c'. GetNextBatch ex_seq_env (ex_client {}) (ex_exec 2) 0 [] (ex_seq catchUpInProgress 2) ex_request =
    Some (c', Inr \<lparr>rs_Batch = [[3]], rs_Timestamp = 11000, rs_BatchData = []\<rparr>) \<and> isCatchingUp c' \<and>
    sq_checkpoint c' = \<lparr>cp_DAHeight = 12, cp_TxIndex = 0\<rparr>"
  by (simp add: GetNextBatch_def bootstrap_def ex_seq_def isValid_def isCatchingUp_def produce_def remaining_def Let_def advance_def
      ex_request_def ex_statuses no_filtered_def Checkpoint_Save_def ex_seq_env_def ex_ck_def mem_ds_def millis_small)

theorem catchup_equals_based_witness:
  "\<exists>s'. Based_GetNextBatch (based_env_of ex_seq_env) (ex_client {}) (ex_exec 2) False (based_of (ex_seq catchUpInProgress 2)) ex_request =
     Some (s', Inr \<lparr>rs_Batch = [[3]], rs_Timestamp = 11000, rs_BatchData = []\<rparr>) \<and>
     bs_checkpoint s' = \<lparr>cp_DAHeight = 12, cp_TxIndex = 0\<rparr>"
proof -
  obtain c' where c': "GetNextBatch ex_seq_env (ex_client {}) (ex_exec 2) 0 [] (ex_seq catchUpInProgress 2) ex_request =
      Some (c', Inr \<lparr>rs_Batch = [[3]], rs_Timestamp = 11000, rs_BatchData = []\<rparr>)" "isCatchingUp c'"
    "sq_checkpoint c' = \<lparr>cp_DAHeight = 12, cp_TxIndex = 0\<rparr>"
    using ex_seq_batch by blast
  have "isCatchingUp (ex_seq catchUpInProgress 2)" "rq_Id ex_request = sq_Id (ex_seq catchUpInProgress 2)"
    "cp_DAHeight (sq_checkpoint (ex_seq catchUpInProgress 2)) \<noteq> 0"
    by (simp_all add: isCatchingUp_def ex_seq_def ex_request_def)
  from catchup_equals_based [OF ex_contract this c'(1,2)] c'(3) show ?thesis by simp
qed

text \<open>
  C25: a batch of the single sequencer is the accepted forced transactions, in epoch order up to the first postponed
  one, followed by the accepted transactions drained from the queue (none in catch-up); the postponed ones of the
  queue are handed back to it; and the checkpoint moves past exactly the forced transactions that were accepted or
  removed, to the next DA height when the epoch is used up.
\<close>

theorem single_batch_contents:
  assumes "filter_contract X" and "GetNextBatch E D X now store c req = Some (c', Inr r)"
  shows "\<exists>c1 h. (fetchNextDAEpoch E D store (bootstrap E D store c) (rq_MaxBytes req) = Some (c1, Inr h) \<or>
      c1 = bootstrap E D store c \<and> h = sq_daHeight c1) \<and>
    (let forced = remaining c1;
         (q, drained) = (if isCatchingUp c1 then (sq_queue c1, []) else Drain (se_queue E) (sq_queue c1) (rq_MaxBytes req));
         statuses = filterStatuses X (forced @ drained) (rq_MaxBytes req) (0 < length forced);
         k = consumed (take (length forced) statuses);
         i = cp_TxIndex (sq_checkpoint c1) + word_of_nat k
     in rs_Batch r = with_status FilterOK (take k forced) statuses @
                     with_status FilterOK drained (drop (length forced) statuses) \<and>
        (k < length forced \<longrightarrow> statuses ! k = FilterPostpone) \<and>
        sq_queue c' = SetPostponed q (with_status FilterPostpone drained (drop (length forced) statuses)) \<and>
        sq_checkpoint c' =
          (if h = 0 \<and> forced = [] then sq_checkpoint c1
           else if word_of_nat (length (sq_cachedForcedInclusionTxs c1)) \<le> i then \<lparr>cp_DAHeight = h + 1, cp_TxIndex = 0\<rparr>
           else (sq_checkpoint c1)\<lparr>cp_TxIndex := i\<rparr>))"
proof -
  let ?c0 = "bootstrap E D store c"
  obtain c1 h where c1: "fetchNextDAEpoch E D store ?c0 (rq_MaxBytes req) = Some (c1, Inr h) \<or> c1 = ?c0 \<and> h = sq_daHeight c1"
    and p: "produce E X now c1 h req = (c', Inr r)"
  proof -
    have v: "isValid c (rq_Id req)" using assms(2) by (auto simp: GetNextBatch_def split: if_splits)
    show thesis
    proof (cases "0 < sq_daHeight ?c0 \<and> (sq_cachedForcedInclusionTxs ?c0 = [] \<or>
        word_of_nat (length (sq_cachedForcedInclusionTxs ?c0)) \<le> cp_TxIndex (sq_checkpoint ?c0))")
      case True
      then obtain c1 r1 where "fetchNextDAEpoch E D store ?c0 (rq_MaxBytes req) = Some (c1, r1)"
        and "(case r1 of Inl e \<Rightarrow> (c1, Inl e) | Inr h \<Rightarrow> produce E X now c1 h req) = (c', Inr r)"
        using assms(2) v by (auto simp: GetNextBatch_def Let_def)
      then show thesis using that by (cases r1) auto
    next
      case False
      then show thesis using assms(2) v that by (auto simp: GetNextBatch_def Let_def split: if_splits)
    qed
  qed
  let ?forced = "remaining c1"
  obtain q drained where qd: "(if isCatchingUp c1 then (sq_queue c1, []) else Drain (se_queue E) (sq_queue c1) (rq_MaxBytes req)) = (q, drained)"
    by fastforce
  let ?sts = "filterStatuses X (?forced @ drained) (rq_MaxBytes req) (0 < length ?forced)"
  have len: "length (?forced @ drained) = length ?sts" using length_filterStatuses [OF assms(1)] by simp
  let ?a = "filter_result (length ?forced) (?forced @ drained) ?sts no_filtered"
  have loop: "filter_loop (length ?forced) (?forced @ drained) ?sts no_filtered = Some ?a"
    by (rule filter_loop_spec [OF len]) (simp_all add: no_filtered_def)
  have k: "consumed (take (length ?forced) ?sts) \<le> length ?forced"
    using consumed_le [of "take (length ?forced) ?sts"] by simp
  have a: "fl_validForcedTxs ?a = with_status FilterOK (take (consumed (take (length ?forced) ?sts)) ?forced) ?sts"
    "fl_validMempoolTxs ?a = with_status FilterOK drained (drop (length ?forced) ?sts)"
    "fl_postponedMempoolTxs ?a = with_status FilterPostpone drained (drop (length ?forced) ?sts)"
    "fl_forcedTxConsumedCount ?a = word_of_nat (consumed (take (length ?forced) ?sts))"
    using k by (simp_all add: filter_result_def no_filtered_def)
  have post: "?sts ! consumed (take (length ?forced) ?sts) = FilterPostpone"
    if "consumed (take (length ?forced) ?sts) < length ?forced"
    using consumed_nth [of "take (length ?forced) ?sts"] that len by simp
  have qd': "(if sq_catchUpState c1 \<noteq> catchUpInProgress then Drain (se_queue E) (sq_queue c1) (rq_MaxBytes req) else (sq_queue c1, [])) = (q, drained)"
    using qd by (auto simp: isCatchingUp_def)
  let ?c2 = "c1\<lparr>sq_queue := SetPostponed q (fl_postponedMempoolTxs ?a)\<rparr>"
  obtain c3 i e where adv: "advance E ?c2 h (fl_forcedTxConsumedCount ?a) = (c3, i, e)" by (metis prod_cases3)
  have c3: "sq_queue c3 = SetPostponed q (fl_postponedMempoolTxs ?a)"
    "sq_checkpoint c3 = (let i = cp_TxIndex (sq_checkpoint c1) + fl_forcedTxConsumedCount ?a in
       if word_of_nat (length (sq_cachedForcedInclusionTxs c1)) \<le> i then \<lparr>cp_DAHeight = h + 1, cp_TxIndex = 0\<rparr>
       else (sq_checkpoint c1)\<lparr>cp_TxIndex := i\<rparr>)"
    using adv by (auto simp: advance_def Let_def split: prod.splits if_splits)
  have "rs_Batch r = fl_validForcedTxs ?a @ fl_validMempoolTxs ?a \<and> c' = (if h = 0 \<and> ?forced = [] then ?c2 else c3)"
    using p loop adv by (auto simp: produce_def Let_def qd' word_greater_zero_iff split: if_splits option.splits)
  then show ?thesis
    using c1 c3 a post by (intro exI [of _ c1] exI [of _ h]) (auto simp: Let_def qd)
qed

theorem single_batch_contents_witness:
  "\<exists>c' r. GetNextBatch ex_seq_env (ex_client {}) (ex_exec 2) 0 [] (ex_seq catchUpInProgress 2) ex_request = Some (c', Inr r) \<and>
     rs_Batch r = [[3]] \<and> sq_checkpoint c' = \<lparr>cp_DAHeight = 12, cp_TxIndex = 0\<rparr>"
proof -
  obtain c' where c': "GetNextBatch ex_seq_env (ex_client {}) (ex_exec 2) 0 [] (ex_seq catchUpInProgress 2) ex_request =
      Some (c', Inr \<lparr>rs_Batch = [[3]], rs_Timestamp = 11000, rs_BatchData = []\<rparr>)"
    "sq_checkpoint c' = \<lparr>cp_DAHeight = 12, cp_TxIndex = 0\<rparr>"
    using ex_seq_batch by blast
  from single_batch_contents [OF ex_contract c'(1)] c' show ?thesis by auto
qed




text \<open>
  C27: when a height of an epoch cannot be retrieved for another reason than not being there yet, the epoch is skipped:
  the call reports that there is no batch, and the checkpoint moves past the end of the epoch, so that its forced
  transactions are never fetched again.
\<close>

theorem failed_fetch_skips_epoch:
  assumes "checkpoint_store (be_ck B) view" and "block_cache (be_fi B) cview" and "representable L" and "honest L D"
    and "fi_reachable (be_fi B) L (dc_GetForcedInclusionNamespace D) (bs_fiRetriever s)" and "dc_HasForcedInclusionNamespace D"
    and "bs_checkpoint s = \<lparr>cp_DAHeight = h, cp_TxIndex = 0\<rparr>" and "bs_currentBatchTxs s = []" and "0 < bs_daHeight s"
    and "0 < h" and "fi_daStartHeight (bs_fiRetriever s) \<le> h" and "h < - 1"
    and "CalculateEpochBoundaries h (fi_daStartHeight (bs_fiRetriever s)) (fi_daEpochSize (bs_fiRetriever s)) = (epochStart, h, n)"
    and "fetch_errors (be_fi B) D (UpdateCurrentHeight (be_fi B) (fi_asyncFetcher (bs_fiRetriever s)) h) (u64_range epochStart h) = Inr (e # es)"
    and "filter_contract X"
  shows "\<exists>s'. Based_GetNextBatch B D X False s req = Some (s', Inl ErrNoBatch) \<and>
    bs_checkpoint s' = \<lparr>cp_DAHeight = h + 1, cp_TxIndex = 0\<rparr>"
proof -
  obtain r' t where ret: "RetrieveForcedIncludedTxs (be_fi B) D (bs_fiRetriever s) h = Some (r', Inr (emptyEvent t h))"
    using block_cache.retrieve_at_end [OF assms(2,5,4,3) refl assms(6,11-13)] assms(14) by auto
  obtain s1 where f: "Based_fetchNextDAEpoch B D s (rq_MaxBytes req) = Some (s1, Inr h)"
    and s1: "bs_currentBatchTxs s1 = []" "bs_checkpoint s1 = \<lparr>cp_DAHeight = h, cp_TxIndex = 0\<rparr>"
    using ret assms(7) by (auto simp: Based_fetchNextDAEpoch_def Let_def emptyEvent_def size_filter_def)
  have sts: "filterStatuses X [] (rq_MaxBytes req) True = []"
    using length_filterStatuses [OF assms(15), of "[]"] by simp
  obtain db' where "Checkpoint_Save (be_ck B) (bs_db s1) \<lparr>cp_DAHeight = h + 1, cp_TxIndex = 0\<rparr> = (db', None)"
    by (rule checkpoint_store.save_stored [OF assms(1)])
  then have "\<exists>s'. based_produce B X s1 h req = (s', Inl ErrNoBatch) \<and> bs_checkpoint s' = \<lparr>cp_DAHeight = h + 1, cp_TxIndex = 0\<rparr>"
    using s1 assms(10) by (simp add: based_produce_def based_remaining_def based_advance_def sts Let_def)
  then show ?thesis using f assms(8,9) by (auto simp: Based_GetNextBatch_def)
qed

theorem failed_fetch_skips_epoch_witness:
  "\<exists>s'. Based_GetNextBatch ex_based_env (ex_client {11}) (ex_exec 2) False (ex_based_at 10 11 0 [] 0 0) ex_request = Some (s', Inl ErrNoBatch) \<and>
     bs_checkpoint s' = \<lparr>cp_DAHeight = 12, cp_TxIndex = 0\<rparr> \<and> height_txs ex_ledger 10 2 11 = [[1], [2], [3]]"
proof -
  let ?s = "ex_based_at 10 11 0 [] 0 0" and ?D = "ex_client {11}"
  have ns: "dc_GetForcedInclusionNamespace ?D = [7]" and fi: "dc_HasForcedInclusionNamespace ?D" by (simp_all add: ex_client_def)
  have e: "be_ck ex_based_env = ex_ck" "be_fi ex_based_env = ex_F" by (simp_all add: ex_based_env_def)
  have s: "bs_fiRetriever ?s = ex_retriever_at 10" "bs_checkpoint ?s = \<lparr>cp_DAHeight = 11, cp_TxIndex = 0\<rparr>"
    "bs_currentBatchTxs ?s = []" "0 < bs_daHeight ?s"
    by (simp_all add: ex_based_at_def)
  have u: "UpdateCurrentHeight ex_F (fi_asyncFetcher (ex_retriever_at 10)) 11 = fi_asyncFetcher (ex_retriever_at 11)"
    by (intro ex_update) simp
  have rc: "read_cache ex_F (fi_asyncFetcher (ex_retriever_at 11)) [10, 11] = (Map.empty, [10, 11])"
    using ex_keys by (simp add: ex_retriever_at_simps GetCachedBlock_def mem_ds_def mem_Get_def)
  have "\<exists>b. fetch_missing ?D [10, 11] = Inr (b, [ErrRetrieveBlock 11 []])"
    by (simp add: ex_client_def ex_ledger_def)
  then have fe: "fetch_errors ex_F ?D (fi_asyncFetcher (ex_retriever_at 11)) (u64_range 10 11) = Inr [ErrRetrieveBlock 11 []]"
    unfolding fetch_errors_def ex_keys(4) rc snd_conv by (auto simp del: fetch_missing.simps)
  have h: "(0 :: u64) < 11" "fi_daStartHeight (ex_retriever_at 10) \<le> 11" "(11 :: u64) < - 1"
    by (simp_all add: ex_retriever_at_simps)
  have b: "CalculateEpochBoundaries 11 (fi_daStartHeight (ex_retriever_at 10)) (fi_daEpochSize (ex_retriever_at 10)) = (10, 11, 1)"
    by (simp add: ex_retriever_at_simps ex_boundaries)
  note * = failed_fetch_skips_epoch [of ex_based_env map_of map_of ex_ledger ?D ?s, unfolded e ns s(1),
      OF ex_ck.checkpoint_store_axioms mem_cache.block_cache_axioms ex_representable ex_honest ex_reach(2) fi s(2-4) h b fe [folded u] ex_contract]
  have "height_txs ex_ledger 10 2 11 = [[1], [2], [3]]"
    by (simp add: height_txs_def ex_boundaries ex_keys(4) txs_at_def ex_ledger_def)
  with * show ?thesis by (auto simp: add.commute)
qed

text \<open>
  C28: when the rest of an epoch is consumed, the new checkpoint is taken from \<open>daHeight\<close>, not from the DA height of the
  old checkpoint. The two differ after a restart whose last block is behind the checkpoint; the checkpoint then moves
  back, and the forced transactions after it are delivered again.
\<close>

theorem checkpoint_follows_stale_da_height:
  assumes "checkpoint_store (be_ck B) view" and "filter_contract X" and "bs_currentBatchTxs s \<noteq> []"
    and "cp_TxIndex (bs_checkpoint s) < word_of_nat (length (bs_currentBatchTxs s))"
    and "length (bs_currentBatchTxs s) < 2 ^ 64"
    and "FilterPostpone \<notin> set (filterStatuses X (based_remaining s) (rq_MaxBytes req) True)"
  shows "\<exists>s' res. Based_GetNextBatch B D X False s req = Some (s', res) \<and>
    bs_checkpoint s' = \<lparr>cp_DAHeight = bs_daHeight s + 1, cp_TxIndex = 0\<rparr> \<and> bs_currentBatchTxs s' = []"
proof -
  let ?R = "based_remaining s" and ?c = "bs_checkpoint s"
  let ?sts = "filterStatuses X ?R (rq_MaxBytes req) True"
  have len: "length ?R = length ?sts" using length_filterStatuses [OF assms(2)] by simp
  have "takeWhile (\<lambda>st. st \<noteq> FilterPostpone) ?sts = ?sts" using assms(6) by (auto simp: takeWhile_eq_all_conv)
  then have k: "consumed ?sts = length ?R" unfolding consumed_def by (simp only: len)
  have i: "unat (cp_TxIndex ?c) < length (bs_currentBatchTxs s)"
    using assms(4,5) by (simp add: u64_less_iff)
  have R: "?R = drop (unat (cp_TxIndex ?c)) (bs_currentBatchTxs s)" using assms(3,4) by (simp add: based_remaining_def)
  then have "cp_TxIndex ?c + word_of_nat (length ?R) = word_of_nat (length (bs_currentBatchTxs s))"
    using i by (simp add: of_nat_diff)
  moreover obtain db' where "Checkpoint_Save (be_ck B) (bs_db s) \<lparr>cp_DAHeight = bs_daHeight s + 1, cp_TxIndex = 0\<rparr> = (db', None)"
    by (rule checkpoint_store.save_stored [OF assms(1)])
  moreover have "?R \<noteq> []" using R i by simp
  ultimately have "\<exists>s' res. based_produce B X s (bs_daHeight s) req = (s', res) \<and>
      bs_checkpoint s' = \<lparr>cp_DAHeight = bs_daHeight s + 1, cp_TxIndex = 0\<rparr> \<and> bs_currentBatchTxs s' = []"
    using based_loop_spec [OF len, of "[]" 0] k by (simp add: based_produce_def based_advance_def Let_def)
  then show ?thesis using assms(3,4) by (auto simp: Based_GetNextBatch_def)
qed

text \<open>The checkpoint is at DA height 11 with the first transactions of its epoch served, the restarted sequencer was told
  that the chain is at DA height 10: the checkpoint stays at 11 and the epoch starts over.\<close>

definition ex_stale :: "(mem, mem) BasedSequencer" where
  "ex_stale = Based_SetDAHeight (ex_based_at 11 11 2 [[1], [2], [3]] 3 11000) 10"

theorem checkpoint_follows_stale_da_height_witness:
  "\<exists>s' res. Based_GetNextBatch ex_based_env (ex_client {}) (ex_exec 2) False ex_stale ex_request = Some (s', res) \<and>
     bs_checkpoint s' = \<lparr>cp_DAHeight = 11, cp_TxIndex = 0\<rparr> \<and> bs_currentBatchTxs s' = []"
proof -
  have s: "bs_currentBatchTxs ex_stale = [[1], [2], [3]]" "bs_checkpoint ex_stale = \<lparr>cp_DAHeight = 11, cp_TxIndex = 2\<rparr>"
    "bs_daHeight ex_stale = 10"
    by (simp_all add: ex_stale_def Based_SetDAHeight_def ex_based_at_def)
  then have "based_remaining ex_stale = [[3]]" by (simp add: based_remaining_def)
  then have "FilterPostpone \<notin> set (filterStatuses (ex_exec 2) (based_remaining ex_stale) (rq_MaxBytes ex_request) True)"
    by (simp add: ex_statuses)
  from checkpoint_follows_stale_da_height [of ex_based_env map_of, OF _ ex_contract _ _ _ this] s
  show ?thesis using ex_ck.checkpoint_store_axioms by (simp add: ex_based_env_def)
qed

text \<open>
  C29: when the checkpoint cannot be saved, the call returns an error but the sequencer has already moved past the
  transactions of the lost batch: the next call continues after them.
\<close>

theorem failed_save_skips_transactions:
  assumes "filter_contract X" and "bs_currentBatchTxs s \<noteq> []"
    and "cp_TxIndex (bs_checkpoint s) < word_of_nat (length (bs_currentBatchTxs s))" and "length (bs_currentBatchTxs s) < 2 ^ 64"
    and "\<And>c. snd (Checkpoint_Save (be_ck B) (bs_db s) c) \<noteq> None"
  shows "\<exists>s' e. Based_GetNextBatch B D X False s req = Some (s', Inl (ErrCheckpoint e)) \<and>
    based_remaining s' = drop (consumed (filterStatuses X (based_remaining s) (rq_MaxBytes req) True)) (based_remaining s)"
proof -
  let ?R = "based_remaining s" and ?c = "bs_checkpoint s"
  let ?sts = "filterStatuses X ?R (rq_MaxBytes req) True"
  let ?k = "consumed ?sts" and ?i = "unat (cp_TxIndex (bs_checkpoint s))" and ?T = "bs_currentBatchTxs s"
  have len: "length ?R = length ?sts" using length_filterStatuses [OF assms(1)] by simp
  have i: "?i < length ?T" using assms(3,4) by (simp add: u64_less_iff)
  have R: "?R = drop ?i ?T" using assms(2,3) by (simp add: based_remaining_def)
  have k: "?i + ?k \<le> length ?T" using consumed_le [of ?sts] len R i by simp
  have w: "unat (cp_TxIndex ?c + word_of_nat ?k) = ?i + ?k"
    using k assms(4) unat_add_no_wrap [of "cp_TxIndex ?c" "word_of_nat ?k"] by simp
  obtain s1 e where adv: "based_advance B s (bs_daHeight s) (word_of_nat ?k) = (s1, cp_TxIndex ?c + word_of_nat ?k, Some e)"
    and rem: "based_remaining s1 = drop ?k ?R"
  proof -
    let ?c' = "if word_of_nat (length ?T) \<le> cp_TxIndex ?c + word_of_nat ?k then \<lparr>cp_DAHeight = bs_daHeight s + 1, cp_TxIndex = 0\<rparr>
      else ?c\<lparr>cp_TxIndex := cp_TxIndex ?c + word_of_nat ?k\<rparr>"
    obtain db' e where sv: "Checkpoint_Save (be_ck B) (bs_db s) ?c' = (db', Some e)"
      using assms(5) [of ?c'] by (metis option.exhaust prod.collapse)
    have lt: "word_of_nat (length ?T) \<le> cp_TxIndex ?c + word_of_nat ?k \<longleftrightarrow> length ?T \<le> ?i + ?k"
      using assms(4) w by (simp add: u64_le_iff)
    have d: "drop ?k ?R = drop (?i + ?k) ?T" by (simp add: R add.commute)
    show thesis
    proof (cases "length ?T \<le> ?i + ?k")
      case True
      then show thesis using that sv lt d by (simp add: based_advance_def based_remaining_def Let_def)
    next
      case False
      then have "cp_TxIndex ?c + word_of_nat ?k < word_of_nat (length ?T)" using lt by simp
      then show thesis using that sv lt d False w assms(2) by (simp add: based_advance_def based_remaining_def Let_def)
    qed
  qed
  have "?R \<noteq> []" using R i by simp
  then have "based_produce B X s (bs_daHeight s) req = (s1, Inl (ErrCheckpoint e))"
    using based_loop_spec [OF len, of "[]" 0] adv by (simp add: based_produce_def Let_def)
  then show ?thesis using assms(2,3) rem by (auto simp: Based_GetNextBatch_def)
qed

definition ex_faulty_env :: "(faulty, mem) based_env" where
  "ex_faulty_env = \<lparr>be_fi = ex_F, be_ck = \<lparr>ck_ds = faulty_ds, ck_key = ck_key ex_ck, ck_Marshal = ck_Marshal ex_ck,
     ck_Unmarshal = ck_Unmarshal ex_ck\<rparr>\<rparr>"

definition ex_faulty :: "(faulty, mem) BasedSequencer" where
  "ex_faulty = \<lparr>bs_fiRetriever = ex_retriever_at 11, bs_daHeight = 11, bs_db = ([], [True]),
     bs_checkpoint = \<lparr>cp_DAHeight = 11, cp_TxIndex = 0\<rparr>, bs_currentBatchTxs = [[1], [2], [3]], bs_currentDAEndTime = 11000,
     bs_currentEpochTxCount = 3\<rparr>"

theorem failed_save_skips_transactions_witness:
  "\<exists>s' e. Based_GetNextBatch ex_faulty_env (ex_client {}) (ex_exec 2) False ex_faulty ex_request = Some (s', Inl (ErrCheckpoint e)) \<and>
     based_remaining ex_faulty = [[1], [2], [3]] \<and> based_remaining s' = [[3]]"
proof -
  have s: "bs_currentBatchTxs ex_faulty = [[1], [2], [3]]" "bs_checkpoint ex_faulty = \<lparr>cp_DAHeight = 11, cp_TxIndex = 0\<rparr>"
    "bs_db ex_faulty = ([], [True])"
    by (simp_all add: ex_faulty_def)
  then have rem: "based_remaining ex_faulty = [[1], [2], [3]]" by (simp add: based_remaining_def)
  have "snd (Checkpoint_Save (be_ck ex_faulty_env) (bs_db ex_faulty) c) \<noteq> None" for c
    by (simp add: s ex_faulty_env_def Checkpoint_Save_def ex_ck_def faulty_ds_def faulty_write_def)
  from failed_save_skips_transactions [OF ex_contract [of 2] _ _ _ this, of "ex_client {}" ex_request] s rem
  show ?thesis by (simp add: ex_statuses)
qed

section \<open>The solo sequencer\<close>

fun solo_submits :: "(bytes \<times> bytes list) list \<Rightarrow> SoloSequencer \<Rightarrow> SoloSequencer" where
  "solo_submits [] s = s"
| "solo_submits ((reqId, txs) # reqs) s = solo_submits reqs (fst (Solo_SubmitBatchTxs s reqId txs))"

inductive solo_reachable :: "bytes \<Rightarrow> u64 \<Rightarrow> SoloSequencer \<Rightarrow> bool" for chain cap where
  new: "solo_reachable chain cap (NewSoloSequencer chain cap)"
| submit: "solo_reachable chain cap s \<Longrightarrow> solo_reachable chain cap (fst (Solo_SubmitBatchTxs s reqId txs))"
| batch: "solo_reachable chain cap s \<Longrightarrow>
    solo_reachable chain cap (fst (Solo_GetNextBatch X now (solo_submits reqs) s req))"

definition solo_counted :: "bytes \<Rightarrow> u64 \<Rightarrow> SoloSequencer \<Rightarrow> bool" where
  "solo_counted chain cap s \<longleftrightarrow> so_id s = chain \<and> so_maxQueueBytes s = cap \<and>
     (cap \<noteq> 0 \<longrightarrow> so_queueBytes s = entryBytes (so_queue s))"

lemma entryBytes_append [simp]: "entryBytes (xs @ ys) = entryBytes xs + entryBytes ys"
  by (induction xs) (simp_all add: add.assoc)

lemma solo_submit_counted: "solo_counted chain cap s \<Longrightarrow> solo_counted chain cap (fst (Solo_SubmitBatchTxs s reqId txs))"
  by (simp add: solo_counted_def Solo_SubmitBatchTxs_def)

lemma solo_submits_counted: "solo_counted chain cap s \<Longrightarrow> solo_counted chain cap (solo_submits reqs s)"
  by (induction reqs s rule: solo_submits.induct) (simp_all add: solo_submit_counted)

lemma solo_batch_counted:
  assumes "solo_counted chain cap s"
  shows "solo_counted chain cap (fst (Solo_GetNextBatch X now (solo_submits reqs) s req))"
proof -
  have t: "solo_counted chain cap (solo_submits reqs (s\<lparr>so_queue := [], so_queueBytes := 0\<rparr>))"
    using assms by (intro solo_submits_counted) (simp add: solo_counted_def)
  then have "solo_counted chain cap (Solo_putBack (solo_submits reqs (s\<lparr>so_queue := [], so_queueBytes := 0\<rparr>)) p)" for p
    by (simp add: Solo_putBack_def solo_counted_def add.commute)
  with assms t show ?thesis
    by (simp add: Solo_GetNextBatch_def Solo_take_def Let_def split: sum.splits option.splits prod.splits)
qed

text \<open>
  C30: in every reachable state of the solo sequencer with a queue limit, the byte count is that of the queue; and a batch
  takes the whole queue: the accepted transactions are returned in order, the postponed ones stay in front of what
  was submitted while the filter ran, and only the removed ones are gone.
\<close>

theorem solo_queue_conserved:
  assumes "solo_reachable chain cap s" and "rq_Id req = chain" and "so_queue s \<noteq> []"
    and "ec_FilterTxs X (so_queue s) (rq_MaxBytes req) (getMaxGas X) False = Inr statuses"
    and "length statuses = length (so_queue s)"
    and "Solo_GetNextBatch X now (solo_submits reqs) s req = (s', res)"
  shows "(cap \<noteq> 0 \<longrightarrow> so_queueBytes s = entryBytes (so_queue s) \<and> so_queueBytes s' = entryBytes (so_queue s')) \<and>
    res = Inr \<lparr>rs_Batch = with_status FilterOK (so_queue s) statuses, rs_Timestamp = now, rs_BatchData = rq_LastBatchData req\<rparr> \<and>
    so_queue s' = with_status FilterPostpone (so_queue s) statuses @
      so_queue (solo_submits reqs (s\<lparr>so_queue := [], so_queueBytes := 0\<rparr>))"
proof -
  have inv: "solo_counted chain cap s"
    using assms(1)
  proof (induction rule: solo_reachable.induct)
    case new
    show ?case by (simp add: solo_counted_def NewSoloSequencer_def)
  qed (rule solo_submit_counted solo_batch_counted, assumption)+
  have inv': "solo_counted chain cap s'" using solo_batch_counted [OF inv, of X now reqs req] assms(6) by simp
  have "so_queue (Solo_putBack t p) = p @ so_queue t" for t p by (simp add: Solo_putBack_def)
  moreover have "s' = Solo_putBack (solo_submits reqs (s\<lparr>so_queue := [], so_queueBytes := 0\<rparr>)) (with_status FilterPostpone (so_queue s) statuses) \<and>
      res = Inr \<lparr>rs_Batch = with_status FilterOK (so_queue s) statuses, rs_Timestamp = now, rs_BatchData = rq_LastBatchData req\<rparr>"
    using inv assms(2-6) by (simp add: Solo_GetNextBatch_def Solo_take_def Let_def solo_counted_def solo_loop_spec)
  ultimately show ?thesis using inv inv' by (simp add: solo_counted_def)
qed

theorem solo_queue_conserved_witness:
  "\<exists>s s'. solo_reachable [9] 100 s \<and>
     Solo_GetNextBatch (ex_exec 2) 5 (solo_submits [([9], [[4]])]) s \<lparr>rq_Id = [9], rq_LastBatchData = [], rq_MaxBytes = 0\<rparr> =
       (s', Inr \<lparr>rs_Batch = [[1], [2]], rs_Timestamp = 5, rs_BatchData = []\<rparr>) \<and> so_queue s' = [[3], [4]] \<and> so_queueBytes s' = 2"
proof -
  define s where "s = fst (Solo_SubmitBatchTxs (NewSoloSequencer [9] 100) [9] [[1], [2], [3]])"
  have r: "solo_reachable [9] 100 s" unfolding s_def by (intro solo_reachable.intros)
  have s: "s = \<lparr>so_id = [9], so_daHeight = 0, so_queue = [[1], [2], [3]], so_queueBytes = 3, so_maxQueueBytes = 100\<rparr>"
    by (simp add: s_def Solo_SubmitBatchTxs_def NewSoloSequencer_def)
  let ?req = "\<lparr>rq_Id = [9], rq_LastBatchData = [], rq_MaxBytes = 0\<rparr> :: GetNextBatchRequest"
  have f: "ec_FilterTxs (ex_exec 2) (so_queue s) 0 (getMaxGas (ex_exec 2)) False = Inr [FilterOK, FilterOK, FilterPostpone]"
    by (simp add: s ex_exec_def numeral_2_eq_2)
  obtain s' res where g: "Solo_GetNextBatch (ex_exec 2) 5 (solo_submits [([9], [[4]])]) s ?req = (s', res)" by fastforce
  from solo_queue_conserved [OF r _ _ _ _ g] f
  have "so_queueBytes s' = entryBytes (so_queue s') \<and> res = Inr \<lparr>rs_Batch = [[1], [2]], rs_Timestamp = 5, rs_BatchData = []\<rparr> \<and>
      so_queue s' = [[3], [4]]"
    by (simp add: s Solo_SubmitBatchTxs_def)
  with g r show ?thesis by auto
qed

end
