(* ===== verification/Replayer.thy ===== *)
theory Replayer
  imports Block_Store Validation Genesis
begin

text \<open>
  The replayer of \<open>block/internal/common/replay.go\<close>, which brings the execution layer to the height of the block
  store after a restart. The execution layer is code outside the repository's core: the record \<open>exec_layer\<close> holds the
  calls the block components make on its state \<open>'x\<close> (\<open>core/execution/execution.go\<close>); \<open>HeightProvider\<close> and
  \<open>Rollbackable\<close> are optional interfaces, so these calls are options.

  Functions that change a state, may fail and may not return have results of type \<open>outcome\<close>: \<open>None\<close> is a call that
  does not return.
\<close>

type_synonym ('s, 'e, 'a) outcome = "('s \<times> ('e + 'a)) option"

definition bindS :: "('s, 'e, 'a) outcome \<Rightarrow> ('s \<Rightarrow> 'a \<Rightarrow> ('s, 'e, 'b) outcome) \<Rightarrow> ('s, 'e, 'b) outcome" where
  "bindS m f = (case m of None \<Rightarrow> None | Some (s, Inl e) \<Rightarrow> Some (s, Inl e) | Some (s, Inr a) \<Rightarrow> f s a)"

lemma bindS_simps [simp]:
  "bindS None f = None" "bindS (Some (s, Inl e)) f = Some (s, Inl e)" "bindS (Some (s, Inr a)) f = f s a"
  by (simp_all add: bindS_def)

lemma bindS_Inr: "bindS m f = Some (s', Inr b) \<longleftrightarrow> (\<exists>s a. m = Some (s, Inr a) \<and> f s a = Some (s', Inr b))"
  by (auto simp: bindS_def split: option.splits prod.splits sum.splits)

section \<open>The execution layer\<close>

record 'x exec_layer =
  el_InitChain :: "'x \<Rightarrow> instant \<Rightarrow> u64 \<Rightarrow> string \<Rightarrow> 'x \<times> (string + bytes)"
  el_ExecuteTxs :: "'x \<Rightarrow> bytes list \<Rightarrow> u64 \<Rightarrow> instant \<Rightarrow> bytes \<Rightarrow> 'x \<times> (string + ExecuteResult)"
  el_SetFinal :: "'x \<Rightarrow> u64 \<Rightarrow> 'x \<times> string option"
  el_GetLatestHeight :: "('x \<Rightarrow> string + u64) option"
  el_Rollback :: "('x \<Rightarrow> u64 \<Rightarrow> 'x \<times> string option) option"

section \<open>Replaying\<close>

datatype replay_error =
    ErrExecHeight string
  | ErrExecRollback string
  | ErrExecAhead u64 u64
  | ErrTargetMissing store_error
  | ErrReplayBlock store_error
  | ErrReplayPrevState store_error
  | ErrReplayExecute string
  | ErrReplayAppHash u64
  | ErrReplayProposer u64
  | ErrReplayCommit store_error

text \<open>The state before the first block: what it leaves out is the zero value.\<close>

definition replayGenesisState :: "Genesis \<Rightarrow> Header \<Rightarrow> State" where
  "replayGenesisState g h =
     \<lparr>st_Version = \<lparr>ver_Block = 0, ver_App = 0\<rparr>, st_ChainID = g_ChainID g, st_InitialHeight = g_InitialHeight g,
      st_LastBlockHeight = g_InitialHeight g - 1, st_LastBlockTime = g_StartTime g, st_LastHeaderHash = [],
      st_DAHeight = 0, st_AppHash = h_AppHash h, st_NextProposerAddress = obytes (g_ProposerAddress g)\<rparr>"

definition replayPrevState ::
  "('d, 'k) store_env \<Rightarrow> Genesis \<Rightarrow> 'd \<Rightarrow> u64 \<Rightarrow> Header \<Rightarrow> store_error + State" where
  "replayPrevState E g d height h =
     (if height = g_InitialHeight g then Inr (replayGenesisState g h) else GetStateAtHeight E d (height - 1))"

text \<open>The comparison with the state stored for the height, when there is one.\<close>

definition replayVerify :: "('d, 'k) store_env \<Rightarrow> 'd \<Rightarrow> u64 \<Rightarrow> bytes \<Rightarrow> State \<Rightarrow> replay_error option" where
  "replayVerify E d height newAppHash newState =
     (case GetStateAtHeight E d height of
        Inl _ \<Rightarrow> None
      | Inr expectedState \<Rightarrow>
          if newAppHash \<noteq> st_AppHash expectedState then Some (ErrReplayAppHash height)
          else if st_NextProposerAddress expectedState \<noteq> [] \<and>
                  st_NextProposerAddress newState \<noteq> st_NextProposerAddress expectedState
          then Some (ErrReplayProposer height)
          else None)"

definition replayBlock ::
  "('d, 'k) store_env \<Rightarrow> 'x exec_layer \<Rightarrow> Genesis \<Rightarrow> 'd \<times> 'x \<Rightarrow> u64 \<Rightarrow> ('d \<times> 'x) \<times> replay_error option" where
  "replayBlock E X g s height =
     (let (d, x) = s in
      case GetBlockData E d height of
        Inl e \<Rightarrow> ((d, x), Some (ErrReplayBlock e))
      | Inr (header, data) \<Rightarrow>
      (case replayPrevState E g d height (sh_Header header) of
        Inl e \<Rightarrow> ((d, x), Some (ErrReplayPrevState e))
      | Inr prevState \<Rightarrow>
      (case el_ExecuteTxs X x (d_Txs data) height (Header_Time (sh_Header header)) (st_AppHash prevState) of
        (x, Inl e) \<Rightarrow> ((d, x), Some (ErrReplayExecute e))
      | (x, Inr result) \<Rightarrow>
          let newAppHash = er_UpdatedStateRoot result;
              newState = NextState (s_crypto E) (s_codec E) (s_wire E) prevState (sh_Header header) newAppHash
                (er_NextProposerAddress result)
          in case replayVerify E d height newAppHash newState of
               Some e \<Rightarrow> ((d, x), Some e)
             | None \<Rightarrow>
                 (case commit_result E d (bindE (NewBatch E d) (\<lambda>ops. UpdateState E d ops newState)) of
                    (d, e) \<Rightarrow> ((d, x), map_option ErrReplayCommit e)))))"

partial_function (option) replay_loop ::
  "('d, 'k) store_env \<Rightarrow> 'x exec_layer \<Rightarrow> Genesis \<Rightarrow> u64 \<Rightarrow> 'd \<times> 'x \<Rightarrow> u64 \<Rightarrow> ('d \<times> 'x, replay_error, unit) outcome" where
  "replay_loop E X g targetHeight s height =
     (if height \<le> targetHeight
      then (case replayBlock E X g s height of
              (s, Some e) \<Rightarrow> Some (s, Inl e)
            | (s, None) \<Rightarrow> replay_loop E X g targetHeight s (height + 1))
      else Some (s, Inr ()))"

definition SyncToHeight ::
  "('d, 'k) store_env \<Rightarrow> 'x exec_layer \<Rightarrow> Genesis \<Rightarrow> 'd \<times> 'x \<Rightarrow> u64 \<Rightarrow> ('d \<times> 'x, replay_error, unit) outcome" where
  "SyncToHeight E X g s targetHeight =
     (let (d, x) = s in
      case el_GetLatestHeight X of
        None \<Rightarrow> Some (s, Inr ())
      | Some getLatestHeight \<Rightarrow>
      if targetHeight < g_InitialHeight g then Some (s, Inr ())
      else (case getLatestHeight x of
        Inl e \<Rightarrow> Some (s, Inl (ErrExecHeight e))
      | Inr execHeight \<Rightarrow>
          if targetHeight < execHeight
          then (case el_Rollback X of
                  None \<Rightarrow> Some (s, Inl (ErrExecAhead execHeight targetHeight))
                | Some rollback \<Rightarrow>
                    (case rollback x targetHeight of
                       (x, Some e) \<Rightarrow> Some ((d, x), Inl (ErrExecRollback e))
                     | (x, None) \<Rightarrow> Some ((d, x), Inr ())))
          else if execHeight < targetHeight
          then (case GetBlockData E d targetHeight of
                  Inl e \<Rightarrow> Some (s, Inl (ErrTargetMissing e))
                | Inr _ \<Rightarrow> replay_loop E X g targetHeight s (execHeight + 1))
          else Some (s, Inr ())))"

end
