(* ===== verification/Executor.thy ===== *)
theory Executor
  imports Replayer Sequencers
begin

text \<open>
  The block producer of \<open>block/internal/executing\<close> (\<open>executor.go\<close>, \<open>pending.go\<close>). \<open>Executor\<close> is the state: the block
  store and the execution layer it writes, the sequencer it calls, and the fields of the Go struct. The record
  \<open>executor_env\<close> holds the configuration and the calls on other components, the record \<open>surroundings\<close> what raft, the
  cache and the context answer while one call runs. The signatures made and the messages broadcast are recorded in the
  order of the calls (\<open>x_signed\<close>, \<open>x_broadcast\<close>), and so are the errors sent to the error channel. Logging and metrics
  are left out.
\<close>

section \<open>Interfaces\<close>

record RaftBlockState =
  rb_Height :: u64
  rb_Hash :: bytes
  rb_Timestamp :: u64
  rb_Header :: bytes
  rb_Data :: bytes
  rb_LastSubmittedDaHeaderHeight :: u64
  rb_LastSubmittedDaDataHeight :: u64

text \<open>A raft node: \<open>HasQuorum\<close> and \<open>GetState\<close> are asked several times during one call, the argument counts them.\<close>

record raft_node =
  rn_HasQuorum :: "nat \<Rightarrow> bool"
  rn_GetState :: "nat \<Rightarrow> RaftBlockState"
  rn_Broadcast :: "RaftBlockState \<Rightarrow> string option"

record 'k signer =
  sn_GetPublic :: "string + 'k"
  sn_GetAddress :: "string + bytes"
  sn_Sign :: "bytes \<Rightarrow> string + bytes"

text \<open>A sequencer: \<open>GetNextBatch\<close> may not return (its scan of an epoch), and a response or its batch may be \<open>nil\<close>.
  \<open>AckBatch\<close> is an optional interface.\<close>

record 'q sequencer =
  sqi_GetNextBatch :: "'q \<Rightarrow> GetNextBatchRequest \<Rightarrow> ('q \<times> (seq_error + GetNextBatchResponse option)) option"
  sqi_SetDAHeight :: "'q \<Rightarrow> u64 \<Rightarrow> 'q"
  sqi_GetDAHeight :: "'q \<Rightarrow> u64"
  sqi_AckBatch :: "('q \<Rightarrow> 'q \<times> seq_error option) option"

text \<open>The sequencers of \<open>pkg/sequencers\<close> as implementations of the interface; the solo and the based one do not
  acknowledge batches.\<close>

definition single_sequencer :: "('d, 'e, 'c, 's, 'k) seq_env \<Rightarrow> da_client \<Rightarrow> exec_client \<Rightarrow> instant \<Rightarrow> 's \<Rightarrow> ('d, 'e, 'c) Sequencer sequencer" where
  "single_sequencer E D X now store =
     \<lparr>sqi_GetNextBatch = (\<lambda>c req. map_option (map_prod id (map_sum id Some)) (GetNextBatch E D X now store c req)),
      sqi_SetDAHeight = Sequencers.SetDAHeight, sqi_GetDAHeight = sq_daHeight, sqi_AckBatch = Some (AckBatch E)\<rparr>"

definition based_sequencer :: "('e, 'c) based_env \<Rightarrow> da_client \<Rightarrow> exec_client \<Rightarrow> bool \<Rightarrow> ('e, 'c) BasedSequencer sequencer" where
  "based_sequencer B D X ctxErr =
     \<lparr>sqi_GetNextBatch = (\<lambda>s req. map_option (map_prod id (map_sum id Some)) (Based_GetNextBatch B D X ctxErr s req)),
      sqi_SetDAHeight = Based_SetDAHeight, sqi_GetDAHeight = bs_daHeight, sqi_AckBatch = None\<rparr>"

definition solo_sequencer :: "exec_client \<Rightarrow> instant \<Rightarrow> SoloSequencer sequencer" where
  "solo_sequencer X now =
     \<lparr>sqi_GetNextBatch = (\<lambda>s req. Some (map_prod id (map_sum id Some) (Solo_GetNextBatch X now id s req))),
      sqi_SetDAHeight = Solo_SetDAHeight, sqi_GetDAHeight = so_daHeight, sqi_AckBatch = None\<rparr>"

record ('d, 'k, 'x, 'q) executor_env =
  xe_store :: "('d, 'k) store_env"
  xe_exec :: "'x exec_layer"
  xe_sequencer :: "'q sequencer"
  xe_signer :: "'k signer option"
  xe_genesis :: Genesis
  xe_BasedSequencer :: bool
  xe_LazyMode :: bool
  xe_BlockTime :: int
  xe_MaxPendingHeadersAndData :: u64
  xe_DefaultMaxBlobSize :: u64
  xe_SignatureBytes :: "Header \<Rightarrow> string + bytes"
  xe_ValidatorHasher :: "bytes \<Rightarrow> 'k option \<Rightarrow> string + bytes"

text \<open>The providers of \<open>DefaultBlockOptions\<close>.\<close>

definition DefaultAggregatorNodeSignatureBytesProvider :: "codec \<Rightarrow> protowire \<Rightarrow> Header \<Rightarrow> string + bytes" where
  "DefaultAggregatorNodeSignatureBytesProvider P W h =
     (case Header_MarshalBinary P W h of None \<Rightarrow> Inl ''marshal'' | Some bz \<Rightarrow> Inr bz)"

definition DefaultValidatorHasherProvider :: "bytes \<Rightarrow> 'k option \<Rightarrow> string + bytes" where
  "DefaultValidatorHasherProvider proposerAddress pubKey = Inr []"

record surroundings =
  w_raft :: "raft_node option"
  w_ctxErr :: bool
  w_stopped :: "nat \<Rightarrow> bool"
  w_NumPendingHeaders :: u64
  w_NumPendingData :: u64
  w_LastSubmittedHeaderHeight :: u64
  w_LastSubmittedDataHeight :: u64

section \<open>State\<close>

record lastBlockInfo =
  li_headerHash :: bytes
  li_dataHash :: bytes
  li_signature :: bytes

record BatchData =
  bd_Transactions :: "bytes list"
  bd_Time :: instant
  bd_Data :: "bytes list"

datatype executor_error =
    ErrSignerNil
  | ErrAlreadyStarted
  | ErrInitChain string
  | ErrSignerAddress string
  | ErrNotProposer
  | ErrAheadOfRaft u64 u64
  | ErrRaftHeader store_error
  | ErrRaftHash u64
  | ErrInitStore store_error
  | ErrMigrateGet store_error
  | ErrMigrateSigned
  | ErrMigrateMarshal wire_error
  | ErrMigrateStore store_error
  | ErrSync replay_error
  | ErrStateAfterSync store_error
  | ErrSetFinal string
  | ErrContext
  | ErrNoQuorum
  | ErrAckPrevious seq_error
  | ErrPendingStore store_error
  | ErrPendingDataMissing
  | ErrPendingUnmarshal wire_error
  | ErrPendingMarshal wire_error
  | ErrRetrieve seq_error
  | PanicNilBatch
  | ErrLastBlock store_error
  | ErrLastSignature store_error
  | ErrPublicKey string
  | ErrValidatorHash string
  | ErrExecute string
  | ErrRetryCancelled
  | ErrSignaturePayload string
  | ErrSign string
  | ErrValidateBlock valid_error
  | ErrSaveBlock store_error
  | ErrRaftMarshal wire_error
  | ErrRaftBroadcast string
  | ErrCommitBlock store_error

datatype 'k message = GossipHeader "'k P2PSignedHeader" | GossipData P2PData

record ('d, 'k, 'x, 'q) Executor =
  x_store :: 'd
  x_exec :: 'x
  x_sequencer :: 'q
  x_lastState :: "State option"
  x_hasPendingBlock :: bool
  x_lastBlockInfo :: "lastBlockInfo option"
  x_pendingCheckCounter :: u64
  x_pendingBatchAck :: bool
  x_txNotify :: bool
  x_started :: bool
  x_tracking :: link_tracking
  x_errors :: "executor_error list"
  x_signed :: "bytes list"
  x_broadcast :: "'k message list"

definition NewExecutor :: "('d, 'k, 'x, 'q) executor_env \<Rightarrow> link_tracking \<Rightarrow> 'd \<Rightarrow> 'x \<Rightarrow> 'q \<Rightarrow>
    executor_error + ('d, 'k, 'x, 'q) Executor" where
  "NewExecutor V lt d x q =
     (if \<not> xe_BasedSequencer V \<and> xe_signer V = None then Inl ErrSignerNil
      else Inr \<lparr>x_store = d, x_exec = x, x_sequencer = q, x_lastState = None, x_hasPendingBlock = False,
        x_lastBlockInfo = None, x_pendingCheckCounter = 0, x_pendingBatchAck = False, x_txNotify = False,
        x_started = False, x_tracking = lt, x_errors = [], x_signed = [], x_broadcast = []\<rparr>)"

definition ackCommittedBatch :: "('d, 'k, 'x, 'q) executor_env \<Rightarrow> ('d, 'k, 'x, 'q) Executor \<Rightarrow>
    ('d, 'k, 'x, 'q) Executor \<times> seq_error option" where
  "ackCommittedBatch V e =
     (case sqi_AckBatch (xe_sequencer V) of
        None \<Rightarrow> (e, None)
      | Some ack \<Rightarrow> (case ack (x_sequencer e) of
                      (q, Some err) \<Rightarrow> (e\<lparr>x_sequencer := q, x_pendingBatchAck := True\<rparr>, Some err)
                    | (q, None) \<Rightarrow> (e\<lparr>x_sequencer := q, x_pendingBatchAck := False\<rparr>, None)))"

definition emptyState :: State where
  "emptyState = \<lparr>st_Version = \<lparr>ver_Block = 0, ver_App = 0\<rparr>, st_ChainID = [], st_InitialHeight = 0,
     st_LastBlockHeight = 0, st_LastBlockTime = zero_time, st_LastHeaderHash = [], st_DAHeight = 0, st_AppHash = [],
     st_NextProposerAddress = []\<rparr>"

definition getLastState :: "('d, 'k, 'x, 'q) Executor \<Rightarrow> State" where
  "getLastState e = (case x_lastState e of None \<Rightarrow> emptyState | Some state \<Rightarrow> state)"

definition NotifyNewTransactions :: "('d, 'k, 'x, 'q) Executor \<Rightarrow> ('d, 'k, 'x, 'q) Executor" where
  "NotifyNewTransactions e = e\<lparr>x_txNotify := True\<rparr>"

definition sendCriticalError :: "('d, 'k, 'x, 'q) Executor \<Rightarrow> executor_error \<Rightarrow> ('d, 'k, 'x, 'q) Executor" where
  "sendCriticalError e err = e\<lparr>x_errors := x_errors e @ [err]\<rparr>"

text \<open>A fatal error: sent to the error channel and returned.\<close>

definition critical :: "('d, 'k, 'x, 'q) Executor \<Rightarrow> executor_error \<Rightarrow> (('d, 'k, 'x, 'q) Executor, executor_error, 'a) outcome" where
  "critical e err = Some (sendCriticalError e err, Inl err)"

section \<open>The pending block\<close>

definition headerKey :: string where "headerKey = ''pending_header''"
definition dataKey :: string where "dataKey = ''pending_data''"

definition getPendingBlock :: "('d, 'k) store_env \<Rightarrow> 'd \<Rightarrow> executor_error + ('k SignedHeader \<times> Data) option" where
  "getPendingBlock E d =
     (case GetMetadata E d headerKey of
        Inl e \<Rightarrow> if IsNotFound e then Inr None else Inl (ErrPendingStore e)
      | Inr headerBytes \<Rightarrow>
      (case GetMetadata E d dataKey of
        Inl e \<Rightarrow> if IsNotFound e then Inl ErrPendingDataMissing else Inl (ErrPendingStore e)
      | Inr dataBytes \<Rightarrow>
      (case SignedHeader_UnmarshalBinary (s_crypto E) (s_codec E) (s_wire E) newSignedHeader headerBytes of
        Inl e \<Rightarrow> Inl (ErrPendingUnmarshal e)
      | Inr header \<Rightarrow>
      (case Data_UnmarshalBinary (s_codec E) dataBytes of
        Inl e \<Rightarrow> Inl (ErrPendingUnmarshal e)
      | Inr data \<Rightarrow> Inr (Some (header, data))))))"

definition savePendingBlock ::
  "('d, 'k) store_env \<Rightarrow> 'd \<Rightarrow> 'k SignedHeader \<Rightarrow> Data \<Rightarrow> 'd \<times> executor_error option" where
  "savePendingBlock E d header data =
     (case SignedHeader_MarshalBinary (s_crypto E) (s_codec E) (s_wire E) header of
        Inl e \<Rightarrow> (d, Some (ErrPendingMarshal e))
      | Inr headerBytes \<Rightarrow>
      (case Data_MarshalBinary (s_codec E) data of
        None \<Rightarrow> (d, Some (ErrPendingMarshal ErrMarshal))
      | Some dataBytes \<Rightarrow>
          (case commit_result E d
             (bindE (NewBatch E d) (\<lambda>ops.
              bindE (Batch_Put E d ops (ds_NewKey (s_ds E) (GetMetaKey headerKey)) headerBytes) (\<lambda>ops.
              Batch_Put E d ops (ds_NewKey (s_ds E) (GetMetaKey dataKey)) dataBytes))) of
             (d, e) \<Rightarrow> (d, map_option ErrPendingStore e))))"

definition deletePendingBlock :: "('d, 'k) store_env \<Rightarrow> 'd \<Rightarrow> 'd \<times> store_error option" where
  "deletePendingBlock E d =
     (case DeleteMetadata E d headerKey of
        (d, Some e) \<Rightarrow> (d, Some e)
      | (d, None) \<Rightarrow> DeleteMetadata E d dataKey)"

text \<open>The keys of the old format, deleted after the migration.\<close>

definition migrateCleanup :: "('d, 'k) store_env \<Rightarrow> 'd \<Rightarrow> u64 \<Rightarrow> bytes \<Rightarrow> 'd \<times> store_error option" where
  "migrateCleanup E d height headerHash =
     commit_result E d
       (bindE (Batch_Delete_lenient E d (getHeaderKey height) []) (\<lambda>ops.
        bindE (Batch_Delete_lenient E d (getDataKey height) ops) (\<lambda>ops.
        bindE (Batch_Delete_lenient E d (getSignatureKey height) ops) (\<lambda>ops.
        Batch_Delete_lenient E d (getIndexKey E headerHash) ops))))"

definition migrateLegacyPendingBlock :: "('d, 'k) store_env \<Rightarrow> 'd \<Rightarrow> State \<Rightarrow> 'd \<times> executor_error option" where
  "migrateLegacyPendingBlock E d lastState =
     (let candidateHeight = st_LastBlockHeight lastState + 1 in
      case GetBlockData E d candidateHeight of
        Inl e \<Rightarrow> (d, if IsNotFound e then None else Some (ErrMigrateGet e))
      | Inr (pendingHeader, pendingData) \<Rightarrow>
          if sh_Signature pendingHeader \<noteq> [] then (d, Some ErrMigrateSigned)
          else (case savePendingBlock E d pendingHeader pendingData of
                  (d, Some e) \<Rightarrow> (d, Some e)
                | (d, None) \<Rightarrow>
                (case NewBatch E d of
                  Inl e \<Rightarrow> (d, Some (ErrMigrateStore e))
                | Inr _ \<Rightarrow>
                (case SignedHeader_MarshalBinary (s_crypto E) (s_codec E) (s_wire E) pendingHeader of
                  Inl e \<Rightarrow> (d, Some (ErrMigrateMarshal e))
                | Inr headerBytes \<Rightarrow>
                    (case migrateCleanup E d candidateHeight (c_sha256 (s_crypto E) headerBytes) of
                       (d, e) \<Rightarrow> (d, map_option ErrMigrateStore e))))))"

section \<open>Starting\<close>

definition initialProposerAddress :: "('d, 'k, 'x, 'q) executor_env \<Rightarrow> bytes" where
  "initialProposerAddress V = obytes (g_ProposerAddress (xe_genesis V))"

text \<open>Without a signer the call panics; \<open>NewExecutor\<close> has refused that configuration.\<close>

definition assertConfiguredSigner :: "('d, 'k, 'x, 'q) executor_env \<Rightarrow> bytes \<Rightarrow> executor_error option" where
  "assertConfiguredSigner V expectedProposer =
     (if xe_BasedSequencer V then None
      else case xe_signer V of
        None \<Rightarrow> Some ErrSignerNil
      | Some s \<Rightarrow> (case sn_GetAddress s of
                    Inl err \<Rightarrow> Some (ErrSignerAddress err)
                  | Inr addr \<Rightarrow> if addr \<noteq> expectedProposer then Some ErrNotProposer else None))"

definition initState :: "('d, 'k, 'x, 'q) executor_env \<Rightarrow> bytes \<Rightarrow> State" where
  "initState V stateRoot =
     (let g = xe_genesis V in
      \<lparr>st_Version = \<lparr>ver_Block = 0, ver_App = 0\<rparr>, st_ChainID = g_ChainID g, st_InitialHeight = g_InitialHeight g,
       st_LastBlockHeight = g_InitialHeight g - 1, st_LastBlockTime = g_StartTime g, st_LastHeaderHash = [],
       st_DAHeight = g_DAStartHeight g, st_AppHash = stateRoot, st_NextProposerAddress = initialProposerAddress V\<rparr>)"

definition loadState :: "('d, 'k, 'x, 'q) executor_env \<Rightarrow> ('d, 'k, 'x, 'q) Executor \<Rightarrow>
    (('d, 'k, 'x, 'q) Executor, executor_error, State) outcome" where
  "loadState V e =
     bindS (case GetState (xe_store V) (x_store e) of
              Inr state \<Rightarrow> Some (e, Inr state)
            | Inl _ \<Rightarrow>
                (let g = xe_genesis V in
                 case el_InitChain (xe_exec V) (x_exec e) (g_StartTime g) (g_InitialHeight g) (g_ChainID g) of
                   (x, Inl err) \<Rightarrow> critical (e\<lparr>x_exec := x\<rparr>) (ErrInitChain err)
                 | (x, Inr stateRoot) \<Rightarrow> Some (e\<lparr>x_exec := x\<rparr>, Inr (initState V stateRoot))))
       (\<lambda>e state.
          let state = (if st_NextProposerAddress state = []
                       then state\<lparr>st_NextProposerAddress := initialProposerAddress V\<rparr> else state)
          in case assertConfiguredSigner V (st_NextProposerAddress state) of
               Some err \<Rightarrow> Some (e, Inl err)
             | None \<Rightarrow> Some (e, Inr state))"

text \<open>The hash of the stored header of \<open>height\<close> is the hash raft holds.\<close>

definition checkRaftHash :: "('d, 'k) store_env \<Rightarrow> 'd \<Rightarrow> u64 \<Rightarrow> RaftBlockState \<Rightarrow> executor_error option" where
  "checkRaftHash E d height raftState =
     (case GetHeader E d height of
        Inl err \<Rightarrow> Some (ErrRaftHeader err)
      | Inr header \<Rightarrow>
          if snd (MemoizeHash (s_crypto E) (s_codec E) (s_wire E) (sh_Header header)) \<noteq> rb_Hash raftState
          then Some (ErrRaftHash height) else None)"

definition checkRaft :: "('d, 'k) store_env \<Rightarrow> surroundings \<Rightarrow> 'd \<Rightarrow> State \<Rightarrow> executor_error option" where
  "checkRaft E w d state =
     (case w_raft w of
        None \<Rightarrow> None
      | Some r \<Rightarrow>
          let raftState = rn_GetState r 0 in
          if rb_Height raftState = 0 then None
          else if rb_Height raftState < st_LastBlockHeight state
          then Some (ErrAheadOfRaft (st_LastBlockHeight state) (rb_Height raftState))
          else if 0 < st_LastBlockHeight state \<and> st_LastBlockHeight state = rb_Height raftState
          then checkRaftHash E d (st_LastBlockHeight state) raftState
          else None)"

definition storeInitialState :: "('d, 'k) store_env \<Rightarrow> 'd \<Rightarrow> State \<Rightarrow> 'd \<times> executor_error option" where
  "storeInitialState E d state =
     (case commit_result E d
        (bindE (NewBatch E d) (\<lambda>ops.
         bindE (SetHeight E d ops (st_LastBlockHeight state)) (\<lambda>ops.
         UpdateState E d ops state))) of
        (d, e) \<Rightarrow> (d, map_option ErrInitStore e))"

definition loadLastBlockInfo :: "('d, 'k) store_env \<Rightarrow> 'd \<Rightarrow> u64 \<Rightarrow> lastBlockInfo option" where
  "loadLastBlockInfo E d height =
     (if height = 0 then None
      else case GetBlockData E d height of
        Inl _ \<Rightarrow> None
      | Inr (h, data) \<Rightarrow>
          Some \<lparr>li_headerHash = Header_Hash (s_crypto E) (s_codec E) (s_wire E) (sh_Header h),
                li_dataHash = Data_Hash (s_crypto E) (s_codec E) data,
                li_signature = (case GetSignature E d height of Inl _ \<Rightarrow> [] | Inr sig \<Rightarrow> sig)\<rparr>)"

definition syncTarget :: "surroundings \<Rightarrow> State \<Rightarrow> u64" where
  "syncTarget w state =
     (case w_raft w of
        None \<Rightarrow> st_LastBlockHeight state
      | Some r \<Rightarrow> if st_LastBlockHeight state < rb_Height (rn_GetState r 1) then rb_Height (rn_GetState r 1)
                  else st_LastBlockHeight state)"

definition checkRaftAfterSync :: "('d, 'k) store_env \<Rightarrow> surroundings \<Rightarrow> 'd \<Rightarrow> executor_error option" where
  "checkRaftAfterSync E w d =
     (case w_raft w of
        None \<Rightarrow> None
      | Some r \<Rightarrow>
          let raftState = rn_GetState r 2 in
          (case GetState E d of
             Inl err \<Rightarrow> Some (ErrStateAfterSync err)
           | Inr newState \<Rightarrow>
               if 0 < st_LastBlockHeight newState \<and> st_LastBlockHeight newState = rb_Height raftState
               then checkRaftHash E d (st_LastBlockHeight newState) raftState else None))"

text \<open>An error, or none, of a check; and of a step that changes only the store.\<close>

definition failing :: "('d, 'k, 'x, 'q) Executor \<Rightarrow> executor_error option \<Rightarrow> (('d, 'k, 'x, 'q) Executor, executor_error, unit) outcome" where
  "failing e err = (case err of None \<Rightarrow> Some (e, Inr ()) | Some err \<Rightarrow> Some (e, Inl err))"

definition on_store :: "('d, 'k, 'x, 'q) Executor \<Rightarrow> ('d \<Rightarrow> 'd \<times> executor_error option) \<Rightarrow>
    (('d, 'k, 'x, 'q) Executor, executor_error, unit) outcome" where
  "on_store e f = (case f (x_store e) of (d, err) \<Rightarrow> failing (e\<lparr>x_store := d\<rparr>) err)"

definition syncExecution :: "('d, 'k, 'x, 'q) executor_env \<Rightarrow> ('d, 'k, 'x, 'q) Executor \<Rightarrow> u64 \<Rightarrow>
    (('d, 'k, 'x, 'q) Executor, executor_error, unit) outcome" where
  "syncExecution V e target =
     (case SyncToHeight (xe_store V) (xe_exec V) (xe_genesis V) (x_store e, x_exec e) target of
        None \<Rightarrow> None
      | Some ((d, x), Inl err) \<Rightarrow> critical (e\<lparr>x_store := d, x_exec := x\<rparr>) (ErrSync err)
      | Some ((d, x), Inr _) \<Rightarrow> Some (e\<lparr>x_store := d, x_exec := x\<rparr>, Inr ()))"

definition finalize :: "('d, 'k, 'x, 'q) executor_env \<Rightarrow> ('d, 'k, 'x, 'q) Executor \<Rightarrow> u64 \<Rightarrow>
    (('d, 'k, 'x, 'q) Executor, executor_error, unit) outcome" where
  "finalize V e height =
     (case el_SetFinal (xe_exec V) (x_exec e) height of
        (x, Some err) \<Rightarrow> critical (e\<lparr>x_exec := x\<rparr>) (ErrSetFinal err)
      | (x, None) \<Rightarrow> Some (e\<lparr>x_exec := x\<rparr>, Inr ()))"

text \<open>\<open>initializeState\<close> in its steps: the state in memory, the pending flag and the last-block cache, and the execution
  layer brought to the target height.\<close>

definition setInitialState :: "('d, 'k, 'x, 'q) executor_env \<Rightarrow> ('d, 'k, 'x, 'q) Executor \<Rightarrow> State \<Rightarrow> ('d, 'k, 'x, 'q) Executor" where
  "setInitialState V e state =
     e\<lparr>x_lastState := Some state, x_sequencer := sqi_SetDAHeight (xe_sequencer V) (x_sequencer e) (st_DAHeight state)\<rparr>"

definition warmCaches :: "('d, 'k, 'x, 'q) executor_env \<Rightarrow> ('d, 'k, 'x, 'q) Executor \<Rightarrow> State \<Rightarrow> ('d, 'k, 'x, 'q) Executor" where
  "warmCaches V e state =
     (let e = (case GetMetadata (xe_store V) (x_store e) headerKey of
                 Inl _ \<Rightarrow> e | Inr _ \<Rightarrow> e\<lparr>x_hasPendingBlock := True\<rparr>)
      in case loadLastBlockInfo (xe_store V) (x_store e) (st_LastBlockHeight state) of
           None \<Rightarrow> e | Some info \<Rightarrow> e\<lparr>x_lastBlockInfo := Some info\<rparr>)"

definition syncAndVerify :: "('d, 'k, 'x, 'q) executor_env \<Rightarrow> surroundings \<Rightarrow> ('d, 'k, 'x, 'q) Executor \<Rightarrow> u64 \<Rightarrow>
    (('d, 'k, 'x, 'q) Executor, executor_error, unit) outcome" where
  "syncAndVerify V w e syncTargetHeight =
     bindS (syncExecution V e syncTargetHeight) (\<lambda>e _.
     bindS (if xe_BasedSequencer V \<and> 0 < syncTargetHeight then finalize V e syncTargetHeight else Some (e, Inr ())) (\<lambda>e _.
     failing e (checkRaftAfterSync (xe_store V) w (x_store e))))"

definition initializeState :: "('d, 'k, 'x, 'q) executor_env \<Rightarrow> surroundings \<Rightarrow> ('d, 'k, 'x, 'q) Executor \<Rightarrow>
    (('d, 'k, 'x, 'q) Executor, executor_error, unit) outcome" where
  "initializeState V w e =
     bindS (loadState V e) (\<lambda>e state.
     bindS (failing e (checkRaft (xe_store V) w (x_store e) state)) (\<lambda>e _.
     bindS (on_store (setInitialState V e state) (\<lambda>d. storeInitialState (xe_store V) d state)) (\<lambda>e _.
     bindS (on_store e (\<lambda>d. migrateLegacyPendingBlock (xe_store V) d (getLastState e))) (\<lambda>e _.
     syncAndVerify V w (warmCaches V e state) (syncTarget w state)))))"

definition Start :: "('d, 'k, 'x, 'q) executor_env \<Rightarrow> surroundings \<Rightarrow> ('d, 'k, 'x, 'q) Executor \<Rightarrow>
    (('d, 'k, 'x, 'q) Executor, executor_error, unit) outcome" where
  "Start V w e =
     (if x_started e then Some (e, Inl ErrAlreadyStarted)
      else case initializeState V w (e\<lparr>x_started := True\<rparr>) of
        None \<Rightarrow> None
      | Some (e, Inl err) \<Rightarrow> Some (e\<lparr>x_started := False\<rparr>, Inl err)
      | Some (e, Inr _) \<Rightarrow> Some (e, Inr ()))"

definition Stop :: "('d, 'k, 'x, 'q) executor_env \<Rightarrow> ('d, 'k, 'x, 'q) Executor \<Rightarrow> ('d, 'k, 'x, 'q) Executor" where
  "Stop V e =
     (if x_hasPendingBlock e then e else e\<lparr>x_store := fst (deletePendingBlock (xe_store V) (x_store e))\<rparr>)"

section \<open>Producing blocks\<close>

text \<open>Go returns the batch and the error side by side; \<open>ErrNoTransactionsInBatch\<close> comes with a batch.\<close>

datatype retrieve_error = NoBatch | NoTransactionsInBatch | SequencerError seq_error

definition RetrieveBatch :: "('d, 'k, 'x, 'q) executor_env \<Rightarrow> ('d, 'k, 'x, 'q) Executor \<Rightarrow>
    (('d, 'k, 'x, 'q) Executor \<times> BatchData option \<times> retrieve_error option) option" where
  "RetrieveBatch V e =
     (let req = \<lparr>rq_Id = map of_char (g_ChainID (xe_genesis V)), rq_LastBatchData = [],
                 rq_MaxBytes = xe_DefaultMaxBlobSize V\<rparr> in
      case sqi_GetNextBatch (xe_sequencer V) (x_sequencer e) req of
        None \<Rightarrow> None
      | Some (q, Inl err) \<Rightarrow>
          Some (e\<lparr>x_sequencer := q\<rparr>, None, Some (if err = Sequencers.ErrNoBatch then NoBatch else SequencerError err))
      | Some (q, Inr None) \<Rightarrow> Some (e\<lparr>x_sequencer := q\<rparr>, None, Some NoBatch)
      | Some (q, Inr (Some res)) \<Rightarrow>
          Some (e\<lparr>x_sequencer := q\<rparr>,
                Some \<lparr>bd_Transactions = rs_Batch res, bd_Time = rs_Timestamp res, bd_Data = rs_BatchData res\<rparr>,
                if rs_Batch res = [] then Some NoTransactionsInBatch else None))"

definition DataHashForEmptyTxs :: bytes where
  "DataHashForEmptyTxs = [110, 52, 11, 156, 255, 179, 122, 152, 156, 165, 68, 230, 187, 120, 10, 44, 120, 144, 29, 63,
     179, 55, 56, 118, 133, 17, 163, 6, 23, 175, 160, 29]"

text \<open>The hash of the last header, the hash of its data and its signature, from the cache or the store.\<close>

definition lastBlock :: "('d, 'k, 'x, 'q) executor_env \<Rightarrow> ('d, 'k, 'x, 'q) Executor \<Rightarrow> u64 \<Rightarrow> executor_error + lastBlockInfo" where
  "lastBlock V e height =
     (case x_lastBlockInfo e of
        Some info \<Rightarrow> Inr info
      | None \<Rightarrow>
          let E = xe_store V; d = x_store e in
          (case GetBlockData E d (height - 1) of
             Inl err \<Rightarrow> Inl (ErrLastBlock err)
           | Inr (lastHeader, lastData) \<Rightarrow>
           (case GetSignature E d (height - 1) of
             Inl err \<Rightarrow> Inl (ErrLastSignature err)
           | Inr sig \<Rightarrow>
               Inr \<lparr>li_headerHash = Header_Hash (s_crypto E) (s_codec E) (s_wire E) (sh_Header lastHeader),
                    li_dataHash = Data_Hash (s_crypto E) (s_codec E) lastData, li_signature = sig\<rparr>)))"

text \<open>The public key of the signer, when there is one, and the validator hash.\<close>

definition proposerKey :: "('d, 'k, 'x, 'q) executor_env \<Rightarrow> bytes \<Rightarrow> executor_error + 'k option \<times> bytes" where
  "proposerKey V proposerAddress =
     (case xe_signer V of
        None \<Rightarrow>
          (case xe_ValidatorHasher V proposerAddress None of
             Inl err \<Rightarrow> Inl (ErrValidatorHash err) | Inr validatorHash \<Rightarrow> Inr (None, validatorHash))
      | Some s \<Rightarrow>
          (case sn_GetPublic s of
             Inl err \<Rightarrow> Inl (ErrPublicKey err)
           | Inr pubKey \<Rightarrow>
           (case sn_GetAddress s of
             Inl err \<Rightarrow> Inl (ErrSignerAddress err)
           | Inr addr \<Rightarrow>
               if addr \<noteq> proposerAddress then Inl ErrNotProposer
               else (case xe_ValidatorHasher V proposerAddress (Some pubKey) of
                       Inl err \<Rightarrow> Inl (ErrValidatorHash err)
                     | Inr validatorHash \<Rightarrow> Inr (Some pubKey, validatorHash)))))"

definition newBlock :: "('d, 'k, 'x, 'q) executor_env \<Rightarrow> State \<Rightarrow> u64 \<Rightarrow> u64 \<Rightarrow> bytes \<Rightarrow> lastBlockInfo \<Rightarrow> 'k option \<Rightarrow> bytes \<Rightarrow>
    bytes list \<Rightarrow> 'k SignedHeader \<times> Data" where
  "newBlock V currentState height headerTime proposerAddress info pubKey validatorHash txs =
     (let g = xe_genesis V;
          data = \<lparr>d_Metadata = Some \<lparr>md_ChainID = g_ChainID g, md_Height = height, md_Time = headerTime,
                                      md_LastDataHash = li_dataHash info\<rparr>,
                  d_Txs = txs\<rparr>;
          header = \<lparr>h_BaseHeader = \<lparr>bh_Height = height, bh_Time = headerTime, bh_ChainID = g_ChainID g\<rparr>,
                    h_Version = st_Version currentState, h_LastHeaderHash = li_headerHash info,
                    h_DataHash = (if txs = [] then DataHashForEmptyTxs
                                  else DACommitment (s_crypto (xe_store V)) (s_codec (xe_store V)) data),
                    h_AppHash = st_AppHash currentState, h_ValidatorHash = validatorHash,
                    h_ProposerAddress = proposerAddress, h_Legacy = None, h_cachedHash = None\<rparr>
      in (\<lparr>sh_Header = header, sh_Signature = li_signature info,
           sh_Signer = \<lparr>sg_PubKey = pubKey, sg_Address = proposerAddress, sg_marshalledPubKey = []\<rparr>,
           sh_aggregatorProvider = None, sh_syncNodeProvider = None\<rparr>, data))"

definition CreateBlock :: "('d, 'k, 'x, 'q) executor_env \<Rightarrow> ('d, 'k, 'x, 'q) Executor \<Rightarrow> u64 \<Rightarrow> BatchData \<Rightarrow>
    executor_error + 'k SignedHeader \<times> Data" where
  "CreateBlock V e height batchData =
     (let currentState = getLastState e; g = xe_genesis V;
          proposerAddress = (if st_NextProposerAddress currentState = [] then obytes (g_ProposerAddress g)
                             else st_NextProposerAddress currentState) in
      bindE (if g_InitialHeight g < height
             then bindE (lastBlock V e height) (\<lambda>info. Inr (word_of_int (bd_Time batchData), info))
             else Inr (word_of_int (g_StartTime g), \<lparr>li_headerHash = [], li_dataHash = [], li_signature = []\<rparr>))
        (\<lambda>(headerTime, info).
      bindE (proposerKey V proposerAddress) (\<lambda>(pubKey, validatorHash).
        Inr (newBlock V currentState height headerTime proposerAddress info pubKey validatorHash
               (bd_Transactions batchData)))))"

definition MaxRetriesBeforeHalt :: nat where
  "MaxRetriesBeforeHalt = 3"

text \<open>The attempts from \<open>attempt\<close> on, \<open>n\<close> of them left; \<open>w_stopped\<close> says whether the executor is stopped in the wait
  after an attempt.\<close>

fun executeTxs_attempts :: "'x exec_layer \<Rightarrow> (nat \<Rightarrow> bool) \<Rightarrow> 'x \<Rightarrow> bytes list \<Rightarrow> Header \<Rightarrow> State \<Rightarrow> nat \<Rightarrow> nat \<Rightarrow>
    'x \<times> (executor_error + ExecuteResult)" where
  "executeTxs_attempts X stopped x rawTxs h currentState attempt 0 =
     (x, Inr \<lparr>er_UpdatedStateRoot = [], er_NextProposerAddress = []\<rparr>)"
| "executeTxs_attempts X stopped x rawTxs h currentState attempt (Suc n) =
     (case el_ExecuteTxs X x rawTxs (Header_Height h) (Header_Time h) (st_AppHash currentState) of
        (x, Inr result) \<Rightarrow> (x, Inr result)
      | (x, Inl err) \<Rightarrow>
          if attempt = MaxRetriesBeforeHalt then (x, Inl (ErrExecute err))
          else if stopped attempt then (x, Inl ErrRetryCancelled)
          else executeTxs_attempts X stopped x rawTxs h currentState (attempt + 1) n)"

definition executeTxsWithRetry :: "'x exec_layer \<Rightarrow> (nat \<Rightarrow> bool) \<Rightarrow> 'x \<Rightarrow> bytes list \<Rightarrow> Header \<Rightarrow> State \<Rightarrow>
    'x \<times> (executor_error + ExecuteResult)" where
  "executeTxsWithRetry X stopped x rawTxs h currentState =
     executeTxs_attempts X stopped x rawTxs h currentState 1 MaxRetriesBeforeHalt"

definition ApplyBlock :: "('d, 'k, 'x, 'q) executor_env \<Rightarrow> surroundings \<Rightarrow> ('d, 'k, 'x, 'q) Executor \<Rightarrow> Header \<Rightarrow> Data \<Rightarrow>
    (('d, 'k, 'x, 'q) Executor, executor_error, State) outcome" where
  "ApplyBlock V w e h data =
     (let currentState = getLastState e; E = xe_store V in
      case executeTxsWithRetry (xe_exec V) (w_stopped w) (x_exec e) (d_Txs data) h currentState of
        (x, Inl err) \<Rightarrow> critical (e\<lparr>x_exec := x\<rparr>) err
      | (x, Inr result) \<Rightarrow>
          Some (e\<lparr>x_exec := x\<rparr>,
                Inr (NextState (s_crypto E) (s_codec E) (s_wire E) currentState h (er_UpdatedStateRoot result)
                       (er_NextProposerAddress result))))"

definition signHeader :: "('d, 'k, 'x, 'q) executor_env \<Rightarrow> ('d, 'k, 'x, 'q) Executor \<Rightarrow> Header \<Rightarrow>
    (('d, 'k, 'x, 'q) Executor, executor_error, bytes) outcome" where
  "signHeader V e h =
     (case xe_signer V of
        None \<Rightarrow> Some (e, Inr [])
      | Some s \<Rightarrow>
          (case xe_SignatureBytes V h of
             Inl err \<Rightarrow> Some (e, Inl (ErrSignaturePayload err))
           | Inr bz \<Rightarrow>
               let e = e\<lparr>x_signed := x_signed e @ [bz]\<rparr> in
               (case sn_Sign s bz of
                  Inl err \<Rightarrow> Some (e, Inl (ErrSign err))
                | Inr sig \<Rightarrow> Some (e, Inr sig))))"

text \<open>\<open>ProduceBlock\<close> in its steps: the checks before a block, the block itself, and what is done with it.\<close>

definition HasQuorum :: "surroundings \<Rightarrow> nat \<Rightarrow> bool" where
  "HasQuorum w n = (case w_raft w of None \<Rightarrow> True | Some r \<Rightarrow> rn_HasQuorum r n)"

definition retryAck :: "('d, 'k, 'x, 'q) executor_env \<Rightarrow> ('d, 'k, 'x, 'q) Executor \<Rightarrow>
    (('d, 'k, 'x, 'q) Executor, executor_error, unit) outcome" where
  "retryAck V e =
     (if x_pendingBatchAck e
      then (case ackCommittedBatch V e of (e, err) \<Rightarrow> failing e (map_option ErrAckPrevious err))
      else Some (e, Inr ()))"

definition pendingCheckInterval :: u64 where
  "pendingCheckInterval = 64"

definition pendingLimitReached :: "('d, 'k, 'x, 'q) executor_env \<Rightarrow> surroundings \<Rightarrow> ('d, 'k, 'x, 'q) Executor \<Rightarrow>
    ('d, 'k, 'x, 'q) Executor \<times> bool" where
  "pendingLimitReached V w e =
     (let limit = xe_MaxPendingHeadersAndData V in
      if 0 < limit
      then let e = e\<lparr>x_pendingCheckCounter := x_pendingCheckCounter e + 1\<rparr>;
               shouldCheck = (limit \<le> pendingCheckInterval \<or> x_pendingCheckCounter e mod pendingCheckInterval = 0)
           in (e, shouldCheck \<and> (limit \<le> w_NumPendingHeaders w \<or> limit \<le> w_NumPendingData w))
      else (e, False))"

text \<open>The stored pending block of the new height, looked up only when the flag is set.\<close>

definition pendingBlockAt :: "('d, 'k, 'x, 'q) executor_env \<Rightarrow> ('d, 'k, 'x, 'q) Executor \<Rightarrow> u64 \<Rightarrow>
    executor_error + ('k SignedHeader \<times> Data) option" where
  "pendingBlockAt V e newHeight =
     (if \<not> x_hasPendingBlock e then Inr None
      else case getPendingBlock (xe_store V) (x_store e) of
        Inl err \<Rightarrow> Inl err
      | Inr None \<Rightarrow> Inr None
      | Inr (Some (header, data)) \<Rightarrow>
          Inr (if Header_Height (sh_Header header) = newHeight then Some (header, data) else None))"

text \<open>The block to produce, \<open>None\<close> when the sequencer has no batch.\<close>

definition nextBlock :: "('d, 'k, 'x, 'q) executor_env \<Rightarrow> ('d, 'k, 'x, 'q) Executor \<Rightarrow> u64 \<Rightarrow>
    (('d, 'k, 'x, 'q) Executor, executor_error, ('k SignedHeader \<times> Data) option) outcome" where
  "nextBlock V e newHeight =
     (case pendingBlockAt V e newHeight of
        Inl err \<Rightarrow> Some (e, Inl err)
      | Inr (Some block) \<Rightarrow> Some (e, Inr (Some block))
      | Inr None \<Rightarrow>
      (case RetrieveBatch V e of
        None \<Rightarrow> None
      | Some (e, _, Some NoBatch) \<Rightarrow> Some (e, Inr None)
      | Some (e, _, Some (SequencerError err)) \<Rightarrow> Some (e, Inl (ErrRetrieve err))
      | Some (e, None, _) \<Rightarrow> Some (e, Inl PanicNilBatch)
      | Some (e, Some batchData, _) \<Rightarrow>
      (case CreateBlock V e newHeight batchData of
        Inl err \<Rightarrow> Some (e, Inl err)
      | Inr (header, data) \<Rightarrow>
          bindS (on_store e (\<lambda>d. savePendingBlock (xe_store V) d header data)) (\<lambda>e _.
            Some (e, Inr (Some (header, data)))))))"

definition blockBatch :: "('d, 'k) store_env \<Rightarrow> 'd \<Rightarrow> 'k SignedHeader \<Rightarrow> Data \<Rightarrow> bytes \<Rightarrow> u64 \<Rightarrow> State \<Rightarrow> store_error + ds_op list" where
  "blockBatch E d header data sig newHeight newState =
     bindE (NewBatch E d) (\<lambda>ops.
     bindE (SaveBlockData E d ops header data sig) (\<lambda>ops.
     bindE (SetHeight E d ops newHeight) (\<lambda>ops.
     UpdateState E d ops newState)))"

definition proposeToRaft :: "('d, 'k) store_env \<Rightarrow> surroundings \<Rightarrow> 'k SignedHeader \<Rightarrow> Data \<Rightarrow> u64 \<Rightarrow> executor_error option" where
  "proposeToRaft E w header data newHeight =
     (case w_raft w of
        None \<Rightarrow> None
      | Some r \<Rightarrow>
      (case SignedHeader_MarshalBinary (s_crypto E) (s_codec E) (s_wire E) header of
        Inl err \<Rightarrow> Some (ErrRaftMarshal err)
      | Inr headerBytes \<Rightarrow>
      (case Data_MarshalBinary (s_codec E) data of
        None \<Rightarrow> Some (ErrRaftMarshal ErrMarshal)
      | Some dataBytes \<Rightarrow>
          map_option ErrRaftBroadcast (rn_Broadcast r
            \<lparr>rb_Height = newHeight, rb_Hash = Header_Hash (s_crypto E) (s_codec E) (s_wire E) (sh_Header header),
             rb_Timestamp = bh_Time (h_BaseHeader (sh_Header header)), rb_Header = headerBytes, rb_Data = dataBytes,
             rb_LastSubmittedDaHeaderHeight = w_LastSubmittedHeaderHeight w,
             rb_LastSubmittedDaDataHeight = w_LastSubmittedDataHeight w\<rparr>))))"

text \<open>After the commit: the state in memory, the ack of the batch, the cache and the broadcast, header first.\<close>

definition afterCommit :: "('d, 'k, 'x, 'q) executor_env \<Rightarrow> ('d, 'k, 'x, 'q) Executor \<Rightarrow> 'k SignedHeader \<Rightarrow> Data \<Rightarrow> bytes \<Rightarrow> State \<Rightarrow>
    ('d, 'k, 'x, 'q) Executor" where
  "afterCommit V e header data sig newState =
     (let e = e\<lparr>x_hasPendingBlock := False, x_lastState := Some newState\<rparr>;
          e = fst (ackCommittedBatch V e)
      in e\<lparr>x_lastBlockInfo := Some \<lparr>li_headerHash = st_LastHeaderHash newState,
             li_dataHash = Data_Hash (s_crypto (xe_store V)) (s_codec (xe_store V)) data, li_signature = sig\<rparr>,
           x_broadcast := x_broadcast e @
             [GossipHeader \<lparr>ph_SignedHeader = header, ph_DAHeightHint = 0\<rparr>,
              GossipData \<lparr>pd_Data = data, pd_DAHeightHint = 0\<rparr>]\<rparr>)"

definition validateAndCommit :: "('d, 'k, 'x, 'q) executor_env \<Rightarrow> surroundings \<Rightarrow> ('d, 'k, 'x, 'q) Executor \<Rightarrow> 'k SignedHeader \<Rightarrow>
    Data \<Rightarrow> bytes \<Rightarrow> State \<Rightarrow> u64 \<Rightarrow> (('d, 'k, 'x, 'q) Executor, executor_error, unit) outcome" where
  "validateAndCommit V w e header data sig newState newHeight =
     (let E = xe_store V in
      case AssertValidSequence (x_tracking e) (getLastState e) header of
        (lt, Some err) \<Rightarrow> critical (e\<lparr>x_tracking := lt\<rparr>) (ErrValidateBlock err)
      | (lt, None) \<Rightarrow>
      (let e = e\<lparr>x_tracking := lt\<rparr> in
      case blockBatch E (x_store e) header data sig newHeight newState of
        Inl err \<Rightarrow> Some (e, Inl (ErrSaveBlock err))
      | Inr ops \<Rightarrow>
      (case proposeToRaft E w header data newHeight of
        Some err \<Rightarrow> Some (e, Inl err)
      | None \<Rightarrow>
      (case Commit E (x_store e) ops of
        (d, Some err) \<Rightarrow> Some (e\<lparr>x_store := d\<rparr>, Inl (ErrCommitBlock err))
      | (d, None) \<Rightarrow>
          let e = afterCommit V (e\<lparr>x_store := d\<rparr>) header data sig newState in
          if xe_BasedSequencer V then finalize V e newHeight else Some (e, Inr ())))))"

definition finishBlock :: "('d, 'k, 'x, 'q) executor_env \<Rightarrow> surroundings \<Rightarrow> ('d, 'k, 'x, 'q) Executor \<Rightarrow> u64 \<Rightarrow> 'k SignedHeader \<Rightarrow>
    Data \<Rightarrow> (('d, 'k, 'x, 'q) Executor, executor_error, unit) outcome" where
  "finishBlock V w e newHeight header data =
     (if \<not> HasQuorum w 1 then Some (e, Inl ErrNoQuorum)
      else bindS (ApplyBlock V w e (sh_Header header) data) (\<lambda>e newState.
           let newState = newState\<lparr>st_DAHeight := sqi_GetDAHeight (xe_sequencer V) (x_sequencer e)\<rparr> in
           bindS (signHeader V e (sh_Header header)) (\<lambda>e sig.
             validateAndCommit V w e (header\<lparr>sh_Signature := sig\<rparr>) data sig newState newHeight)))"

definition ProduceBlock :: "('d, 'k, 'x, 'q) executor_env \<Rightarrow> surroundings \<Rightarrow> ('d, 'k, 'x, 'q) Executor \<Rightarrow>
    (('d, 'k, 'x, 'q) Executor, executor_error, unit) outcome" where
  "ProduceBlock V w e =
     (if w_ctxErr w then Some (e, Inl ErrContext)
      else if \<not> HasQuorum w 0 then Some (e, Inl ErrNoQuorum)
      else bindS (retryAck V e) (\<lambda>e _.
        let newHeight = st_LastBlockHeight (getLastState e) + 1 in
        case pendingLimitReached V w e of
          (e, True) \<Rightarrow> Some (e, Inr ())
        | (e, False) \<Rightarrow>
            bindS (nextBlock V e newHeight) (\<lambda>e block.
              case block of
                None \<Rightarrow> Some (e, Inr ())
              | Some (header, data) \<Rightarrow> finishBlock V w e newHeight header data)))"

section \<open>The execution loop\<close>

text \<open>The loop of the executor on the events its \<open>select\<close> receives: a tick of a timer comes with the surroundings of
  the block production it starts. A failed production is logged and the loop goes on.\<close>

datatype loop_event = BlockTimer surroundings | LazyTimer surroundings | TxNotify

definition startDelay :: "('d, 'k, 'x, 'q) executor_env \<Rightarrow> instant \<Rightarrow> State \<Rightarrow> int" where
  "startDelay V now currentState =
     (if st_LastBlockHeight currentState < g_InitialHeight (xe_genesis V)
      then g_StartTime (xe_genesis V) + xe_BlockTime V - now
      else st_LastBlockTime currentState + xe_BlockTime V - now)"

definition blockTimerReset :: "('d, 'k, 'x, 'q) executor_env \<Rightarrow> int \<Rightarrow> int" where
  "blockTimerReset V elapsed = max (xe_BlockTime V - elapsed) 0"

definition loopStep :: "('d, 'k, 'x, 'q) executor_env \<Rightarrow> ('d, 'k, 'x, 'q) Executor \<times> bool \<Rightarrow> loop_event \<Rightarrow>
    (('d, 'k, 'x, 'q) Executor \<times> bool) option" where
  "loopStep V s ev =
     (let (e, txsAvailable) = s in
      case ev of
        BlockTimer w \<Rightarrow>
          if xe_LazyMode V \<and> \<not> txsAvailable then Some (e, txsAvailable)
          else map_option (\<lambda>r. (fst r, False)) (ProduceBlock V w e)
      | LazyTimer w \<Rightarrow> map_option (\<lambda>r. (fst r, txsAvailable)) (ProduceBlock V w e)
      | TxNotify \<Rightarrow> Some (e\<lparr>x_txNotify := False\<rparr>, True))"

fun executionLoop :: "('d, 'k, 'x, 'q) executor_env \<Rightarrow> ('d, 'k, 'x, 'q) Executor \<times> bool \<Rightarrow> loop_event list \<Rightarrow>
    (('d, 'k, 'x, 'q) Executor \<times> bool) option" where
  "executionLoop V s [] = Some s"
| "executionLoop V s (ev # evs) = (case loopStep V s ev of None \<Rightarrow> None | Some s \<Rightarrow> executionLoop V s evs)"

section \<open>Raft\<close>

definition IsSyncedWithRaft :: "('d, 'k, 'x, 'q) executor_env \<Rightarrow> ('d, 'k, 'x, 'q) Executor \<Rightarrow> RaftBlockState \<Rightarrow> executor_error + int" where
  "IsSyncedWithRaft V e raftState =
     (case GetState (xe_store V) (x_store e) of
        Inl err \<Rightarrow> Inl (ErrStateAfterSync err)
      | Inr state \<Rightarrow>
          let diff = sint (st_LastBlockHeight state - rb_Height raftState) in
          if diff \<noteq> 0 then Inr diff
          else if rb_Height raftState = 0 then Inr 0
          else case checkRaftHash (xe_store V) (x_store e) (rb_Height raftState) raftState of
                 Some err \<Rightarrow> Inl err
               | None \<Rightarrow> Inr 0)"

end
