(* ===== verification/Executor_Laws.thy ===== *)
theory Executor_Laws
  imports Executor Store_Laws
begin

text \<open>
  The invariant of the block producer. \<open>chain\<close> says that the store holds, for every height up to the last one, a block
  that \<open>extends\<close> the state stored for the height before it and the state after it; \<open>producer_inv\<close> adds what the
  executor keeps in memory and the pending block. It is proved for every result of \<open>ProduceBlock\<close>: the datastore, the
  execution layer, the sequencer, the signer and raft may fail at any call.
\<close>

section \<open>Chains in the store\<close>

definition stored_state :: "('d, 'k) store_env \<Rightarrow> (string \<rightharpoonup> bytes) \<Rightarrow> u64 \<Rightarrow> State \<Rightarrow> bool" where
  "stored_state E m h st \<longleftrightarrow>
     (\<exists>b. State_MarshalBinary (s_codec E) st = Some b \<and> m (getStateAtHeightKey h) = Some b)"

text \<open>The header and data a reader of the store finds at a height.\<close>

definition decoded :: "('d, 'k) store_env \<Rightarrow> bytes \<Rightarrow> bytes \<Rightarrow> 'k SignedHeader \<Rightarrow> Data \<Rightarrow> bool" where
  "decoded E hb db sh data \<longleftrightarrow>
     SignedHeader_UnmarshalBinary (s_crypto E) (s_codec E) (s_wire E) newSignedHeader hb = Inr sh \<and>
     Data_UnmarshalBinary (s_codec E) db = Inr data"

definition stored_block :: "('d, 'k) store_env \<Rightarrow> (string \<rightharpoonup> bytes) \<Rightarrow> u64 \<Rightarrow> Header \<Rightarrow> Data \<Rightarrow> bool" where
  "stored_block E m h hdr data \<longleftrightarrow>
     (\<exists>hb db sig sh. blocks_of m h = Some (hb, db, sig) \<and> decoded E hb db sh data \<and> sh_Header sh = hdr)"

definition proposer_of :: "Genesis \<Rightarrow> State \<Rightarrow> bytes" where
  "proposer_of g S = (if st_NextProposerAddress S = [] then obytes (g_ProposerAddress g) else st_NextProposerAddress S)"

text \<open>The block of \<open>hdr\<close> and \<open>data\<close> continues the chain of the store \<open>m\<close> from the state \<open>S\<close>: it carries the chain's
  id, the next height, the root \<open>S\<close> has, the expected proposer and the commitment to its transactions, its metadata
  repeat the header, and after the first block it links to the stored header and data of the height before.\<close>

definition extends :: "('d, 'k) store_env \<Rightarrow> Genesis \<Rightarrow> (string \<rightharpoonup> bytes) \<Rightarrow> State \<Rightarrow> Header \<Rightarrow> Data \<Rightarrow> bool" where
  "extends E g m S hdr data \<longleftrightarrow>
     Header_ChainID hdr = g_ChainID g \<and> Header_Height hdr = st_LastBlockHeight S + 1 \<and> h_AppHash hdr = st_AppHash S \<and>
     h_ProposerAddress hdr = proposer_of g S \<and>
     h_DataHash hdr = (if d_Txs data = [] then DataHashForEmptyTxs else DACommitment (s_crypto E) (s_codec E) data) \<and>
     (\<exists>dh. d_Metadata data = Some \<lparr>md_ChainID = g_ChainID g, md_Height = st_LastBlockHeight S + 1,
                                   md_Time = bh_Time (h_BaseHeader hdr), md_LastDataHash = dh\<rparr> \<and>
        (if g_InitialHeight g < st_LastBlockHeight S + 1
         then \<exists>phd pdata. stored_block E m (st_LastBlockHeight S) phd pdata \<and>
                h_LastHeaderHash hdr = Header_Hash (s_crypto E) (s_codec E) (s_wire E) phd \<and>
                dh = Data_Hash (s_crypto E) (s_codec E) pdata
         else h_LastHeaderHash hdr = [] \<and> dh = []))"

text \<open>The state after a block.\<close>

definition state_after :: "('d, 'k) store_env \<Rightarrow> State \<Rightarrow> Header \<Rightarrow> State \<Rightarrow> bool" where
  "state_after E S hdr st \<longleftrightarrow>
     st_ChainID st = st_ChainID S \<and> st_LastBlockHeight st = Header_Height hdr \<and> st_LastBlockTime st = Header_Time hdr \<and>
     st_LastHeaderHash st = Header_Hash (s_crypto E) (s_codec E) (s_wire E) hdr \<and>
     (st_LastHeaderHash S \<noteq> [] \<longrightarrow> st_LastBlockTime S \<le> Header_Time hdr)"

definition chain :: "('d, 'k) store_env \<Rightarrow> Genesis \<Rightarrow> (string \<rightharpoonup> bytes) \<Rightarrow> u64 \<Rightarrow> bool" where
  "chain E g m n \<longleftrightarrow>
     (\<forall>h. g_InitialHeight g \<le> h \<and> h \<le> n \<longrightarrow>
        (\<exists>S hdr data st. stored_state E m (h - 1) S \<and> st_LastBlockHeight S = h - 1 \<and> stored_block E m h hdr data \<and>
           extends E g m S hdr data \<and> stored_state E m h st \<and> state_after E S hdr st))"

section \<open>The invariant\<close>

text \<open>Headers the executor makes have no legacy fields and no cached hash, their signer has the encoding of its key or
  none.\<close>

definition plain :: "'k crypto \<Rightarrow> 'k SignedHeader \<Rightarrow> bool" where
  "plain C sh \<longleftrightarrow> h_Legacy (sh_Header sh) = None \<and> h_cachedHash (sh_Header sh) = None \<and>
     (sg_marshalledPubKey (sh_Signer sh) = [] \<or>
      (\<exists>k. sg_PubKey (sh_Signer sh) = Some k \<and> c_MarshalPublicKey C k = Some (sg_marshalledPubKey (sh_Signer sh))))"

definition pending_in :: "('d, 'k) store_env \<Rightarrow> (string \<rightharpoonup> bytes) \<Rightarrow> 'k SignedHeader \<Rightarrow> Data \<Rightarrow> bool" where
  "pending_in E m sh data \<longleftrightarrow>
     (\<exists>hb db. m (GetMetaKey headerKey) = Some hb \<and> m (GetMetaKey dataKey) = Some db \<and> decoded E hb db sh data)"

definition info_ok :: "('d, 'k) store_env \<Rightarrow> Genesis \<Rightarrow> (string \<rightharpoonup> bytes) \<Rightarrow> State \<Rightarrow> lastBlockInfo option \<Rightarrow> bool" where
  "info_ok E g m S info \<longleftrightarrow>
     (case info of None \<Rightarrow> True
      | Some i \<Rightarrow> g_InitialHeight g < st_LastBlockHeight S + 1 \<longrightarrow>
          (\<exists>phd pdata. stored_block E m (st_LastBlockHeight S) phd pdata \<and>
             li_headerHash i = Header_Hash (s_crypto E) (s_codec E) (s_wire E) phd \<and>
             li_dataHash i = Data_Hash (s_crypto E) (s_codec E) pdata))"

definition pending_ok :: "('d, 'k) store_env \<Rightarrow> Genesis \<Rightarrow> (string \<rightharpoonup> bytes) \<Rightarrow> State \<Rightarrow> bool" where
  "pending_ok E g m S \<longleftrightarrow>
     (\<forall>sh data. pending_in E m sh data \<and> Header_Height (sh_Header sh) = st_LastBlockHeight S + 1 \<longrightarrow>
        extends E g m S (sh_Header sh) data \<and> plain (s_crypto E) sh)"

definition chain_inv :: "('d, 'k) store_env \<Rightarrow> Genesis \<Rightarrow> (string \<rightharpoonup> bytes) \<Rightarrow> State option \<Rightarrow> lastBlockInfo option \<Rightarrow> bool" where
  "chain_inv E g m lastState info \<longleftrightarrow>
     (\<exists>S. lastState = Some S \<and> height_of m = st_LastBlockHeight S \<and> stored_state E m (st_LastBlockHeight S) S \<and>
        g_InitialHeight g - 1 \<le> st_LastBlockHeight S \<and> chain E g m (st_LastBlockHeight S) \<and> info_ok E g m S info \<and>
        pending_ok E g m S)"

definition producer_inv :: "('d, 'k, 'x, 'q) executor_env \<Rightarrow> ('d \<Rightarrow> (string \<rightharpoonup> bytes)) \<Rightarrow> ('d, 'k, 'x, 'q) Executor \<Rightarrow> bool" where
  "producer_inv V view e \<longleftrightarrow> chain_inv (xe_store V) (xe_genesis V) (view (x_store e)) (x_lastState e) (x_lastBlockInfo e)"

text \<open>Only the store, the state and the last block matter.\<close>

definition core :: "('d, 'k, 'x, 'q) Executor \<Rightarrow> 'd \<times> State option \<times> lastBlockInfo option" where
  "core e = (x_store e, x_lastState e, x_lastBlockInfo e)"

text \<open>What one call may change: nothing of the chain but its end, by at most one block.\<close>

definition advances :: "('d, 'k, 'x, 'q) executor_env \<Rightarrow> ('d \<Rightarrow> (string \<rightharpoonup> bytes)) \<Rightarrow> ('d, 'k, 'x, 'q) Executor \<Rightarrow> ('d, 'k, 'x, 'q) Executor \<Rightarrow> bool" where
  "advances V view e e' \<longleftrightarrow> producer_inv V view e' \<and>
     (\<forall>h \<le> st_LastBlockHeight (getLastState e). blocks_of (view (x_store e')) h = blocks_of (view (x_store e)) h) \<and>
     (getLastState e' = getLastState e \<or> st_LastBlockHeight (getLastState e') = st_LastBlockHeight (getLastState e) + 1)"

lemma producer_inv_core: "core e' = core e \<Longrightarrow> producer_inv V view e' = producer_inv V view e"
  by (simp add: core_def producer_inv_def)

lemma ackCommittedBatch_core: "core (fst (ackCommittedBatch V e)) = core e"
  by (auto simp: ackCommittedBatch_def core_def split: option.splits prod.splits)

lemma failing_Some: "failing e err = Some (e', r) \<Longrightarrow> e' = e"
  by (auto simp: failing_def split: option.splits)

lemma retryAck_core: "retryAck V e = Some (e', r) \<Longrightarrow> core e' = core e"
  using ackCommittedBatch_core [of V e]
  by (auto simp: retryAck_def dest!: failing_Some split: if_splits prod.splits)

lemma pendingLimitReached_core: "pendingLimitReached V w e = (e', b) \<Longrightarrow> core e' = core e"
  by (auto simp: pendingLimitReached_def core_def Let_def split: if_splits)

lemma RetrieveBatch_core: "RetrieveBatch V e = Some (e', r) \<Longrightarrow> core e' = core e"
  by (auto simp: RetrieveBatch_def core_def Let_def split: option.splits prod.splits sum.splits)

lemma ApplyBlock_core:
  "ApplyBlock V w e hdr data = Some (e', r) \<Longrightarrow> core e' = core e \<and> x_tracking e' = x_tracking e"
  by (auto simp: ApplyBlock_def core_def critical_def sendCriticalError_def Let_def split: prod.splits sum.splits)

lemma ApplyBlock_state:
  assumes "ApplyBlock V w e hdr data = Some (e', Inr st)" and "x_lastState e = Some S"
  obtains root nxt where "st = NextState (s_crypto (xe_store V)) (s_codec (xe_store V)) (s_wire (xe_store V)) S hdr root nxt"
  using assms
  by (simp add: ApplyBlock_def Let_def critical_def getLastState_def split: prod.splits sum.splits) blast

lemma signHeader_core: "signHeader V e hdr = Some (e', r) \<Longrightarrow> core e' = core e \<and> x_tracking e' = x_tracking e"
  by (auto simp: signHeader_def core_def Let_def split: option.splits sum.splits)

lemma finalize_core: "finalize V e n = Some (e', r) \<Longrightarrow> core e' = core e"
  by (auto simp: finalize_def core_def critical_def sendCriticalError_def split: prod.splits option.splits)

lemma afterCommit_core:
  "core (afterCommit V e sh data sig S) = (x_store e, Some S, Some \<lparr>li_headerHash = st_LastHeaderHash S,
     li_dataHash = Data_Hash (s_crypto (xe_store V)) (s_codec (xe_store V)) data, li_signature = sig\<rparr>)"
  using ackCommittedBatch_core [of V "e\<lparr>x_hasPendingBlock := False, x_lastState := Some S\<rparr>"]
  by (simp add: afterCommit_def core_def Let_def)

lemma getLastState_core: "core e' = core e \<Longrightarrow> getLastState e' = getLastState e"
  by (simp add: core_def getLastState_def)

lemma decoded_unique: "decoded E hb db sh data \<Longrightarrow> decoded E hb db sh' data' \<Longrightarrow> sh' = sh \<and> data' = data"
  by (simp add: decoded_def)

lemma stored_block_unique: "stored_block E m h hdr data \<Longrightarrow> stored_block E m h hdr' data' \<Longrightarrow> hdr' = hdr \<and> data' = data"
  by (auto simp: stored_block_def dest: decoded_unique)

lemma stored_block_cong: "blocks_of m' h = blocks_of m h \<Longrightarrow> stored_block E m' h = stored_block E m h"
  by (simp add: stored_block_def fun_eq_iff)

lemma extends_cong:
  "blocks_of m' (st_LastBlockHeight S) = blocks_of m (st_LastBlockHeight S) \<Longrightarrow> extends E g m' S = extends E g m S"
  by (simp add: extends_def fun_eq_iff stored_block_cong [of m' "st_LastBlockHeight S" m])

lemma info_ok_cong:
  "blocks_of m' (st_LastBlockHeight S) = blocks_of m (st_LastBlockHeight S) \<Longrightarrow> info_ok E g m' S info = info_ok E g m S info"
  by (simp add: info_ok_def stored_block_cong [of m' "st_LastBlockHeight S" m] split: option.split)

lemma stored_state_cong: "m' (getStateAtHeightKey h) = m (getStateAtHeightKey h) \<Longrightarrow> stored_state E m' h = stored_state E m h"
  by (simp add: stored_state_def fun_eq_iff)

lemma chain_cong:
  assumes "\<And>h. h \<le> n \<Longrightarrow> blocks_of m' h = blocks_of m h"
    and "\<And>h. h \<le> n \<Longrightarrow> m' (getStateAtHeightKey h) = m (getStateAtHeightKey h)" and "0 < g_InitialHeight g"
  shows "chain E g m' n = chain E g m n"
proof -
  have le: "h - 1 \<le> n" if "g_InitialHeight g \<le> h" "h \<le> n" for h
    using that assms(3) unat_sub_no_wrap [of 1 h] by (simp add: u64_order)
  have "stored_state E m' (h - 1) = stored_state E m (h - 1)" "stored_block E m' h = stored_block E m h"
    "stored_state E m' h = stored_state E m h" "st_LastBlockHeight S = h - 1 \<Longrightarrow> extends E g m' S = extends E g m S"
    if h: "g_InitialHeight g \<le> h \<and> h \<le> n" for h S
    using h by (auto intro!: stored_state_cong stored_block_cong extends_cong assms(1,2) le)
  then show ?thesis unfolding chain_def by (metis (no_types, lifting))
qed

section \<open>One block\<close>

locale block_producer = block_store "xe_store V" view
  for V :: "('d, 'k, 'x, 'q) executor_env" and view :: "'d \<Rightarrow> (string \<rightharpoonup> bytes)" +
  assumes initial_height: "0 < g_InitialHeight (xe_genesis V)"
begin

lemma signer_decodes:
  assumes "plain (s_crypto (xe_store V)) sh" and "Signer_ToProto (s_crypto (xe_store V)) (sh_Signer sh) = Some p"
  shows "\<exists>sg. Signer_FromProto (s_crypto (xe_store V)) (Some p) = Inr sg \<and>
    (sg_marshalledPubKey sg = [] \<or>
      (\<exists>k. sg_PubKey sg = Some k \<and> c_MarshalPublicKey (s_crypto (xe_store V)) k = Some (sg_marshalledPubKey sg)))"
  using assms pubkey_codec
  by (auto simp: plain_def Signer_ToProto_def Signer_FromProto_def MarshalledPubKey_def emptySigner_def
      split: option.splits if_splits)

lemma plain_header: "h_Legacy h = None \<Longrightarrow> h_cachedHash h = None \<Longrightarrow> normHeader h = h"
  by (simp add: normHeader_def normLegacy_def Legacy_IsZero_def)

lemma marshal_decoded:
  assumes "plain (s_crypto (xe_store V)) sh"
    and "SignedHeader_MarshalBinary (s_crypto (xe_store V)) (s_codec (xe_store V)) (s_wire (xe_store V)) sh = Inr hb"
    and "Data_MarshalBinary (s_codec (xe_store V)) data = Some db"
  shows "\<exists>sh'. decoded (xe_store V) hb db sh' data \<and> sh_Header sh' = sh_Header sh \<and> plain (s_crypto (xe_store V)) sh'"
proof -
  let ?C = "s_crypto (xe_store V)" and ?P = "s_codec (xe_store V)" and ?W = "s_wire (xe_store V)"
  have leg: "h_Legacy (sh_Header sh) = None" "h_cachedHash (sh_Header sh) = None" using assms(1) by (simp_all add: plain_def)
  then have small: "legacy_small (h_Legacy (sh_Header sh))" by (simp add: legacy_small_def)
  obtain p where p: "SignedHeader_ToProto ?C ?W sh = Inr p" "m_SignedHeader ?P p = Some hb"
    using assms(2) by (auto simp: SignedHeader_MarshalBinary_def split: sum.splits option.splits)
  obtain sg where sg: "Signer_ToProto ?C (sh_Signer sh) = Some sg"
    and pe: "p = \<lparr>pbsh_Header = Some (Header_ToProto ?W (sh_Header sh)), pbsh_Signature = sh_Signature sh, pbsh_Signer = Some sg\<rparr>"
    using signed_header_to [OF p(1)] .
  obtain s where s: "Signer_FromProto ?C (Some sg) = Inr s" "sg_marshalledPubKey s = [] \<or>
      (\<exists>k. sg_PubKey s = Some k \<and> c_MarshalPublicKey ?C k = Some (sg_marshalledPubKey s))"
    using signer_decodes [OF assms(1) sg] by blast
  have u: "u_SignedHeader ?P hb = Some p"
    by (rule signed_header_codec [OF _ small _ p(2)]) (auto simp: pe Header_ToProto_def)
  have "SignedHeader_UnmarshalBinary ?C ?P ?W newSignedHeader hb =
      Inr (newSignedHeader\<lparr>sh_Header := sh_Header sh, sh_Signature := sh_Signature sh, sh_Signer := s\<rparr>)"
    using header_from_to [OF small] s(1) plain_header [OF leg]
    by (simp add: SignedHeader_UnmarshalBinary_def u SignedHeader_FromProto_def pe)
  then show ?thesis
    using s(2) leg data_roundtrip [OF assms(3)] by (simp add: decoded_def plain_def)
qed

lemma pending_keys: "meta_clean headerKey" "meta_clean dataKey" "headerKey \<noteq> dataKey"
  by (simp_all add: headerKey_def dataKey_def meta_clean_def clean_comp_def)

lemma savePendingBlock_view:
  assumes "savePendingBlock (xe_store V) d sh data = (d', err)" and "plain (s_crypto (xe_store V)) sh"
  shows "view d' = view d \<and> err \<noteq> None \<or>
    (\<exists>hb db sh'. err = None \<and> view d' = (view d)(GetMetaKey headerKey \<mapsto> hb, GetMetaKey dataKey \<mapsto> db) \<and>
       decoded (xe_store V) hb db sh' data \<and> sh_Header sh' = sh_Header sh \<and> plain (s_crypto (xe_store V)) sh')"
proof (cases "\<exists>hb db. SignedHeader_MarshalBinary (s_crypto (xe_store V)) (s_codec (xe_store V)) (s_wire (xe_store V)) sh = Inr hb \<and>
    Data_MarshalBinary (s_codec (xe_store V)) data = Some db")
  case False
  then show ?thesis using assms(1) by (auto simp: savePendingBlock_def split: sum.splits option.splits)
next
  case True
  then obtain hb db where m:
    "SignedHeader_MarshalBinary (s_crypto (xe_store V)) (s_codec (xe_store V)) (s_wire (xe_store V)) sh = Inr hb"
    "Data_MarshalBinary (s_codec (xe_store V)) data = Some db" by blast
  let ?r = "bindE (NewBatch (xe_store V) d) (\<lambda>ops.
      bindE (Batch_Put (xe_store V) d ops (ds_NewKey (s_ds (xe_store V)) (GetMetaKey headerKey)) hb) (\<lambda>ops.
      Batch_Put (xe_store V) d ops (ds_NewKey (s_ds (xe_store V)) (GetMetaKey dataKey)) db))"
  obtain d1 e1 where c: "commit_result (xe_store V) d ?r = (d1, e1)" by fastforce
  with assms(1) m have d': "d' = d1" "err = map_option ErrPendingStore e1" by (simp_all add: savePendingBlock_def)
  have ops: "ops = [DPut (GetMetaKey headerKey) hb, DPut (GetMetaKey dataKey) db]" if "?r = Inr ops" for ops
    using that pending_keys by (auto simp: bindE_eq_Inr new_key dest!: Batch_Put_Inr NewBatch_Inr)
  show ?thesis
  proof (cases e1)
    case None
    with commit_result_view(1) [OF c] d' ops
    have "err = None" "view d' = (view d)(GetMetaKey headerKey \<mapsto> hb, GetMetaKey dataKey \<mapsto> db)" by auto
    with marshal_decoded [OF assms(2) m] show ?thesis by blast
  qed (use commit_result_view(2) [OF c] d' in auto)
qed

lemma blocks_of_meta [simp]: "blocks_of (m(GetMetaKey k \<mapsto> v)) = blocks_of m"
  by (simp add: blocks_of_def key_forms fun_eq_iff)

lemma pending_batch_update:
  assumes "chain_inv (xe_store V) g m (Some S) info" and "0 < g_InitialHeight g"
    and "m' = m(GetMetaKey headerKey \<mapsto> hb, GetMetaKey dataKey \<mapsto> db)" and "decoded (xe_store V) hb db sh data"
    and "extends (xe_store V) g m S (sh_Header sh) data" and "plain (s_crypto (xe_store V)) sh"
  shows "chain_inv (xe_store V) g m' (Some S) info"
proof -
  have b: "blocks_of m' = blocks_of m" and st: "m' (getStateAtHeightKey h) = m (getStateAtHeightKey h)"
    and ht: "height_of m' = height_of m" for h
    using assms(3) by (simp_all add: height_of_def)
  have ext: "extends (xe_store V) g m' S = extends (xe_store V) g m S" using extends_cong [of m' S m] b by simp
  have "sh' = sh \<and> data' = data" if "pending_in (xe_store V) m' sh' data'" for sh' data'
    using that assms(3,4) pending_keys(3) by (auto simp: pending_in_def dest: decoded_unique)
  then have "pending_ok (xe_store V) g m' S"
    using assms(5,6) ext by (auto simp: pending_ok_def)
  moreover have "info_ok (xe_store V) g m' S info = info_ok (xe_store V) g m S info"
    using b by (intro info_ok_cong) simp
  ultimately show ?thesis
    using assms(1) chain_cong [of _ m' m g "xe_store V"] assms(2) b st ht
    by (simp add: chain_inv_def stored_state_cong [of m' _ m])
qed

lemma GetBlockData_view:
  assumes "GetBlockData (xe_store V) d n = Inr (sh, data)" and "GetSignature (xe_store V) d n = Inr sig"
  shows "stored_block (xe_store V) (view d) n (sh_Header sh) data"
  using assms db_Get_view clean_height_keys
  by (auto simp: GetBlockData_def GetHeader_def GetSignature_def bindE_eq_Inr stored_block_def blocks_of_def decoded_def
      split: sum.splits)

lemma lastBlock_links:
  assumes "info_ok (xe_store V) g (view (x_store e)) S (x_lastBlockInfo e)"
    and "g_InitialHeight g < st_LastBlockHeight S + 1" and "lastBlock V e (st_LastBlockHeight S + 1) = Inr info"
  shows "\<exists>phdr pdata. stored_block (xe_store V) (view (x_store e)) (st_LastBlockHeight S) phdr pdata \<and>
    li_headerHash info = Header_Hash (s_crypto (xe_store V)) (s_codec (xe_store V)) (s_wire (xe_store V)) phdr \<and>
    li_dataHash info = Data_Hash (s_crypto (xe_store V)) (s_codec (xe_store V)) pdata"
proof (cases "x_lastBlockInfo e")
  case None
  then show ?thesis
    using assms(3) GetBlockData_view
    by (fastforce simp: lastBlock_def Let_def split: sum.splits)
next
  case (Some i)
  then show ?thesis using assms by (simp add: lastBlock_def info_ok_def)
qed

lemma CreateBlock_extends:
  assumes "chain_inv (xe_store V) (xe_genesis V) (view (x_store e)) (x_lastState e) (x_lastBlockInfo e)"
    and "x_lastState e = Some S" and "CreateBlock V e (st_LastBlockHeight S + 1) b = Inr (sh, data)"
  shows "extends (xe_store V) (xe_genesis V) (view (x_store e)) S (sh_Header sh) data \<and> plain (s_crypto (xe_store V)) sh"
proof -
  have "info_ok (xe_store V) (xe_genesis V) (view (x_store e)) S (x_lastBlockInfo e)"
    using assms(1,2) by (simp add: chain_inv_def)
  note links = lastBlock_links [OF this]
  have "getLastState e = S" using assms(2) by (simp add: getLastState_def)
  with assms(3) obtain t info k vh where
    t: "(if g_InitialHeight (xe_genesis V) < st_LastBlockHeight S + 1
         then bindE (lastBlock V e (st_LastBlockHeight S + 1)) (\<lambda>info. Inr (word_of_int (bd_Time b), info))
         else Inr (word_of_int (g_StartTime (xe_genesis V)), \<lparr>li_headerHash = [], li_dataHash = [], li_signature = []\<rparr>)) = Inr (t, info)"
    and blk: "newBlock V S (st_LastBlockHeight S + 1) t (proposer_of (xe_genesis V) S) info k vh (bd_Transactions b) = (sh, data)"
    by (auto simp: CreateBlock_def Let_def bindE_eq_Inr proposer_of_def)
  have "if g_InitialHeight (xe_genesis V) < st_LastBlockHeight S + 1
    then \<exists>phdr pdata. stored_block (xe_store V) (view (x_store e)) (st_LastBlockHeight S) phdr pdata \<and>
      li_headerHash info = Header_Hash (s_crypto (xe_store V)) (s_codec (xe_store V)) (s_wire (xe_store V)) phdr \<and>
      li_dataHash info = Data_Hash (s_crypto (xe_store V)) (s_codec (xe_store V)) pdata
    else li_headerHash info = [] \<and> li_dataHash info = []"
    using t links by (auto simp: bindE_eq_Inr)
  with blk show ?thesis
    by (auto simp only: newBlock_def Let_def extends_def plain_def prod.inject)
      (simp_all add: Header_ChainID_def Header_Height_def)
qed

lemma saved_block_meta:
  assumes "NewBatch (xe_store V) d = Inr b0" and "SaveBlockDataFromBytes (xe_store V) d b0 sh hb db sig = Inr b1"
    and "SetHeight (xe_store V) d b1 n = Inr b2" and "UpdateState (xe_store V) d b2 st = Inr b3"
    and "Commit (xe_store V) d b3 = (d', None)"
  shows "view d' (GetMetaKey k) = view d (GetMetaKey k)"
  using SaveBlockDataFromBytes_ops [OF assms(2)] SetHeight_ops [OF assms(3)] UpdateState_ops [OF assms(4)]
    NewBatch_Inr [OF assms(1)] Commit_view(1) [OF assms(5)]
  by (auto simp: key_forms)

lemma committed_view:
  assumes "blockBatch (xe_store V) d sh data sig n st = Inr ops" and "Commit (xe_store V) d ops = (d', None)"
    and "plain (s_crypto (xe_store V)) sh" and "n = Header_Height (sh_Header sh)" and "st_LastBlockHeight st = n"
  shows "stored_block (xe_store V) (view d') n (sh_Header sh) data" and "stored_state (xe_store V) (view d') n st"
    and "height_of (view d') = max n (height_of (view d))" and "\<And>k. view d' (GetMetaKey k) = view d (GetMetaKey k)"
    and "\<And>h. h \<noteq> n \<Longrightarrow> blocks_of (view d') h = blocks_of (view d) h"
    and "\<And>h. h \<noteq> n \<Longrightarrow> view d' (getStateAtHeightKey h) = view d (getStateAtHeightKey h)"
proof -
  obtain b0 b1 b2 where b: "NewBatch (xe_store V) d = Inr b0" "SaveBlockData (xe_store V) d b0 sh data sig = Inr b1"
    "SetHeight (xe_store V) d b1 n = Inr b2" "UpdateState (xe_store V) d b2 st = Inr ops"
    using assms(1) by (auto simp: blockBatch_def bindE_eq_Inr)
  obtain hb db where m: "SignedHeader_MarshalBinary (s_crypto (xe_store V)) (s_codec (xe_store V)) (s_wire (xe_store V)) sh = Inr hb"
    "Data_MarshalBinary (s_codec (xe_store V)) data = Some db" and sv: "SaveBlockDataFromBytes (xe_store V) d b0 sh hb db sig = Inr b1"
    using SaveBlockData_Inr [OF b(2)] .
  obtain sb where sb: "State_MarshalBinary (s_codec (xe_store V)) st = Some sb"
    and abs: "abs_store (view d') = \<lparr>cs_blocks = (cs_blocks (abs_store (view d)))(n \<mapsto> (hb, db, sig)),
      cs_states = (cs_states (abs_store (view d)))(st_LastBlockHeight st \<mapsto> sb),
      cs_height = max n (cs_height (abs_store (view d)))\<rparr>"
    using saved_block_view [OF b(1) sv b(3,4) assms(2,4)] by blast
  have bl: "blocks_of (view d') = (blocks_of (view d))(n \<mapsto> (hb, db, sig))"
    and sts: "(\<lambda>h. view d' (getStateAtHeightKey h)) = (\<lambda>h. view d (getStateAtHeightKey h))(n \<mapsto> sb)"
    and ht: "height_of (view d') = max n (height_of (view d))"
    using abs assms(5) by (simp_all add: abs_store_def)
  show "stored_block (xe_store V) (view d') n (sh_Header sh) data"
    using marshal_decoded [OF assms(3) m] bl by (auto simp: stored_block_def)
  show "stored_state (xe_store V) (view d') n st" using sb fun_cong [OF sts, of n] by (simp add: stored_state_def)
  show "height_of (view d') = max n (height_of (view d))" by (rule ht)
  show "view d' (GetMetaKey k) = view d (GetMetaKey k)" for k by (rule saved_block_meta [OF b(1) sv b(3,4) assms(2)])
  show "blocks_of (view d') h = blocks_of (view d) h" if "h \<noteq> n" for h using bl that by simp
  show "view d' (getStateAtHeightKey h) = view d (getStateAtHeightKey h)" if "h \<noteq> n" for h
    using fun_cong [OF sts, of h] that by simp
qed

lemma committed_inv:
  assumes "chain_inv (xe_store V) (xe_genesis V) (view d) (Some S) info" and max: "st_LastBlockHeight S < - 1"
    and pend: "\<And>sh data. pending_in (xe_store V) (view d) sh data \<Longrightarrow> Header_Height (sh_Header sh) = st_LastBlockHeight S + 1"
    and ext: "extends (xe_store V) (xe_genesis V) (view d) S (sh_Header sh) data" and "plain (s_crypto (xe_store V)) sh"
    and "blockBatch (xe_store V) d sh data sig (st_LastBlockHeight S + 1) S' = Inr ops"
    and "Commit (xe_store V) d ops = (d', None)" and after: "state_after (xe_store V) S (sh_Header sh) S'"
  shows "chain_inv (xe_store V) (xe_genesis V) (view d') (Some S')
    (Some \<lparr>li_headerHash = st_LastHeaderHash S', li_dataHash = Data_Hash (s_crypto (xe_store V)) (s_codec (xe_store V)) data,
       li_signature = sig\<rparr>)"
    and "\<And>h. h \<le> st_LastBlockHeight S \<Longrightarrow> blocks_of (view d') h = blocks_of (view d) h"
proof -
  let ?E = "xe_store V" and ?g = "xe_genesis V" and ?n = "st_LastBlockHeight S + 1"
  have n: "Header_Height (sh_Header sh) = ?n" and n': "st_LastBlockHeight S' = ?n"
    using ext after by (simp_all add: extends_def state_after_def)
  note v = committed_view [OF assms(6,7,5) n [symmetric] n']
  have up: "unat ?n = Suc (unat (st_LastBlockHeight S))" using max unat_Suc_u64 by blast
  have old: "h \<noteq> ?n" if "h \<le> st_LastBlockHeight S" for h using that up by (auto simp: u64_order)
  show keep: "blocks_of (view d') h = blocks_of (view d) h" if "h \<le> st_LastBlockHeight S" for h using v(5) old that by blast
  have keep_st: "view d' (getStateAtHeightKey h) = view d (getStateAtHeightKey h)" if "h \<le> st_LastBlockHeight S" for h
    using v(6) old that by blast
  have ch: "chain ?E ?g (view d') (st_LastBlockHeight S)"
    using assms(1) chain_cong [OF keep keep_st initial_height, of "st_LastBlockHeight S" ?E] by (auto simp: chain_inv_def)
  have S: "stored_state ?E (view d') (st_LastBlockHeight S) S"
    using assms(1) stored_state_cong [of "view d'" _ "view d" ?E, OF keep_st] by (simp add: chain_inv_def)
  have ext': "extends ?E ?g (view d') S (sh_Header sh) data" using ext extends_cong [of "view d'" S "view d" ?E, OF keep] by simp
  have "chain ?E ?g (view d') ?n"
    unfolding chain_def
  proof (intro allI impI)
    fix h assume h: "g_InitialHeight ?g \<le> h \<and> h \<le> ?n"
    show "\<exists>S hdr data st. stored_state ?E (view d') (h - 1) S \<and> st_LastBlockHeight S = h - 1 \<and>
        stored_block ?E (view d') h hdr data \<and> extends ?E ?g (view d') S hdr data \<and> stored_state ?E (view d') h st \<and>
        state_after ?E S hdr st"
    proof (cases "h = ?n")
      case True
      then show ?thesis using S v(1,2) ext' after by (intro exI [of _ S] exI [of _ "sh_Header sh"] exI [of _ data] exI [of _ S']) simp
    next
      case False
      then have "h \<le> st_LastBlockHeight S" using h up by (simp add: u64_order)
      then show ?thesis using ch h unfolding chain_def by blast
    qed
  qed
  moreover have "pending_ok ?E ?g (view d') S'"
    using pend v(4) n' by (auto simp: pending_ok_def pending_in_def)
  moreover have "height_of (view d') = ?n"
    using v(3) assms(1) up by (simp add: chain_inv_def max_def u64_order)
  moreover have "g_InitialHeight ?g - 1 \<le> ?n" using assms(1) up by (auto simp: chain_inv_def u64_order)
  moreover have "info_ok ?E ?g (view d') S' (Some \<lparr>li_headerHash = st_LastHeaderHash S',
      li_dataHash = Data_Hash (s_crypto ?E) (s_codec ?E) data, li_signature = sig\<rparr>)"
    using v(1) n' after by (auto simp: info_ok_def state_after_def)
  ultimately show "chain_inv ?E ?g (view d') (Some S')
    (Some \<lparr>li_headerHash = st_LastHeaderHash S', li_dataHash = Data_Hash (s_crypto ?E) (s_codec ?E) data, li_signature = sig\<rparr>)"
    using v(2) n' by (simp add: chain_inv_def)
qed

lemma pending_unique:
  "pending_in (xe_store V) m sh data \<Longrightarrow> pending_in (xe_store V) m sh' data' \<Longrightarrow> sh' = sh \<and> data' = data"
  by (auto simp: pending_in_def dest: decoded_unique)

lemma GetMetadata_view: "meta_clean k \<Longrightarrow> GetMetadata (xe_store V) d k = Inr v \<Longrightarrow> view d (GetMetaKey k) = Some v"
  using db_Get_view [OF clean_meta_key] by (simp add: GetMetadata_def)

lemma pendingBlockAt_in:
  assumes "pendingBlockAt V e n = Inr (Some (sh, data))"
  shows "pending_in (xe_store V) (view (x_store e)) sh data \<and> Header_Height (sh_Header sh) = n"
  using assms GetMetadata_view pending_keys
  by (auto simp: pendingBlockAt_def getPendingBlock_def pending_in_def decoded_def split: if_splits sum.splits option.splits)

text \<open>\<open>ready\<close> is what is known of the block that is produced: it extends the chain and is the pending block of the store.\<close>

definition ready :: "State \<Rightarrow> 'd \<Rightarrow> 'k SignedHeader \<Rightarrow> Data \<Rightarrow> bool" where
  "ready S d sh data \<longleftrightarrow> extends (xe_store V) (xe_genesis V) (view d) S (sh_Header sh) data \<and> plain (s_crypto (xe_store V)) sh \<and>
     (\<forall>sh' data'. pending_in (xe_store V) (view d) sh' data' \<longrightarrow> Header_Height (sh_Header sh') = st_LastBlockHeight S + 1)"

lemma pending_ready:
  assumes "pending_in (xe_store V) (view d) sh' data'" and "Header_Height (sh_Header sh') = st_LastBlockHeight S + 1"
    and "extends (xe_store V) (xe_genesis V) (view d) S (sh_Header sh) data" and "plain (s_crypto (xe_store V)) sh"
  shows "ready S d sh data"
  unfolding ready_def using assms pending_unique [OF assms(1)] by metis

lemma savePendingBlock_ready:
  assumes "chain_inv (xe_store V) (xe_genesis V) (view d) (Some S) info"
    and "extends (xe_store V) (xe_genesis V) (view d) S (sh_Header sh) data" and "plain (s_crypto (xe_store V)) sh"
    and "savePendingBlock (xe_store V) d sh data = (d', err)"
  shows "chain_inv (xe_store V) (xe_genesis V) (view d') (Some S) info \<and> blocks_of (view d') = blocks_of (view d) \<and>
    (err = None \<longrightarrow> ready S d' sh data)"
proof (cases err)
  case None
  then obtain hb db sh' where v: "view d' = (view d)(GetMetaKey headerKey \<mapsto> hb, GetMetaKey dataKey \<mapsto> db)"
    and dec: "decoded (xe_store V) hb db sh' data" "sh_Header sh' = sh_Header sh" "plain (s_crypto (xe_store V)) sh'"
    using savePendingBlock_view [OF assms(4,3)] by blast
  have b: "blocks_of (view d') = blocks_of (view d)" using v by simp
  have ext: "extends (xe_store V) (xe_genesis V) (view d') S (sh_Header sh) data"
    using assms(2) extends_cong [of "view d'" S "view d" "xe_store V"] b by simp
  have "pending_in (xe_store V) (view d') sh' data"
    using v dec(1) pending_keys(3) by (auto simp: pending_in_def)
  moreover have "Header_Height (sh_Header sh') = st_LastBlockHeight S + 1" using assms(2) dec(2) by (simp add: extends_def)
  ultimately have "ready S d' sh data" using ext assms(3) pending_ready by blast
  moreover have "chain_inv (xe_store V) (xe_genesis V) (view d') (Some S) info"
    by (rule pending_batch_update [OF assms(1) initial_height v dec(1) _ dec(3)]) (simp add: dec(2) assms(2))
  ultimately show ?thesis using b by simp
next
  case (Some x)
  then show ?thesis using savePendingBlock_view [OF assms(4,3)] assms(1) by auto
qed

lemma nextBlock_inv:
  assumes "producer_inv V view e" and "x_lastState e = Some S" and "nextBlock V e (st_LastBlockHeight S + 1) = Some (e', r)"
  shows "producer_inv V view e' \<and> x_lastState e' = Some S \<and> blocks_of (view (x_store e')) = blocks_of (view (x_store e)) \<and>
    (\<forall>sh data. r = Inr (Some (sh, data)) \<longrightarrow> ready S (x_store e') sh data)"
proof (cases "pendingBlockAt V e (st_LastBlockHeight S + 1)")
  case (Inl err)
  then show ?thesis using assms by (auto simp: nextBlock_def)
next
  case (Inr pb)
  show ?thesis
  proof (cases pb)
    case (Some block)
    obtain sh data where block: "block = (sh, data)" by fastforce
    have po: "pending_ok (xe_store V) (xe_genesis V) (view (x_store e)) S"
      using assms(1,2) by (simp add: producer_inv_def chain_inv_def)
    have p: "pending_in (xe_store V) (view (x_store e)) sh data \<and> Header_Height (sh_Header sh) = st_LastBlockHeight S + 1"
      using pendingBlockAt_in Inr Some block by simp
    moreover from this have "extends (xe_store V) (xe_genesis V) (view (x_store e)) S (sh_Header sh) data \<and>
        plain (s_crypto (xe_store V)) sh"
      using po unfolding pending_ok_def by blast
    ultimately have "ready S (x_store e) sh data" using pending_ready by blast
    with Inr Some block assms show ?thesis by (auto simp: nextBlock_def)
  next
    case None
    obtain e1 bd re where rb: "RetrieveBatch V e = Some (e1, bd, re)"
      using assms(3) Inr None by (cases "RetrieveBatch V e") (auto simp: nextBlock_def)
    have core: "core e1 = core e" using RetrieveBatch_core [OF rb] .
    then have e1: "producer_inv V view e1" "x_lastState e1 = Some S" "x_store e1 = x_store e"
      using assms(1,2) producer_inv_core [OF core, of V view] by (simp_all add: core_def)
    show ?thesis
    proof (cases "\<exists>b sh data. bd = Some b \<and> re \<noteq> Some NoBatch \<and> (\<forall>err. re \<noteq> Some (SequencerError err)) \<and>
        CreateBlock V e1 (st_LastBlockHeight S + 1) b = Inr (sh, data)")
      case False
      then have "e' = e1" "\<forall>b. r \<noteq> Inr (Some b)"
        using assms(3) Inr None rb
        by (auto simp: nextBlock_def split: option.splits retrieve_error.splits sum.splits)
      then show ?thesis using e1 by auto
    next
      case True
      then obtain b sh data where b: "bd = Some b" "re \<noteq> Some NoBatch" "\<forall>err. re \<noteq> Some (SequencerError err)"
        and cb: "CreateBlock V e1 (st_LastBlockHeight S + 1) b = Inr (sh, data)" by blast
      have ext: "extends (xe_store V) (xe_genesis V) (view (x_store e1)) S (sh_Header sh) data" "plain (s_crypto (xe_store V)) sh"
        using CreateBlock_extends [OF _ e1(2) cb] e1(1) by (simp_all add: producer_inv_def)
      obtain d' err where sv: "savePendingBlock (xe_store V) (x_store e1) sh data = (d', err)" by fastforce
      have "e' = e1\<lparr>x_store := d'\<rparr>" "r = (case err of None \<Rightarrow> Inr (Some (sh, data)) | Some err \<Rightarrow> Inl err)"
        using assms(3) Inr None rb b cb sv
        by (auto simp: nextBlock_def on_store_def failing_def split: option.splits retrieve_error.splits)
      moreover have "chain_inv (xe_store V) (xe_genesis V) (view (x_store e1)) (Some S) (x_lastBlockInfo e1)"
        using e1 by (simp add: producer_inv_def)
      note savePendingBlock_ready [OF this ext sv]
      ultimately show ?thesis using e1(2,3) by (cases err) (simp_all add: producer_inv_def)
    qed
  qed
qed

lemma advances_view:
  assumes "producer_inv V view e" and "view (x_store e') = view (x_store e)" and "x_lastState e' = x_lastState e"
    and "x_lastBlockInfo e' = x_lastBlockInfo e"
  shows "advances V view e e'"
  using assms by (simp add: advances_def producer_inv_def getLastState_def)

lemma advances_core: "producer_inv V view e \<Longrightarrow> core e' = core e \<Longrightarrow> advances V view e e'"
  by (rule advances_view) (simp_all add: core_def)

lemma advances_trans_core: "advances V view e1 e' \<Longrightarrow> core e1 = core e \<Longrightarrow> advances V view e e'"
  using getLastState_core [of e1 e] by (simp add: advances_def core_def)

lemma valid_sequence_time:
  "AssertValidSequence lt S sh = (lt', None) \<Longrightarrow> st_LastHeaderHash S \<noteq> [] \<Longrightarrow> st_LastBlockTime S \<le> Header_Time (sh_Header sh)"
  by (auto simp: AssertValidSequence_def Let_def split: if_splits)

lemma validateAndCommit_advances:
  assumes "producer_inv V view e" and "x_lastState e = Some S" and "st_LastBlockHeight S < - 1"
    and "ready S (x_store e) sh data" and "newState = (NextState (s_crypto (xe_store V)) (s_codec (xe_store V)) (s_wire (xe_store V)) S
      (sh_Header sh) root nxt)\<lparr>st_DAHeight := da\<rparr>"
    and "validateAndCommit V w e (sh\<lparr>sh_Signature := sig\<rparr>) data sig newState (st_LastBlockHeight S + 1) = Some (e', r)"
  shows "advances V view e e'"
proof -
  let ?sh = "sh\<lparr>sh_Signature := sig\<rparr>" and ?n = "st_LastBlockHeight S + 1"
  have S: "getLastState e = S" using assms(2) by (simp add: getLastState_def)
  show ?thesis
  proof (cases "\<exists>lt ops d. AssertValidSequence (x_tracking e) S ?sh = (lt, None) \<and>
      blockBatch (xe_store V) (x_store e) ?sh data sig ?n newState = Inr ops \<and> proposeToRaft (xe_store V) w ?sh data ?n = None \<and>
      Commit (xe_store V) (x_store e) ops = (d, None)")
    case False
    then have "view (x_store e') = view (x_store e) \<and> x_lastState e' = x_lastState e \<and> x_lastBlockInfo e' = x_lastBlockInfo e"
      using assms(6) S Commit_view(2)
      by (auto simp: validateAndCommit_def Let_def critical_def sendCriticalError_def split: prod.splits option.splits sum.splits)
    then show ?thesis using assms(1) advances_view by blast
  next
    case True
    then obtain lt ops d where ok: "AssertValidSequence (x_tracking e) S ?sh = (lt, None)"
      "blockBatch (xe_store V) (x_store e) ?sh data sig ?n newState = Inr ops" "proposeToRaft (xe_store V) w ?sh data ?n = None"
      "Commit (xe_store V) (x_store e) ops = (d, None)" by blast
    have core: "core e' = core (afterCommit V (e\<lparr>x_tracking := lt, x_store := d\<rparr>) ?sh data sig newState)"
      using assms(6) S ok finalize_core by (auto simp: validateAndCommit_def Let_def split: if_splits)
    have after: "state_after (xe_store V) S (sh_Header ?sh) newState"
      using assms(5) valid_sequence_time [OF ok(1)] by (simp add: state_after_def NextState_def Let_def)
    have inv: "chain_inv (xe_store V) (xe_genesis V) (view (x_store e)) (Some S) (x_lastBlockInfo e)"
      using assms(1,2) by (simp add: producer_inv_def)
    have "extends (xe_store V) (xe_genesis V) (view (x_store e)) S (sh_Header ?sh) data" "plain (s_crypto (xe_store V)) ?sh"
      and "\<And>sh data. pending_in (xe_store V) (view (x_store e)) sh data \<Longrightarrow> Header_Height (sh_Header sh) = ?n"
      using assms(4) by (auto simp: ready_def plain_def)
    note ci = committed_inv [OF inv assms(3) this(3,1,2) ok(2,4) after]
    have "Header_Height (sh_Header sh) = ?n" using assms(4) by (simp add: ready_def extends_def)
    then have "st_LastBlockHeight newState = ?n" using after by (simp add: state_after_def)
    then show ?thesis
      using ci core S by (simp add: advances_def producer_inv_def afterCommit_core getLastState_def) (simp add: core_def)
  qed
qed

lemma finishBlock_advances:
  assumes "producer_inv V view e" and "x_lastState e = Some S" and "st_LastBlockHeight S < - 1"
    and "ready S (x_store e) sh data" and "finishBlock V w e (st_LastBlockHeight S + 1) sh data = Some (e', r)"
  shows "advances V view e e'"
proof (cases "ApplyBlock V w e (sh_Header sh) data")
  case None
  then show ?thesis using assms(5) assms(1) by (auto simp: finishBlock_def intro!: advances_core split: if_splits)
next
  case (Some a)
  obtain e1 r1 where a: "a = (e1, r1)" by fastforce
  have c1: "core e1 = core e" using ApplyBlock_core Some a by blast
  show ?thesis
  proof (cases "HasQuorum w 1 \<and> (\<exists>st. r1 = Inr st)")
    case False
    then have "core e' = core e" using assms(5) Some a c1 by (cases r1) (auto simp: finishBlock_def split: if_splits)
    then show ?thesis by (rule advances_core [OF assms(1)])
  next
    case True
    then obtain st where st: "r1 = Inr st" "HasQuorum w 1" by blast
    then obtain root nxt where nx: "st = NextState (s_crypto (xe_store V)) (s_codec (xe_store V)) (s_wire (xe_store V)) S
        (sh_Header sh) root nxt"
      using Some a ApplyBlock_state [OF _ assms(2)] by blast
    obtain e2 r2 where sg: "signHeader V e1 (sh_Header sh) = Some (e2, r2)"
      using assms(5) Some a st by (cases "signHeader V e1 (sh_Header sh)") (auto simp: finishBlock_def Let_def)
    have c2: "core e2 = core e" using signHeader_core [OF sg] c1 by simp
    show ?thesis
    proof (cases r2)
      case (Inl err)
      then have "e' = e2" using assms(5) Some a st sg by (simp add: finishBlock_def Let_def)
      then show ?thesis using advances_core [OF assms(1) c2] by simp
    next
      case (Inr sig)
      have "validateAndCommit V w e2 (sh\<lparr>sh_Signature := sig\<rparr>) data sig
          (st\<lparr>st_DAHeight := sqi_GetDAHeight (xe_sequencer V) (x_sequencer e1)\<rparr>) (st_LastBlockHeight S + 1) = Some (e', r)"
        using assms(5) Some a st sg Inr by (simp add: finishBlock_def Let_def)
      moreover have "producer_inv V view e2" "x_lastState e2 = Some S" "x_store e2 = x_store e"
        using producer_inv_core [OF c2, of V view] assms(1,2) c2 by (simp_all add: core_def)
      ultimately have "advances V view e2 e'"
        using validateAndCommit_advances [OF _ _ assms(3)] assms(4) nx by metis
      then show ?thesis using advances_trans_core c2 by blast
    qed
  qed
qed

lemma advances_trans:
  assumes "advances V view e e1" and "blocks_of (view (x_store e1)) = blocks_of (view (x_store e))"
    and "getLastState e1 = getLastState e" and "advances V view e1 e'"
  shows "advances V view e e'"
  using assms by (simp add: advances_def)

lemma ProduceBlock_advances:
  assumes "producer_inv V view e" and "st_LastBlockHeight (getLastState e) < - 1" and "ProduceBlock V w e = Some (e', r)"
  shows "advances V view e e'"
proof -
  obtain S where S: "x_lastState e = Some S" using assms(1) by (auto simp: producer_inv_def chain_inv_def)
  obtain e1 r1 where ack: "retryAck V e = Some (e1, r1)"
    by (cases "ackCommittedBatch V e"; cases "snd (ackCommittedBatch V e)"; cases "x_pendingBatchAck e")
      (auto simp: retryAck_def failing_def)
  obtain e2 lim where pl: "pendingLimitReached V w e1 = (e2, lim)" by fastforce
  have c1: "core e1 = core e" and c2: "core e2 = core e" using retryAck_core [OF ack] pendingLimitReached_core [OF pl] by simp_all
  have S1: "getLastState e1 = S" using S getLastState_core [OF c1] by (simp add: getLastState_def)
  show ?thesis
  proof (cases "\<not> w_ctxErr w \<and> HasQuorum w 0 \<and> (\<exists>u. r1 = Inr u) \<and> \<not> lim")
    case False
    then have "core e' = core e" using assms(3) ack pl c1 c2 by (cases r1) (auto simp: ProduceBlock_def Let_def split: if_splits)
    then show ?thesis by (rule advances_core [OF assms(1)])
  next
    case True
    have e2: "producer_inv V view e2" "x_lastState e2 = Some S"
      using producer_inv_core [OF c2, of V view] assms(1) S c2 by (simp_all add: core_def)
    obtain e3 r3 where nb: "nextBlock V e2 (st_LastBlockHeight S + 1) = Some (e3, r3)"
      using assms(3) True ack pl S1 by (cases "nextBlock V e2 (st_LastBlockHeight S + 1)") (auto simp: ProduceBlock_def Let_def)
    note n = nextBlock_inv [OF e2 nb]
    then have a3: "advances V view e2 e3" "getLastState e3 = getLastState e2"
      using e2(2) by (simp_all add: advances_def getLastState_def)
    have "advances V view e2 e'"
    proof (cases "\<exists>sh data. r3 = Inr (Some (sh, data))")
      case False
      then have "e' = e3" using assms(3) True ack pl S1 nb by (cases r3) (auto simp: ProduceBlock_def Let_def split: option.splits)
      then show ?thesis using a3(1) by simp
    next
      case sd: True
      then obtain sh data where sh: "r3 = Inr (Some (sh, data))" by blast
      then have "finishBlock V w e3 (st_LastBlockHeight S + 1) sh data = Some (e', r)"
        using assms(3) True ack pl S1 nb by (auto simp: ProduceBlock_def Let_def)
      moreover have "st_LastBlockHeight S < - 1" using assms(2) S by (simp add: getLastState_def)
      ultimately have "advances V view e3 e'" using finishBlock_advances n sh by blast
      then show ?thesis using advances_trans [OF a3(1) _ a3(2)] n by blast
    qed
    then show ?thesis using advances_trans_core c2 by blast
  qed
qed

lemma loopStep_advances:
  assumes "producer_inv V view e" and "st_LastBlockHeight (getLastState e) < - 1" and "loopStep V (e, b) ev = Some (e', b')"
  shows "advances V view e e'"
proof (cases ev)
  case TxNotify
  then show ?thesis using assms by (auto simp: loopStep_def core_def intro!: advances_core)
next
  case (BlockTimer w)
  then show ?thesis
    using assms ProduceBlock_advances [OF assms(1,2)] advances_core [OF assms(1)] by (auto simp: loopStep_def split: if_splits)
next
  case (LazyTimer w)
  then show ?thesis using assms ProduceBlock_advances [OF assms(1,2)] by (auto simp: loopStep_def)
qed

lemma executionLoop_chain:
  assumes "producer_inv V view e" and "unat (st_LastBlockHeight (getLastState e)) + length evs < 2 ^ 64"
    and "executionLoop V (e, b) evs = Some (e', b')"
  shows "producer_inv V view e' \<and> st_LastBlockHeight (getLastState e) \<le> st_LastBlockHeight (getLastState e') \<and>
    (\<forall>h \<le> st_LastBlockHeight (getLastState e). blocks_of (view (x_store e')) h = blocks_of (view (x_store e)) h)"
  using assms
proof (induction evs arbitrary: e b)
  case Nil
  then show ?case by simp
next
  case (Cons ev evs)
  obtain e1 b1 where st: "loopStep V (e, b) ev = Some (e1, b1)" and rest: "executionLoop V (e1, b1) evs = Some (e', b')"
    using Cons.prems(3) by (auto split: option.splits)
  have lt: "st_LastBlockHeight (getLastState e) < - 1"
    using Cons.prems(2) by (simp add: u64_order unsigned_minus_1_eq_mask mask_eq_exp_minus_1)
  have a: "advances V view e e1" using loopStep_advances [OF Cons.prems(1) lt st] .
  have up: "unat (st_LastBlockHeight (getLastState e) + 1) = Suc (unat (st_LastBlockHeight (getLastState e)))"
    using unat_Suc_u64 [OF lt] .
  have le: "st_LastBlockHeight (getLastState e) \<le> st_LastBlockHeight (getLastState e1)"
    and bound: "unat (st_LastBlockHeight (getLastState e1)) + length evs < 2 ^ 64"
    using a up Cons.prems(2) by (auto simp: advances_def u64_order)
  have "producer_inv V view e1" using a by (simp add: advances_def)
  from Cons.IH [OF this bound rest] show ?case using a le by (auto simp: advances_def)
qed

end

end
