(* ===== verification/Executor_Restart.thy ===== *)
theory Executor_Restart
  imports Executor_Laws
begin

text \<open>
  What the block producer signs: a restarted executor resumes from the store and signs only the block that was
  pending, a running one makes a new block from a new batch.
\<close>

section \<open>Signatures\<close>

text \<open>The payloads signed and the flag change only in \<open>signHeader\<close> and after a commit.\<close>

definition signing :: "('d, 'k, 'x, 'q) Executor \<Rightarrow> bytes list \<times> bool" where
  "signing e = (x_signed e, x_hasPendingBlock e)"

lemma retryAck_signing: "retryAck V e = Some (e', r) \<Longrightarrow> signing e' = signing e"
  by (auto simp: retryAck_def ackCommittedBatch_def failing_def signing_def split: if_splits option.splits prod.splits)

lemma pendingLimitReached_signing: "pendingLimitReached V w e = (e', b) \<Longrightarrow> signing e' = signing e"
  by (auto simp: pendingLimitReached_def signing_def Let_def split: if_splits)

lemma RetrieveBatch_signing: "RetrieveBatch V e = Some (e', r) \<Longrightarrow> signing e' = signing e"
  by (auto simp: RetrieveBatch_def signing_def Let_def split: option.splits prod.splits sum.splits)

lemma ApplyBlock_signing: "ApplyBlock V w e hdr data = Some (e', r) \<Longrightarrow> signing e' = signing e"
  by (auto simp: ApplyBlock_def signing_def critical_def sendCriticalError_def Let_def split: prod.splits sum.splits)

lemma finalize_signing: "finalize V e n = Some (e', r) \<Longrightarrow> signing e' = signing e"
  by (auto simp: finalize_def signing_def critical_def sendCriticalError_def split: prod.splits option.splits)

lemma on_store_signing: "on_store e f = Some (e', r) \<Longrightarrow> signing e' = signing e"
  by (auto simp: on_store_def failing_def signing_def split: prod.splits option.splits)

lemma afterCommit_signing: "x_signed (afterCommit V e sh data sig S) = x_signed e \<and> \<not> x_hasPendingBlock (afterCommit V e sh data sig S)"
  by (auto simp: afterCommit_def ackCommittedBatch_def Let_def split: option.splits prod.splits)

lemma nextBlock_signing:
  assumes "nextBlock V e n = Some (e', r)"
  shows "signing e' = signing e"
proof (cases "pendingBlockAt V e n = Inr None")
  case False
  then show ?thesis using assms by (auto simp: nextBlock_def split: sum.splits option.splits)
next
  case True
  then obtain e1 bd re where rb: "RetrieveBatch V e = Some (e1, bd, re)"
    using assms by (cases "RetrieveBatch V e") (auto simp: nextBlock_def)
  then have "e' = e1 \<or> (\<exists>f r. on_store e1 f = Some (e', r))"
    using assms True
    by (auto simp: nextBlock_def bindS_def split: option.splits retrieve_error.splits sum.splits prod.splits)
  then show ?thesis using on_store_signing RetrieveBatch_signing [OF rb] by metis
qed

lemma validateAndCommit_signing:
  assumes "validateAndCommit V w e sh data sig st n = Some (e', r)"
  shows "x_signed e' = x_signed e" and "\<not> x_hasPendingBlock e \<Longrightarrow> \<not> x_hasPendingBlock e'"
proof -
  have "signing e' = signing e \<or>
    (\<exists>d lt. signing e' = signing (afterCommit V (e\<lparr>x_tracking := lt, x_store := d\<rparr>) sh data sig st))"
  proof (cases "\<exists>lt ops d. AssertValidSequence (x_tracking e) (getLastState e) sh = (lt, None) \<and>
      blockBatch (xe_store V) (x_store e) sh data sig n st = Inr ops \<and> proposeToRaft (xe_store V) w sh data n = None \<and>
      Commit (xe_store V) (x_store e) ops = (d, None)")
    case False
    then have "signing e' = signing e"
      using assms
      by (auto simp: validateAndCommit_def Let_def critical_def sendCriticalError_def signing_def split: prod.splits option.splits sum.splits)
    then show ?thesis ..
  next
    case True
    then obtain lt ops d where ok: "AssertValidSequence (x_tracking e) (getLastState e) sh = (lt, None)"
      "blockBatch (xe_store V) (x_store e) sh data sig n st = Inr ops" "proposeToRaft (xe_store V) w sh data n = None"
      "Commit (xe_store V) (x_store e) ops = (d, None)" by blast
    then have "signing e' = signing (afterCommit V (e\<lparr>x_tracking := lt, x_store := d\<rparr>) sh data sig st)"
      using assms finalize_signing by (auto simp: validateAndCommit_def Let_def split: if_splits)
    then show ?thesis by blast
  qed
  then show "x_signed e' = x_signed e" "\<not> x_hasPendingBlock e \<Longrightarrow> \<not> x_hasPendingBlock e'"
    using afterCommit_signing [of V "e\<lparr>x_tracking := _, x_store := _\<rparr>" sh data sig st] by (auto simp: signing_def)
qed

lemma finishBlock_cases:
  assumes "finishBlock V w e n sh data = Some (e', r)"
  obtains (unsigned) "core e' = core e" "signing e' = signing e"
  | (signed) e1 e2 r2 where "signing e1 = signing e" "signHeader V e1 (sh_Header sh) = Some (e2, r2)" "core e2 = core e"
    "e' = e2 \<or> (\<exists>sh' sig st. validateAndCommit V w e2 sh' data sig st n = Some (e', r))"
proof -
  have "e' = e \<or> (\<exists>r1. ApplyBlock V w e (sh_Header sh) data = Some (e', r1)) \<or>
    (\<exists>e1 r1 e2 r2. ApplyBlock V w e (sh_Header sh) data = Some (e1, r1) \<and> signHeader V e1 (sh_Header sh) = Some (e2, r2) \<and>
      (e' = e2 \<or> (\<exists>sh' sig st. validateAndCommit V w e2 sh' data sig st n = Some (e', r))))"
    using assms by (auto simp: finishBlock_def bindS_def Let_def split: option.splits prod.splits sum.splits if_splits)
  then consider "e' = e" | r1 where "ApplyBlock V w e (sh_Header sh) data = Some (e', r1)"
    | e1 r1 e2 r2 where "ApplyBlock V w e (sh_Header sh) data = Some (e1, r1)" "signHeader V e1 (sh_Header sh) = Some (e2, r2)"
      "e' = e2 \<or> (\<exists>sh' sig st. validateAndCommit V w e2 sh' data sig st n = Some (e', r))" by blast
  then show thesis
  proof cases
    case 1
    then show thesis using unsigned by simp
  next
    case (2 r1)
    then show thesis using unsigned ApplyBlock_core [OF 2] ApplyBlock_signing [OF 2] by simp
  next
    case (3 e1 r1 e2 r2)
    then show thesis
      using signed [OF ApplyBlock_signing [OF 3(1)] 3(2) _ 3(3)] ApplyBlock_core [OF 3(1)] signHeader_core [OF 3(2)] by simp
  qed
qed

lemma finishBlock_signing:
  assumes "finishBlock V w e n sh data = Some (e', r)"
  shows "x_signed e' = x_signed e \<or>
      (\<exists>p. xe_signer V \<noteq> None \<and> xe_SignatureBytes V (sh_Header sh) = Inr p \<and> x_signed e' = x_signed e @ [p])"
    and "\<not> x_hasPendingBlock e \<Longrightarrow> \<not> x_hasPendingBlock e'"
proof -
  have sign: "(x_signed e2 = x_signed e1 \<or>
      (\<exists>p. xe_signer V \<noteq> None \<and> xe_SignatureBytes V (sh_Header sh) = Inr p \<and> x_signed e2 = x_signed e1 @ [p])) \<and>
      x_hasPendingBlock e2 = x_hasPendingBlock e1" if "signHeader V e1 (sh_Header sh) = Some (e2, r2)" for e1 e2 r2
    using that by (auto simp: signHeader_def Let_def split: option.splits sum.splits)
  from assms have "(x_signed e' = x_signed e \<or>
      (\<exists>p. xe_signer V \<noteq> None \<and> xe_SignatureBytes V (sh_Header sh) = Inr p \<and> x_signed e' = x_signed e @ [p])) \<and>
    (\<not> x_hasPendingBlock e \<longrightarrow> \<not> x_hasPendingBlock e')"
  proof (cases rule: finishBlock_cases)
    case unsigned
    then show ?thesis by (simp add: signing_def)
  next
    case (signed e1 e2 r2)
    then have "x_signed e' = x_signed e2 \<and> (\<not> x_hasPendingBlock e2 \<longrightarrow> \<not> x_hasPendingBlock e')"
      using validateAndCommit_signing by blast
    then show ?thesis using sign [OF signed(2)] signed(1) by (auto simp: signing_def)
  qed
  then show "x_signed e' = x_signed e \<or>
      (\<exists>p. xe_signer V \<noteq> None \<and> xe_SignatureBytes V (sh_Header sh) = Inr p \<and> x_signed e' = x_signed e @ [p])"
    "\<not> x_hasPendingBlock e \<Longrightarrow> \<not> x_hasPendingBlock e'" by blast+
qed

text \<open>A call either stops before the block is finished, and signs nothing, or finishes the block \<open>nextBlock\<close> gave.\<close>

lemma ProduceBlock_cases:
  assumes "ProduceBlock V w e = Some (e', r)"
  obtains (early) "signing e' = signing e"
  | (finished) e2 e3 sh data where "core e2 = core e" "signing e2 = signing e"
    "nextBlock V e2 (st_LastBlockHeight (getLastState e) + 1) = Some (e3, Inr (Some (sh, data)))"
    "finishBlock V w e3 (st_LastBlockHeight (getLastState e) + 1) sh data = Some (e', r)"
proof -
  show thesis
  proof (cases "w_ctxErr w \<or> \<not> HasQuorum w 0")
    case True
    then show thesis using assms early by (auto simp: ProduceBlock_def split: if_splits)
  next
    case False
    then obtain e1 r1 where ack: "retryAck V e = Some (e1, r1)"
      using assms by (cases "retryAck V e") (auto simp: ProduceBlock_def)
    obtain e2 lim where pl: "pendingLimitReached V w e1 = (e2, lim)" by fastforce
    have c: "core e1 = core e" "core e2 = core e" "signing e1 = signing e" "signing e2 = signing e"
      using retryAck_core [OF ack] pendingLimitReached_core [OF pl] retryAck_signing [OF ack] pendingLimitReached_signing [OF pl]
      by simp_all
    have S: "getLastState e1 = getLastState e" by (rule getLastState_core [OF c(1)])
    have "signing e' = signing e \<or> (\<exists>e3 r3. r1 = Inr () \<and> \<not> lim \<and>
        nextBlock V e2 (st_LastBlockHeight (getLastState e) + 1) = Some (e3, r3) \<and> (e' = e3 \<or> (\<exists>sh data. r3 = Inr (Some (sh, data)))))"
      using assms False ack pl c S
      by (cases r1; cases lim; cases "nextBlock V e2 (st_LastBlockHeight (getLastState e) + 1)")
        (auto simp: ProduceBlock_def Let_def bindS_def split: sum.splits option.splits)
    then consider "signing e' = signing e" | e3 sh data where "r1 = Inr ()" "\<not> lim"
        "nextBlock V e2 (st_LastBlockHeight (getLastState e) + 1) = Some (e3, Inr (Some (sh, data)))"
      using nextBlock_signing c by metis
    then show thesis
    proof cases
      case 1
      then show thesis by (rule early)
    next
      case (2 e3 sh data)
      then have "finishBlock V w e3 (st_LastBlockHeight (getLastState e) + 1) sh data = Some (e', r)"
        using assms False ack pl S by (auto simp: ProduceBlock_def Let_def)
      then show thesis using finished c 2 by blast
    qed
  qed
qed

section \<open>Restarting\<close>

context block_producer
begin

lemma nextBlock_pending:
  assumes "producer_inv V view e" and "x_lastState e = Some S"
    and "nextBlock V e (st_LastBlockHeight S + 1) = Some (e', Inr (Some (sh, data)))"
  shows "\<exists>sh'. pending_in (xe_store V) (view (x_store e')) sh' data \<and> sh_Header sh' = sh_Header sh"
proof (cases "pendingBlockAt V e (st_LastBlockHeight S + 1)")
  case (Inl err)
  then show ?thesis using assms(3) by (simp add: nextBlock_def)
next
  case (Inr pb)
  show ?thesis
  proof (cases pb)
    case (Some b)
    then have "e' = e" "b = (sh, data)" using assms(3) Inr by (auto simp: nextBlock_def)
    then show ?thesis using pendingBlockAt_in [of e _ sh data] Inr Some by blast
  next
    case None
    obtain e1 bd re where rb: "RetrieveBatch V e = Some (e1, bd, re)"
      using assms(3) Inr None by (cases "RetrieveBatch V e") (auto simp: nextBlock_def)
    have core: "core e1 = core e" using RetrieveBatch_core [OF rb] .
    obtain b d' where cb: "CreateBlock V e1 (st_LastBlockHeight S + 1) b = Inr (sh, data)"
      and sv: "savePendingBlock (xe_store V) (x_store e1) sh data = (d', None)" and e': "e' = e1\<lparr>x_store := d'\<rparr>"
      using assms(3) Inr None rb
      by (auto simp: nextBlock_def on_store_def failing_def bindS_def
          split: option.splits retrieve_error.splits sum.splits prod.splits)
    have "plain (s_crypto (xe_store V)) sh"
      using CreateBlock_extends [OF _ _ cb] core assms(1,2) by (simp add: core_def producer_inv_def)
    from savePendingBlock_view [OF sv this] obtain hb db sh' where
      "view d' = (view (x_store e1))(GetMetaKey headerKey \<mapsto> hb, GetMetaKey dataKey \<mapsto> db)"
      "decoded (xe_store V) hb db sh' data" "sh_Header sh' = sh_Header sh" by blast
    then show ?thesis using e' pending_keys(3) by (auto simp: pending_in_def)
  qed
qed

text \<open>A failed call of an executor that is not based leaves the chain and the state as they are.\<close>

lemma finishBlock_failed:
  assumes "finishBlock V w e n sh data = Some (e', Inl err)" and "\<not> xe_BasedSequencer V"
  shows "view (x_store e') = view (x_store e)" and "x_lastState e' = x_lastState e"
proof -
  have fail: "view (x_store e3) = view (x_store e2) \<and> x_lastState e3 = x_lastState e2"
    if "validateAndCommit V w e2 sh2 data sig st n = Some (e3, Inl err)" for e2 e3 sh2 sig st
    using that assms(2) Commit_view(2)
    by (auto simp: validateAndCommit_def Let_def critical_def sendCriticalError_def split: prod.splits option.splits sum.splits)
  from assms(1) have "view (x_store e') = view (x_store e) \<and> x_lastState e' = x_lastState e"
  proof (cases rule: finishBlock_cases)
    case unsigned
    then show ?thesis by (simp add: core_def)
  next
    case (signed e1 e2 r2)
    then show ?thesis using fail [of e2] by (auto simp: core_def)
  qed
  then show "view (x_store e') = view (x_store e)" "x_lastState e' = x_lastState e" by simp_all
qed

end

lemma SyncToHeight_in_sync:
  "(\<And>f. el_GetLatestHeight X = Some f \<Longrightarrow> f (snd s) = Inr n) \<Longrightarrow> SyncToHeight E X g s n = Some (s, Inr ())"
  by (cases s; cases "el_GetLatestHeight X") (simp_all add: SyncToHeight_def)

locale reliable_producer = block_producer V view + reliable_datastore "s_ds (xe_store V)" view
  for V :: "('d, 'k, 'x, 'q) executor_env" and view :: "'d \<Rightarrow> (string \<rightharpoonup> bytes)"
begin

lemma get_total_clean:
  "clean_path k \<Longrightarrow> db_Get (xe_store V) d k = (case view d k of None \<Rightarrow> Inl (ErrDs ErrNotFound) | Some v \<Rightarrow> Inr v)"
  by (simp add: db_Get_def newKey_clean get_total split: option.splits)

lemma storeInitialState_view:
  assumes "GetState (xe_store V) d = Inr S" and "height_of (view d) = st_LastBlockHeight S"
    and "stored_state (xe_store V) (view d) (st_LastBlockHeight S) S" and "storeInitialState (xe_store V) d S = (d', None)"
  shows "view d' = view d"
proof -
  obtain c where "Height (xe_store V) d = Inr c" using assms(1) by (auto simp: GetState_def bindE_eq_Inr)
  then have h: "Height (xe_store V) d = Inr (st_LastBlockHeight S)" using Height_view assms(2) by simp
  obtain b where b: "State_MarshalBinary (s_codec (xe_store V)) S = Some b" "view d (getStateAtHeightKey (st_LastBlockHeight S)) = Some b"
    using assms(3) by (auto simp: stored_state_def)
  obtain ops where ops: "bindE (NewBatch (xe_store V) d) (\<lambda>ops. bindE (SetHeight (xe_store V) d ops (st_LastBlockHeight S)) (\<lambda>ops.
      UpdateState (xe_store V) d ops S)) = Inr ops" and v: "view d' = apply_ops (view d) ops"
    using assms(4) commit_result_view(1) by (fastforce simp: storeInitialState_def split: prod.splits)
  have "ops = [DPut (getStateAtHeightKey (st_LastBlockHeight S)) b]"
    using ops h b(1) by (auto simp: bindE_eq_Inr SetHeight_def dest!: NewBatch_Inr UpdateState_ops)
  then show ?thesis using v b(2) by (simp add: fun_upd_idem)
qed

lemma migrate_none:
  assumes "view d (getHeaderKey (st_LastBlockHeight S + 1)) = None"
  shows "migrateLegacyPendingBlock (xe_store V) d S = (d, None)"
  using assms get_total_clean [OF clean_height_keys(1)]
  by (simp add: migrateLegacyPendingBlock_def Let_def GetBlockData_def GetHeader_def IsNotFound_def)

lemma loadLastBlockInfo_ok:
  assumes "chain (xe_store V) (xe_genesis V) (view d) (st_LastBlockHeight S)" and "st_LastBlockHeight S < - 1"
  shows "info_ok (xe_store V) (xe_genesis V) (view d) S (loadLastBlockInfo (xe_store V) d (st_LastBlockHeight S))"
proof (cases "loadLastBlockInfo (xe_store V) d (st_LastBlockHeight S)")
  case None
  then show ?thesis by (simp add: info_ok_def)
next
  case (Some i)
  let ?n = "st_LastBlockHeight S"
  have "\<exists>phdr pdata. stored_block (xe_store V) (view d) ?n phdr pdata \<and>
      li_headerHash i = Header_Hash (s_crypto (xe_store V)) (s_codec (xe_store V)) (s_wire (xe_store V)) phdr \<and>
      li_dataHash i = Data_Hash (s_crypto (xe_store V)) (s_codec (xe_store V)) pdata"
    if g: "g_InitialHeight (xe_genesis V) < ?n + 1"
  proof -
    obtain h data where bd: "GetBlockData (xe_store V) d ?n = Inr (h, data)"
      and i: "li_headerHash i = Header_Hash (s_crypto (xe_store V)) (s_codec (xe_store V)) (s_wire (xe_store V)) (sh_Header h)"
        "li_dataHash i = Data_Hash (s_crypto (xe_store V)) (s_codec (xe_store V)) data"
      using Some by (auto simp: loadLastBlockInfo_def split: if_splits sum.splits)
    have "g_InitialHeight (xe_genesis V) \<le> ?n" using g unat_Suc_u64 [OF assms(2)] by (simp add: u64_order)
    then obtain hdr data' where "stored_block (xe_store V) (view d) ?n hdr data'"
      using assms(1) unfolding chain_def by blast
    then obtain sig where "view d (getSignatureKey ?n) = Some sig" by (auto simp: stored_block_def blocks_of_def split: option.splits)
    then have "GetSignature (xe_store V) d ?n = Inr sig" using get_total_clean [OF clean_height_keys(3)] by (simp add: GetSignature_def)
    from GetBlockData_view [OF bd this] i show ?thesis by blast
  qed
  then show ?thesis using Some by (simp add: info_ok_def)
qed

lemma loadState_stored:
  assumes "GetState (xe_store V) (x_store e) = Inr S" and "st_NextProposerAddress S \<noteq> []" and "loadState V e = Some (e', Inr S')"
  shows "e' = e \<and> S' = S"
  using assms by (auto simp: loadState_def Let_def split: option.splits)

lemma finalize_fields: "finalize V e n = Some (e', r) \<Longrightarrow> core e' = core e \<and> signing e' = signing e"
  using finalize_core finalize_signing by blast

text \<open>An executor that starts on the store of a chain resumes it: the store is unchanged, the state is the stored one, and
  the flag says whether the store holds a pending block.\<close>

lemma Start_resumes:
  assumes inv: "chain_inv (xe_store V) (xe_genesis V) (view d) (Some S) info" and gs: "GetState (xe_store V) d = Inr S"
    and max: "st_LastBlockHeight S < - 1" and "st_NextProposerAddress S \<noteq> []"
    and fresh: "view d (getHeaderKey (st_LastBlockHeight S + 1)) = None" and raft: "w_raft w = None"
    and sync: "\<And>f. el_GetLatestHeight (xe_exec V) = Some f \<Longrightarrow> f x = Inr (st_LastBlockHeight S)"
    and new: "NewExecutor V lt d x q = Inr e0" and start: "Start V w e0 = Some (e', Inr ())"
  shows "producer_inv V view e'" and "view (x_store e') = view d" and "x_lastState e' = Some S"
    and "x_hasPendingBlock e' \<longleftrightarrow> view d (GetMetaKey headerKey) \<noteq> None" and "x_signed e' = []"
proof -
  let ?e = "e0\<lparr>x_started := True\<rparr>"
  have e0: "x_store e0 = d" "x_exec e0 = x" "x_lastBlockInfo e0 = None" "\<not> x_hasPendingBlock e0" "x_signed e0 = []" "\<not> x_started e0"
    using new by (auto simp: NewExecutor_def split: if_splits)
  have init: "initializeState V w ?e = Some (e', Inr ())"
    using start e0(6) by (auto simp: Start_def split: option.splits prod.splits sum.splits)
  obtain e1 S1 where ld: "loadState V ?e = Some (e1, Inr S1)"
    and k1: "bindS (failing e1 (checkRaft (xe_store V) w (x_store e1) S1)) (\<lambda>e _.
      bindS (on_store (setInitialState V e S1) (\<lambda>d. storeInitialState (xe_store V) d S1)) (\<lambda>e _.
      bindS (on_store e (\<lambda>d. migrateLegacyPendingBlock (xe_store V) d (getLastState e))) (\<lambda>e _.
      syncAndVerify V w (warmCaches V e S1) (syncTarget w S1)))) = Some (e', Inr ())"
    using init unfolding initializeState_def bindS_Inr [of "loadState V ?e"] by blast
  have e1: "e1 = ?e" "S1 = S" using loadState_stored [OF _ assms(4) ld] gs e0(1) by simp_all
  let ?e2 = "setInitialState V ?e S"
  have ci: "height_of (view d) = st_LastBlockHeight S" "stored_state (xe_store V) (view d) (st_LastBlockHeight S) S"
    "chain (xe_store V) (xe_genesis V) (view d) (st_LastBlockHeight S)" using inv by (simp_all add: chain_inv_def)
  have st2: "x_store ?e2 = d" using e0(1) by (simp add: setInitialState_def)
  obtain d2 where si: "storeInitialState (xe_store V) d S = (d2, None)"
    and k2: "bindS (on_store (?e2\<lparr>x_store := d2\<rparr>) (\<lambda>d. migrateLegacyPendingBlock (xe_store V) d S)) (\<lambda>e _.
      syncAndVerify V w (warmCaches V e S) (st_LastBlockHeight S)) = Some (e', Inr ())"
    using k1 e1 raft st2 getLastState_def [of "?e2\<lparr>x_store := _\<rparr>"]
    by (cases "storeInitialState (xe_store V) d S"; cases "snd (storeInitialState (xe_store V) d S)")
      (simp_all add: checkRaft_def failing_def on_store_def syncTarget_def, simp add: setInitialState_def)
  have v2: "view d2 = view d" by (rule storeInitialState_view [OF gs ci(1,2) si])
  let ?e3 = "?e2\<lparr>x_store := d2\<rparr>" and ?e4 = "warmCaches V (?e2\<lparr>x_store := d2\<rparr>) S"
  have k3: "syncAndVerify V w ?e4 (st_LastBlockHeight S) = Some (e', Inr ())"
    using k2 migrate_none [of d2 S] fresh v2 by (simp add: on_store_def failing_def)
  have f4: "x_store ?e4 = d2" "x_exec ?e4 = x" "x_lastState ?e4 = Some S" "x_signed ?e4 = []"
    "x_hasPendingBlock ?e4 \<longleftrightarrow> view d (GetMetaKey headerKey) \<noteq> None"
    "x_lastBlockInfo ?e4 = loadLastBlockInfo (xe_store V) d2 (st_LastBlockHeight S)"
    using e0 v2 get_total_clean [OF clean_meta_key [OF pending_keys(1)], of d2]
    by (simp_all add: warmCaches_def setInitialState_def GetMetadata_def Let_def split: sum.split option.split)
  have "syncExecution V ?e4 (st_LastBlockHeight S) = Some (?e4, Inr ())"
    using SyncToHeight_in_sync [of "xe_exec V" "(x_store ?e4, x_exec ?e4)" "st_LastBlockHeight S" "xe_store V" "xe_genesis V"] sync f4(2)
    by (simp add: syncExecution_def)
  then have core: "core e' = core ?e4 \<and> signing e' = signing ?e4"
    using k3 finalize_fields raft by (auto simp: syncAndVerify_def checkRaftAfterSync_def failing_def bindS_Inr split: if_splits)
  have "pending_ok (xe_store V) (xe_genesis V) (view d) S" using inv by (simp add: chain_inv_def)
  then show "producer_inv V view e'"
    using core f4 v2 ci inv loadLastBlockInfo_ok [of d2 S] max by (simp add: core_def producer_inv_def chain_inv_def)
  show "view (x_store e') = view d" "x_lastState e' = Some S" "x_signed e' = []"
    "x_hasPendingBlock e' \<longleftrightarrow> view d (GetMetaKey headerKey) \<noteq> None"
    using core f4 v2 by (simp_all add: core_def signing_def)
qed

text \<open>With a pending block of the next height, the restarted executor signs only that block.\<close>

lemma pending_block_signed:
  assumes "producer_inv V view e" and "x_lastState e = Some S" and "x_hasPendingBlock e"
    and "pending_in (xe_store V) (view (x_store e)) sh data" and "Header_Height (sh_Header sh) = st_LastBlockHeight S + 1"
    and "ProduceBlock V w e = Some (e', r)"
  shows "x_signed e' = x_signed e \<or> (\<exists>p. xe_SignatureBytes V (sh_Header sh) = Inr p \<and> x_signed e' = x_signed e @ [p])"
  using assms(6)
proof (cases rule: ProduceBlock_cases)
  case early
  then show ?thesis by (simp add: signing_def)
next
  case (finished e2 e3 sh3 data3)
  have n: "getLastState e = S" using assms(2) by (simp add: getLastState_def)
  have st: "x_store e2 = x_store e" "x_hasPendingBlock e2" using finished(1,2) assms(3) by (simp_all add: core_def signing_def)
  obtain hb db where b: "view (x_store e) (GetMetaKey headerKey) = Some hb" "view (x_store e) (GetMetaKey dataKey) = Some db"
    and dec: "decoded (xe_store V) hb db sh data" using assms(4) by (auto simp: pending_in_def)
  have "getPendingBlock (xe_store V) (x_store e2) = Inr (Some (sh, data))"
    using b dec st(1) get_total_clean [OF clean_meta_key] pending_keys
    by (simp add: getPendingBlock_def GetMetadata_def decoded_def)
  then have "pendingBlockAt V e2 (st_LastBlockHeight S + 1) = Inr (Some (sh, data))"
    using st(2) assms(5) by (simp add: pendingBlockAt_def)
  then have "e3 = e2 \<and> sh3 = sh" using finished(3) n by (simp add: nextBlock_def)
  then show ?thesis using finishBlock_signing(1) [OF finished(4)] finished(2) by (auto simp: signing_def)
qed

end

section \<open>In the same process\<close>

lemma nextBlock_fresh:
  assumes "\<not> x_hasPendingBlock e" and "nextBlock V e n = Some (e', Inr (Some (sh, data)))"
  shows "\<exists>e1 batch re. RetrieveBatch V e = Some (e1, Some batch, re) \<and> CreateBlock V e1 n batch = Inr (sh, data)"
proof -
  obtain e1 bd re where rb: "RetrieveBatch V e = Some (e1, bd, re)"
    using assms by (cases "RetrieveBatch V e") (auto simp: nextBlock_def pendingBlockAt_def)
  then show ?thesis
    using assms
    by (auto simp: nextBlock_def pendingBlockAt_def bindS_def split: option.splits retrieve_error.splits sum.splits prod.splits)
qed

lemma CreateBlock_height: "CreateBlock V e n batch = Inr (sh, data) \<Longrightarrow> Header_Height (sh_Header sh) = n"
  by (auto simp: CreateBlock_def newBlock_def Let_def bindE_eq_Inr Header_Height_def)

lemma finishBlock_failed_state:
  assumes "finishBlock V w e n sh data = Some (e', Inl err)" and "\<not> xe_BasedSequencer V"
  shows "x_lastState e' = x_lastState e"
proof -
  have fail: "x_lastState e3 = x_lastState e2" if "validateAndCommit V w e2 sh2 data sig st n = Some (e3, Inl err)" for e2 e3 sh2 sig st
    using that assms(2)
    by (auto simp: validateAndCommit_def Let_def critical_def sendCriticalError_def split: prod.splits option.splits sum.splits)
  from assms(1) show ?thesis
  proof (cases rule: finishBlock_cases)
    case unsigned
    then show ?thesis by (simp add: core_def)
  next
    case (signed e1 e2 r2)
    then show ?thesis using fail [of e2] by (auto simp: core_def)
  qed
qed

lemma nextBlock_lastState:
  assumes "nextBlock V e n = Some (e', r)"
  shows "x_lastState e' = x_lastState e"
proof (cases "pendingBlockAt V e n = Inr None")
  case False
  then show ?thesis using assms by (auto simp: nextBlock_def split: sum.splits option.splits)
next
  case True
  then obtain e1 bd re where rb: "RetrieveBatch V e = Some (e1, bd, re)"
    using assms by (cases "RetrieveBatch V e") (auto simp: nextBlock_def)
  have "x_lastState e' = x_lastState e1"
    using assms True rb
    by (auto simp: nextBlock_def bindS_def on_store_def failing_def split: option.splits retrieve_error.splits sum.splits prod.splits)
  then show ?thesis using RetrieveBatch_core [OF rb] by (simp add: core_def)
qed

text \<open>What a call signs when the flag is not set: the header of a block made from a batch retrieved in that call.\<close>

definition signs_new_block :: "('d, 'k, 'x, 'q) executor_env \<Rightarrow> u64 \<Rightarrow> Header \<Rightarrow> bytes \<Rightarrow> bool" where
  "signs_new_block V n hdr p \<longleftrightarrow> xe_SignatureBytes V hdr = Inr p \<and> Header_Height hdr = n \<and>
     (\<exists>e e1 batch re sh data. RetrieveBatch V e = Some (e1, Some batch, re) \<and>
        CreateBlock V e1 n batch = Inr (sh, data) \<and> sh_Header sh = hdr)"

lemma ProduceBlock_new:
  assumes "\<not> x_hasPendingBlock e" and "ProduceBlock V w e = Some (e', r)" and "x_signed e' = x_signed e @ [p]"
  shows "\<exists>hdr. signs_new_block V (st_LastBlockHeight (getLastState e) + 1) hdr p"
  using assms(2)
proof (cases rule: ProduceBlock_cases)
  case early
  then show ?thesis using assms(3) by (simp add: signing_def)
next
  case (finished e2 e3 sh data)
  have "\<not> x_hasPendingBlock e2" using finished(2) assms(1) by (simp add: signing_def)
  from nextBlock_fresh [OF this finished(3)] obtain e1 batch re where
    c: "RetrieveBatch V e2 = Some (e1, Some batch, re)" "CreateBlock V e1 (st_LastBlockHeight (getLastState e) + 1) batch = Inr (sh, data)"
    by blast
  have "signing e3 = signing e" using nextBlock_signing [OF finished(3)] finished(2) by simp
  then have "xe_SignatureBytes V (sh_Header sh) = Inr p"
    using finishBlock_signing(1) [OF finished(4)] assms(3) by (auto simp: signing_def)
  then show ?thesis using c CreateBlock_height [OF c(2)] unfolding signs_new_block_def by blast
qed

lemma ProduceBlock_failed:
  assumes "\<not> x_hasPendingBlock e" and "\<not> xe_BasedSequencer V" and "ProduceBlock V w e = Some (e', Inl err)"
    and "x_signed e' \<noteq> x_signed e"
  shows "\<not> x_hasPendingBlock e' \<and> getLastState e' = getLastState e"
  using assms(3)
proof (cases rule: ProduceBlock_cases)
  case early
  then show ?thesis using assms(4) by (simp add: signing_def)
next
  case (finished e2 e3 sh data)
  have "\<not> x_hasPendingBlock e3"
    using nextBlock_signing [OF finished(3)] finished(2) assms(1) by (simp add: signing_def)
  then have "\<not> x_hasPendingBlock e'" using finishBlock_signing(2) [OF finished(4)] by simp
  moreover have "x_lastState e' = x_lastState e"
    using finishBlock_failed_state [OF finished(4) assms(2)] nextBlock_lastState [OF finished(3)] finished(1) by (simp add: core_def)
  ultimately show ?thesis by (simp add: getLastState_def)
qed

end
