(* ===== verification/Dummy_Executor.thy ===== *)
theory Dummy_Executor
  imports Replayer
begin

text \<open>
  The executor of \<open>core/execution/dummy.go\<close>: it hashes transactions onto the previous root and filters by size. It is an
  implementation of the interface to the execution layer, so the contracts the other components rely on are proved for
  it. \<open>sha512\<close> is the digest of the standard library.
\<close>

record DummyExecutor =
  de_stateRoot :: bytes
  de_pendingRoots :: "u64 \<rightharpoonup> bytes"
  de_injectedTxs :: "bytes list"

definition NewDummyExecutor :: DummyExecutor where
  "NewDummyExecutor = \<lparr>de_stateRoot = [1, 2, 3], de_pendingRoots = Map.empty, de_injectedTxs = []\<rparr>"

definition Dummy_InitChain :: "(bytes \<Rightarrow> bytes) \<Rightarrow> DummyExecutor \<Rightarrow> instant \<Rightarrow> u64 \<Rightarrow> string \<Rightarrow> DummyExecutor \<times> (string + bytes)" where
  "Dummy_InitChain sha512 e genesisTime initialHeight chainID =
     (let root = sha512 (de_stateRoot e) in (e\<lparr>de_stateRoot := root\<rparr>, Inr root))"

definition Dummy_InjectTx :: "DummyExecutor \<Rightarrow> bytes \<Rightarrow> DummyExecutor" where
  "Dummy_InjectTx e tx = e\<lparr>de_injectedTxs := de_injectedTxs e @ [tx]\<rparr>"

definition removeExecutedTxs :: "DummyExecutor \<Rightarrow> bytes list \<Rightarrow> DummyExecutor" where
  "removeExecutedTxs e txs = e\<lparr>de_injectedTxs := filter (\<lambda>tx. tx \<notin> set txs) (de_injectedTxs e)\<rparr>"

definition Dummy_ExecuteTxs :: "(bytes \<Rightarrow> bytes) \<Rightarrow> DummyExecutor \<Rightarrow> bytes list \<Rightarrow> u64 \<Rightarrow> instant \<Rightarrow> bytes \<Rightarrow>
    DummyExecutor \<times> (string + ExecuteResult)" where
  "Dummy_ExecuteTxs sha512 e txs blockHeight timestamp prevStateRoot =
     (let pending = sha512 (prevStateRoot @ concat txs);
          e = e\<lparr>de_pendingRoots := (de_pendingRoots e)(blockHeight \<mapsto> pending)\<rparr>
      in (removeExecutedTxs e txs, Inr \<lparr>er_UpdatedStateRoot = pending, er_NextProposerAddress = []\<rparr>))"

definition Dummy_SetFinal :: "DummyExecutor \<Rightarrow> u64 \<Rightarrow> DummyExecutor \<times> string option" where
  "Dummy_SetFinal e blockHeight =
     (case de_pendingRoots e blockHeight of
        Some pending \<Rightarrow>
          (e\<lparr>de_stateRoot := pending, de_pendingRoots := (de_pendingRoots e)(blockHeight := None)\<rparr>, None)
      | None \<Rightarrow> (e, Some ''cannot set finalized block''))"

fun dummy_filter_loop :: "u64 \<Rightarrow> u64 \<Rightarrow> bool \<Rightarrow> bytes list \<Rightarrow> FilterStatus list" where
  "dummy_filter_loop maxBytes cumulativeBytes limitReached [] = []"
| "dummy_filter_loop maxBytes cumulativeBytes limitReached (tx # txs) =
     (let txBytes = word_of_nat (length tx) in
      if tx = [] then FilterRemove # dummy_filter_loop maxBytes cumulativeBytes limitReached txs
      else if 0 < maxBytes \<and> maxBytes < txBytes
      then FilterRemove # dummy_filter_loop maxBytes cumulativeBytes limitReached txs
      else if limitReached then FilterPostpone # dummy_filter_loop maxBytes cumulativeBytes limitReached txs
      else if 0 < maxBytes \<and> maxBytes < cumulativeBytes + txBytes
      then FilterPostpone # dummy_filter_loop maxBytes cumulativeBytes True txs
      else FilterOK # dummy_filter_loop maxBytes (cumulativeBytes + txBytes) limitReached txs)"

definition Dummy_FilterTxs :: "bytes list \<Rightarrow> u64 \<Rightarrow> u64 \<Rightarrow> bool \<Rightarrow> string + FilterStatus list" where
  "Dummy_FilterTxs txs maxBytes maxGas hasForceIncludedTransaction = Inr (dummy_filter_loop maxBytes 0 False txs)"

section \<open>As the execution layer\<close>

definition dummy_layer :: "(bytes \<Rightarrow> bytes) \<Rightarrow> DummyExecutor exec_layer" where
  "dummy_layer sha512 = \<lparr>el_InitChain = Dummy_InitChain sha512, el_ExecuteTxs = Dummy_ExecuteTxs sha512,
     el_SetFinal = Dummy_SetFinal, el_GetLatestHeight = None, el_Rollback = None\<rparr>"

definition dummy_client :: "(bytes \<Rightarrow> bytes) \<Rightarrow> DummyExecutor \<Rightarrow> exec_client" where
  "dummy_client sha512 e =
     \<lparr>ec_InitChain = (\<lambda>t h c. snd (Dummy_InitChain sha512 e t h c)), ec_GetTxs = Inr (de_injectedTxs e),
      ec_ExecuteTxs = (\<lambda>txs h t root. snd (Dummy_ExecuteTxs sha512 e txs h t root)),
      ec_SetFinal = (\<lambda>h. snd (Dummy_SetFinal e h)), ec_GetExecutionInfo = Inr 0, ec_FilterTxs = Dummy_FilterTxs\<rparr>"

lemma length_dummy_filter_loop: "length (dummy_filter_loop maxBytes cumulativeBytes limitReached txs) = length txs"
  by (induction txs arbitrary: cumulativeBytes limitReached) (simp_all add: Let_def)

lemma dummy_filter_contract: "filter_contract (dummy_client sha512 e)"
  by (auto simp: filter_contract_def dummy_client_def Dummy_FilterTxs_def length_dummy_filter_loop)

end
