(* ===== verification/Executor_Properties.thy ===== *)
theory Executor_Properties
  imports Executor_Restart Chain Dummy_Executor
begin

text \<open>
  What the block producer guarantees, and where it does not: the chain it builds, what a restarted executor does with
  the block that was pending, and what a running one does with it. The concrete executor runs on the in-memory store
  with the solo sequencer and the dummy execution layer.
\<close>

section \<open>A concrete executor\<close>

definition ex_gen :: Genesis where
  "ex_gen = \<lparr>g_ChainID = ''c'', g_StartTime = 1000, g_InitialHeight = 1, g_ProposerAddress = Some (7 # ex_key),
     g_DAStartHeight = 0, g_DAEpochForcedInclusion = 50\<rparr>"

definition ex_env :: "'d datastore \<Rightarrow> ('d, bytes, DummyExecutor, SoloSequencer) executor_env" where
  "ex_env DS = \<lparr>xe_store = store_on DS, xe_exec = dummy_layer id,
     xe_sequencer = solo_sequencer (dummy_client id NewDummyExecutor) 2000,
     xe_signer = Some \<lparr>sn_GetPublic = Inr ex_key, sn_GetAddress = Inr (7 # ex_key), sn_Sign = (\<lambda>bz. Inr (ex_key @ bz))\<rparr>,
     xe_genesis = ex_gen, xe_BasedSequencer = False, xe_LazyMode = False, xe_BlockTime = 1, xe_MaxPendingHeadersAndData = 0,
     xe_DefaultMaxBlobSize = 1000, xe_SignatureBytes = DefaultAggregatorNodeSignatureBytesProvider pb_codec pb_wire,
     xe_ValidatorHasher = DefaultValidatorHasherProvider\<rparr>"

lemma ex_env_sel [simp]: "xe_store (ex_env DS) = store_on DS" "xe_genesis (ex_env DS) = ex_gen"
  "xe_exec (ex_env DS) = dummy_layer id" "xe_BasedSequencer (ex_env DS) = False"
  "xe_SignatureBytes (ex_env DS) = DefaultAggregatorNodeSignatureBytesProvider pb_codec pb_wire"
  "xe_MaxPendingHeadersAndData (ex_env DS) = 0"
  by (simp_all add: ex_env_def)

interpretation ex_faulty: block_producer "ex_env faulty_ds" "\<lambda>s. map_of (fst s)"
  unfolding block_producer_def block_producer_axioms_def
  using faulty_store.block_store_axioms by (simp add: ex_gen_def)

interpretation ex_mem: reliable_producer "ex_env mem_ds" map_of
  unfolding reliable_producer_def block_producer_def block_producer_axioms_def
  using mem_store.block_store_axioms mem.reliable_datastore_axioms by (simp add: ex_gen_def)

definition ex_S :: State where
  "ex_S = \<lparr>st_Version = \<lparr>ver_Block = 0, ver_App = 0\<rparr>, st_ChainID = ''c'', st_InitialHeight = 1, st_LastBlockHeight = 0,
     st_LastBlockTime = 1000, st_LastHeaderHash = [], st_DAHeight = 0, st_AppHash = [1], st_NextProposerAddress = 7 # ex_key\<rparr>"

definition ex_solo :: "bytes list \<Rightarrow> SoloSequencer" where
  "ex_solo txs = \<lparr>so_id = map of_char ''c'', so_daHeight = 0, so_queue = txs, so_queueBytes = 0, so_maxQueueBytes = 0\<rparr>"

definition ex_surroundings :: "raft_node option \<Rightarrow> surroundings" where
  "ex_surroundings r = \<lparr>w_raft = r, w_ctxErr = False, w_stopped = (\<lambda>_. False), w_NumPendingHeaders = 0, w_NumPendingData = 0,
     w_LastSubmittedHeaderHeight = 0, w_LastSubmittedDataHeight = 0\<rparr>"

definition ex_raft :: raft_node where
  "ex_raft = \<lparr>rn_HasQuorum = (\<lambda>_. True), rn_GetState = (\<lambda>_. \<lparr>rb_Height = 0, rb_Hash = [], rb_Timestamp = 0, rb_Header = [],
     rb_Data = [], rb_LastSubmittedDaHeaderHeight = 0, rb_LastSubmittedDaDataHeight = 0\<rparr>), rn_Broadcast = (\<lambda>_. Some ''timeout'')\<rparr>"

definition ex_header1 :: "bytes list \<Rightarrow> Header" where
  "ex_header1 txs = \<lparr>h_BaseHeader = \<lparr>bh_Height = 1, bh_Time = 1000, bh_ChainID = ''c''\<rparr>,
     h_Version = \<lparr>ver_Block = 0, ver_App = 0\<rparr>, h_LastHeaderHash = [],
     h_DataHash = (if txs = [] then DataHashForEmptyTxs else DACommitment plain_crypto pb_codec
       \<lparr>d_Metadata = Some \<lparr>md_ChainID = ''c'', md_Height = 1, md_Time = 1000, md_LastDataHash = []\<rparr>, d_Txs = txs\<rparr>),
     h_AppHash = [1], h_ValidatorHash = [], h_ProposerAddress = 7 # ex_key, h_Legacy = None, h_cachedHash = None\<rparr>"

definition ex_signed1 :: "bytes list \<Rightarrow> bytes SignedHeader" where
  "ex_signed1 txs = \<lparr>sh_Header = ex_header1 txs, sh_Signature = [],
     sh_Signer = \<lparr>sg_PubKey = Some ex_key, sg_Address = 7 # ex_key, sg_marshalledPubKey = []\<rparr>,
     sh_aggregatorProvider = None, sh_syncNodeProvider = None\<rparr>"

definition ex_data1 :: "bytes list \<Rightarrow> Data" where
  "ex_data1 txs = \<lparr>d_Metadata = Some \<lparr>md_ChainID = ''c'', md_Height = 1, md_Time = 1000, md_LastDataHash = []\<rparr>, d_Txs = txs\<rparr>"

text \<open>The executor before its first block.\<close>

definition ex_at_genesis :: "('d, bytes, DummyExecutor, SoloSequencer) Executor \<Rightarrow> bytes list \<Rightarrow> bool" where
  "ex_at_genesis e txs \<longleftrightarrow> x_lastState e = Some ex_S \<and> \<not> x_hasPendingBlock e \<and> x_lastBlockInfo e = None \<and>
     \<not> x_pendingBatchAck e \<and> x_sequencer e = ex_solo txs"

lemma ex_create:
  assumes "ex_at_genesis e txs" and "bd_Transactions b = txs"
  shows "CreateBlock (ex_env DS) (e\<lparr>x_sequencer := q\<rparr>) 1 b = Inr (ex_signed1 txs, ex_data1 txs)"
  using assms
  by (simp add: ex_at_genesis_def CreateBlock_def getLastState_def ex_gen_def proposerKey_def Let_def newBlock_def
      ex_header1_def ex_signed1_def ex_data1_def)
    (simp add: ex_S_def ex_env_def DefaultValidatorHasherProvider_def ex_gen_def)

lemma ex_batch:
  assumes "x_sequencer e = ex_solo txs" and "txs = [] \<or> txs = [[7]]"
  shows "\<exists>re. RetrieveBatch (ex_env DS) e = Some (e\<lparr>x_sequencer := ex_solo []\<rparr>,
    Some \<lparr>bd_Transactions = txs, bd_Time = 2000, bd_Data = []\<rparr>, re) \<and> (re = None \<or> re = Some NoTransactionsInBatch)"
  using assms
  by (auto simp: RetrieveBatch_def ex_env_def solo_sequencer_def Solo_GetNextBatch_def Let_def ex_gen_def ex_solo_def
      Solo_take_def dummy_client_def Dummy_FilterTxs_def Solo_putBack_def getMaxGas_def)

lemma ex_marshal1:
  "\<exists>hb. SignedHeader_MarshalBinary plain_crypto pb_codec pb_wire (ex_signed1 txs\<lparr>sh_Signature := sig\<rparr>) = Inr hb"
  "\<exists>db. Data_MarshalBinary pb_codec (ex_data1 txs) = Some db"
  by (simp_all add: SignedHeader_MarshalBinary_def SignedHeader_ToProto_def Signer_ToProto_def ex_signed1_def
      MarshalledPubKey_def plain_crypto_def pb_codec_def Data_MarshalBinary_def)

lemma ex_unsigned: "ex_signed1 txs\<lparr>sh_Signature := []\<rparr> = ex_signed1 txs"
  by (simp add: ex_signed1_def)

lemma ex_save:
  "\<exists>d' hb db. savePendingBlock (store_on mem_ds) d (ex_signed1 txs) (ex_data1 txs) = (d', None) \<and>
     map_of d' = (map_of d)(GetMetaKey headerKey \<mapsto> hb, GetMetaKey dataKey \<mapsto> db)"
proof -
  obtain hb db where m: "SignedHeader_MarshalBinary plain_crypto pb_codec pb_wire (ex_signed1 txs) = Inr hb"
    "Data_MarshalBinary pb_codec (ex_data1 txs) = Some db"
    using ex_marshal1(1) [of "[]" txs] ex_marshal1(2) [of txs] ex_unsigned [of txs] by auto
  let ?ops = "[DPut (GetMetaKey headerKey) hb, DPut (GetMetaKey dataKey) db]"
  obtain d' where c: "Commit (store_on mem_ds) d ?ops = (d', None)" using mem_store.Commit_succeeds by blast
  then have "savePendingBlock (store_on mem_ds) d (ex_signed1 txs) (ex_data1 txs) = (d', None)"
    using m ex_mem.pending_keys mem_store.new_key
    by (simp add: savePendingBlock_def mem_store.batch_total_ops commit_result_def)
  moreover have "map_of d' = (map_of d)(GetMetaKey headerKey \<mapsto> hb, GetMetaKey dataKey \<mapsto> db)"
    using mem_store.Commit_view(1) [OF c] by simp
  ultimately show ?thesis by blast
qed

lemma ex_next:
  assumes "ex_at_genesis e txs" and "txs = [] \<or> txs = [[7]]"
  shows "\<exists>d' hb db. nextBlock (ex_env mem_ds) e 1 =
      Some (e\<lparr>x_sequencer := ex_solo [], x_store := d'\<rparr>, Inr (Some (ex_signed1 txs, ex_data1 txs))) \<and>
    map_of d' = (map_of (x_store e))(GetMetaKey headerKey \<mapsto> hb, GetMetaKey dataKey \<mapsto> db)"
proof -
  obtain re where rb: "RetrieveBatch (ex_env mem_ds) e = Some (e\<lparr>x_sequencer := ex_solo []\<rparr>,
    Some \<lparr>bd_Transactions = txs, bd_Time = 2000, bd_Data = []\<rparr>, re)" and re: "re = None \<or> re = Some NoTransactionsInBatch"
    using ex_batch [of e txs] assms by (auto simp: ex_at_genesis_def)
  obtain d' hb db where sv: "savePendingBlock (store_on mem_ds) (x_store e) (ex_signed1 txs) (ex_data1 txs) = (d', None)"
    and v: "map_of d' = (map_of (x_store e))(GetMetaKey headerKey \<mapsto> hb, GetMetaKey dataKey \<mapsto> db)"
    using ex_save by blast
  have "nextBlock (ex_env mem_ds) e 1 =
      Some (e\<lparr>x_sequencer := ex_solo [], x_store := d'\<rparr>, Inr (Some (ex_signed1 txs, ex_data1 txs)))"
    using assms(1) rb re sv ex_create [OF assms(1), of "\<lparr>bd_Transactions = txs, bd_Time = 2000, bd_Data = []\<rparr>" mem_ds "ex_solo []"]
    by (auto simp: nextBlock_def pendingBlockAt_def ex_at_genesis_def on_store_def failing_def)
  with v show ?thesis by blast
qed

definition ex_payload :: "bytes list \<Rightarrow> bytes" where
  "ex_payload txs = enc_Header (Header_ToProto pb_wire (ex_header1 txs))"

definition ex_applied :: "bytes list \<Rightarrow> DummyExecutor \<Rightarrow> DummyExecutor" where
  "ex_applied txs x = fst (Dummy_ExecuteTxs id x txs 1 1000 [1])"

definition ex_S1 :: "bytes list \<Rightarrow> State" where
  "ex_S1 txs = NextState plain_crypto pb_codec pb_wire ex_S (ex_header1 txs) (1 # concat txs) []"

lemma ex_apply:
  assumes "x_lastState e = Some ex_S"
  shows "ApplyBlock (ex_env DS) w e (ex_header1 txs) (ex_data1 txs) = Some (e\<lparr>x_exec := ex_applied txs (x_exec e)\<rparr>, Inr (ex_S1 txs))"
proof -
  have h: "Header_Height (ex_header1 txs) = 1" "Header_Time (ex_header1 txs) = 1000"
    by (simp_all add: ex_header1_def Header_Height_def Header_Time_def unix_nano_def)
  then show ?thesis
    using assms
    by (simp add: ApplyBlock_def executeTxsWithRetry_def MaxRetriesBeforeHalt_def numeral_3_eq_3 dummy_layer_def getLastState_def
        ex_S_def ex_data1_def Dummy_ExecuteTxs_def Let_def ex_applied_def ex_S1_def)
qed

lemma ex_sign:
  "signHeader (ex_env DS) e (ex_header1 txs) = Some (e\<lparr>x_signed := x_signed e @ [ex_payload txs]\<rparr>, Inr (ex_key @ ex_payload txs))"
  by (simp add: signHeader_def ex_env_def DefaultAggregatorNodeSignatureBytesProvider_def Header_MarshalBinary_def
      ex_payload_def Let_def) (simp add: pb_codec_def)

lemma ex_sequence: "AssertValidSequence lt ex_S (ex_signed1 txs\<lparr>sh_Signature := sig\<rparr>) = (lt, None)"
  by (simp add: AssertValidSequence_def Let_def ex_S_def ex_signed1_def ex_header1_def Header_ChainID_def)

lemma ex_block_batch:
  assumes "map_of d getHeightKey = None"
  shows "\<exists>ops. blockBatch (store_on mem_ds) d (ex_signed1 txs\<lparr>sh_Signature := sig\<rparr>) (ex_data1 txs) sig 1 (ex_S1 txs\<lparr>st_DAHeight := da\<rparr>) = Inr ops"
proof -
  obtain hb db where m: "SignedHeader_MarshalBinary plain_crypto pb_codec pb_wire (ex_signed1 txs\<lparr>sh_Signature := sig\<rparr>) = Inr hb"
    "Data_MarshalBinary pb_codec (ex_data1 txs) = Some db"
    using ex_marshal1(1) [of sig txs] ex_marshal1(2) [of txs] by auto
  have h: "Height (store_on mem_ds) d = Inr 0"
    using mem_store.db_Get_total [OF clean_height_keys(5), of d] assms by (simp add: Height_def IsNotFound_def)
  have "st_LastBlockTime (ex_S1 txs\<lparr>st_DAHeight := da\<rparr>) = 1000"
    by (simp add: ex_S1_def ex_header1_def Header_Time_def unix_nano_def)
  then have "\<exists>b. State_MarshalBinary pb_codec (ex_S1 txs\<lparr>st_DAHeight := da\<rparr>) = Some b"
    by (simp add: State_MarshalBinary_def pb_codec_def enc_State_def State_ToProto_def Timestamp_of_def second_def int64_def)
  with m h show ?thesis
    by (auto simp: blockBatch_def SaveBlockData_def SaveBlockDataFromBytes_def Let_def SetHeight_def UpdateState_def
        mem_store.batch_total_ops)
qed

lemma ex_finish:
  assumes "x_lastState e = Some ex_S" and "HasQuorum w 1"
  shows "finishBlock (ex_env DS) w e 1 (ex_signed1 txs) (ex_data1 txs) =
    validateAndCommit (ex_env DS) w (e\<lparr>x_exec := ex_applied txs (x_exec e), x_signed := x_signed e @ [ex_payload txs]\<rparr>)
      (ex_signed1 txs\<lparr>sh_Signature := ex_key @ ex_payload txs\<rparr>) (ex_data1 txs) (ex_key @ ex_payload txs)
      (ex_S1 txs\<lparr>st_DAHeight := so_daHeight (x_sequencer e)\<rparr>) 1"
proof -
  have hdr: "sh_Header (ex_signed1 txs) = ex_header1 txs" by (simp add: ex_signed1_def)
  have da: "sqi_GetDAHeight (xe_sequencer (ex_env DS)) = so_daHeight" by (simp add: ex_env_def solo_sequencer_def)
  show ?thesis
    using assms(2) by (simp add: finishBlock_def hdr ex_apply [OF assms(1)] ex_sign Let_def da)
qed

lemma ex_finish_commits:
  assumes "x_lastState e = Some ex_S" and "map_of (x_store e) getHeightKey = None" and "w_raft w = None"
  shows "\<exists>e'. finishBlock (ex_env mem_ds) w e 1 (ex_signed1 txs) (ex_data1 txs) = Some (e', Inr ()) \<and>
    x_signed e' = x_signed e @ [ex_payload txs] \<and>
    x_lastState e' = Some (ex_S1 txs\<lparr>st_DAHeight := so_daHeight (x_sequencer e)\<rparr>)"
proof -
  let ?sh = "ex_signed1 txs\<lparr>sh_Signature := ex_key @ ex_payload txs\<rparr>" and ?st = "ex_S1 txs\<lparr>st_DAHeight := so_daHeight (x_sequencer e)\<rparr>"
  let ?e = "e\<lparr>x_exec := ex_applied txs (x_exec e), x_signed := x_signed e @ [ex_payload txs]\<rparr>"
  obtain ops where b: "blockBatch (store_on mem_ds) (x_store e) ?sh (ex_data1 txs) (ex_key @ ex_payload txs) 1 ?st = Inr ops"
    using ex_block_batch [OF assms(2)] by blast
  obtain d' where c: "Commit (store_on mem_ds) (x_store e) ops = (d', None)" using mem_store.Commit_succeeds by blast
  let ?e' = "afterCommit (ex_env mem_ds) (?e\<lparr>x_store := d'\<rparr>) ?sh (ex_data1 txs) (ex_key @ ex_payload txs) ?st"
  have S: "getLastState ?e = ex_S" using assms(1) by (simp add: getLastState_def)
  have "validateAndCommit (ex_env mem_ds) w ?e ?sh (ex_data1 txs) (ex_key @ ex_payload txs) ?st 1 = Some (?e', Inr ())"
    using b c assms(3) S by (simp add: validateAndCommit_def ex_sequence Let_def proposeToRaft_def)
  moreover have "HasQuorum w 1" using assms(3) by (simp add: HasQuorum_def)
  ultimately have "finishBlock (ex_env mem_ds) w e 1 (ex_signed1 txs) (ex_data1 txs) = Some (?e', Inr ())"
    using ex_finish [OF assms(1)] by simp
  moreover have "x_signed ?e' = x_signed e @ [ex_payload txs]" "x_lastState ?e' = Some ?st"
    using afterCommit_signing [of "ex_env mem_ds" "?e\<lparr>x_store := d'\<rparr>"] afterCommit_core [of "ex_env mem_ds" "?e\<lparr>x_store := d'\<rparr>"]
    by (simp_all add: core_def)
  ultimately show ?thesis by blast
qed

lemma ex_finish_fails:
  assumes "x_lastState e = Some ex_S" and "map_of (x_store e) getHeightKey = None" and "w_raft w = Some ex_raft"
  shows "\<exists>e'. finishBlock (ex_env mem_ds) w e 1 (ex_signed1 txs) (ex_data1 txs) = Some (e', Inl (ErrRaftBroadcast ''timeout'')) \<and>
    x_signed e' = x_signed e @ [ex_payload txs] \<and> x_store e' = x_store e \<and> x_sequencer e' = x_sequencer e \<and>
    x_lastState e' = x_lastState e \<and> x_lastBlockInfo e' = x_lastBlockInfo e \<and> x_hasPendingBlock e' = x_hasPendingBlock e \<and>
    x_pendingBatchAck e' = x_pendingBatchAck e"
proof -
  let ?sh = "ex_signed1 txs\<lparr>sh_Signature := ex_key @ ex_payload txs\<rparr>" and ?st = "ex_S1 txs\<lparr>st_DAHeight := so_daHeight (x_sequencer e)\<rparr>"
  let ?e = "e\<lparr>x_exec := ex_applied txs (x_exec e), x_signed := x_signed e @ [ex_payload txs]\<rparr>"
  obtain ops where b: "blockBatch (store_on mem_ds) (x_store e) ?sh (ex_data1 txs) (ex_key @ ex_payload txs) 1 ?st = Inr ops"
    using ex_block_batch [OF assms(2)] by blast
  have S: "getLastState ?e = ex_S" using assms(1) by (simp add: getLastState_def)
  have "proposeToRaft (store_on mem_ds) w ?sh (ex_data1 txs) 1 = Some (ErrRaftBroadcast ''timeout'')"
    using assms(3) ex_marshal1(1) [of "ex_key @ ex_payload txs" txs] ex_marshal1(2) [of txs]
    by (auto simp: proposeToRaft_def ex_raft_def)
  then have "validateAndCommit (ex_env mem_ds) w ?e ?sh (ex_data1 txs) (ex_key @ ex_payload txs) ?st 1 =
      Some (?e, Inl (ErrRaftBroadcast ''timeout''))"
    using b S by (simp add: validateAndCommit_def ex_sequence Let_def)
  moreover have "HasQuorum w 1" using assms(3) by (simp add: HasQuorum_def ex_raft_def)
  ultimately show ?thesis using ex_finish [OF assms(1)] by simp
qed

text \<open>The executor that has stored the state of the genesis, with a transaction in the queue of its sequencer.\<close>

definition ex_start :: "((string \<times> bytes) list, bytes, DummyExecutor, SoloSequencer) Executor" where
  "ex_start = \<lparr>x_store = [(getStateAtHeightKey 0, enc_fields (state_fields (State_ToProto ex_S)))], x_exec = NewDummyExecutor,
     x_sequencer = ex_solo [[7]], x_lastState = Some ex_S, x_hasPendingBlock = False, x_lastBlockInfo = None,
     x_pendingCheckCounter = 0, x_pendingBatchAck = False, x_txNotify = False, x_started = True, x_tracking = newTracking,
     x_errors = [], x_signed = [], x_broadcast = []\<rparr>"

lemma ex_S_marshal: "State_MarshalBinary pb_codec ex_S = Some (enc_fields (state_fields (State_ToProto ex_S)))"
  by (simp add: State_MarshalBinary_def pb_codec_def enc_State_def State_ToProto_def Timestamp_of_def ex_S_def second_def int64_def)

lemma ex_start_inv: "producer_inv (ex_env mem_ds) map_of ex_start"
proof -
  have lbh: "st_LastBlockHeight ex_S = 0" by (simp add: ex_S_def)
  have "\<not> pending_in (store_on mem_ds) (map_of (x_store ex_start)) sh data" for sh data
    by (simp add: pending_in_def ex_start_def key_forms)
  moreover have "height_of (map_of (x_store ex_start)) = 0" by (simp add: height_of_def ex_start_def key_forms)
  moreover have "stored_state (store_on mem_ds) (map_of (x_store ex_start)) 0 ex_S"
    by (simp add: stored_state_def ex_S_marshal) (simp add: ex_start_def)
  moreover have "x_lastState ex_start = Some ex_S" "x_lastBlockInfo ex_start = None" by (simp_all add: ex_start_def)
  moreover have "g_InitialHeight ex_gen = 1" by (simp add: ex_gen_def)
  ultimately show ?thesis
    using lbh by (simp add: producer_inv_def chain_inv_def chain_def info_ok_def pending_ok_def)
qed

lemma ex_start_genesis: "ex_at_genesis ex_start [[7]]" "map_of (x_store ex_start) getHeightKey = None"
  "getLastState ex_start = ex_S"
  by (simp_all add: ex_start_def ex_at_genesis_def getLastState_def key_forms)

lemma ex_produce:
  assumes "ex_at_genesis e txs" and "txs = [] \<or> txs = [[7]]" and "map_of (x_store e) getHeightKey = None"
    and "HasQuorum w 0" and "\<not> w_ctxErr w"
  obtains e3 where "ProduceBlock (ex_env mem_ds) w e = finishBlock (ex_env mem_ds) w e3 1 (ex_signed1 txs) (ex_data1 txs)"
    "ex_at_genesis e3 []" "x_signed e3 = x_signed e" "map_of (x_store e3) getHeightKey = None"
    "\<And>k. k \<notin> range GetMetaKey \<Longrightarrow> map_of (x_store e3) k = map_of (x_store e) k"
proof -
  obtain d' hb db where nb: "nextBlock (ex_env mem_ds) e 1 =
      Some (e\<lparr>x_sequencer := ex_solo [], x_store := d'\<rparr>, Inr (Some (ex_signed1 txs, ex_data1 txs)))"
    and v: "map_of d' = (map_of (x_store e))(GetMetaKey headerKey \<mapsto> hb, GetMetaKey dataKey \<mapsto> db)"
    using ex_next [OF assms(1,2)] by blast
  let ?e3 = "e\<lparr>x_sequencer := ex_solo [], x_store := d'\<rparr>"
  have "getLastState e = ex_S" "st_LastBlockHeight ex_S = 0" using assms(1) by (simp_all add: ex_at_genesis_def getLastState_def ex_S_def)
  then have "ProduceBlock (ex_env mem_ds) w e = finishBlock (ex_env mem_ds) w ?e3 1 (ex_signed1 txs) (ex_data1 txs)"
    using assms(1,4,5) nb by (simp add: ProduceBlock_def retryAck_def ex_at_genesis_def pendingLimitReached_def Let_def)
  moreover have "ex_at_genesis ?e3 []" using assms(1) by (simp add: ex_at_genesis_def)
  moreover have "map_of (x_store ?e3) getHeightKey = None" using v assms(3) by simp
  moreover have "map_of (x_store ?e3) k = map_of (x_store e) k" if "k \<notin> range GetMetaKey" for k using that v by auto
  ultimately show thesis using that by simp
qed

lemma ex_payload_neq: "ex_payload [[7]] \<noteq> ex_payload []"
proof
  assume eq: "ex_payload [[7]] = ex_payload []"
  have un: "pbh_unknown (Header_ToProto pb_wire (ex_header1 txs)) = encodeLegacyUnknownFields pb_wire None" for txs
    by (simp add: Header_ToProto_def ex_header1_def)
  have dec: "dec_Header (ex_payload txs) = Some (Header_ToProto pb_wire (ex_header1 txs))" for txs
    unfolding ex_payload_def by (rule dec_enc_Header [OF _ un]) (simp add: legacy_small_def)
  from dec [of "[[7]]"] dec [of "[]"] eq
  have "h_DataHash (ex_header1 [[7]]) = h_DataHash (ex_header1 [])" by (simp add: Header_ToProto_def)
  then show False
    by (simp add: ex_header1_def DACommitment_def leafHashOpt_def plain_crypto_def DataHashForEmptyTxs_def)
qed

lemma ex_failed_block:
  "\<exists>e1. ProduceBlock (ex_env mem_ds) (ex_surroundings (Some ex_raft)) ex_start = Some (e1, Inl (ErrRaftBroadcast ''timeout'')) \<and>
     x_signed e1 = [ex_payload [[7]]] \<and> ex_at_genesis e1 [] \<and> map_of (x_store e1) getHeightKey = None \<and>
     (\<forall>k. k \<notin> range GetMetaKey \<longrightarrow> map_of (x_store e1) k = map_of (x_store ex_start) k)"
proof -
  let ?w = "ex_surroundings (Some ex_raft)"
  have w: "HasQuorum ?w 0" "\<not> w_ctxErr ?w" "w_raft ?w = Some ex_raft" by (simp_all add: ex_surroundings_def HasQuorum_def ex_raft_def)
  obtain e3 where p: "ProduceBlock (ex_env mem_ds) ?w ex_start = finishBlock (ex_env mem_ds) ?w e3 1 (ex_signed1 [[7]]) (ex_data1 [[7]])"
    "ex_at_genesis e3 []" "x_signed e3 = x_signed ex_start" "map_of (x_store e3) getHeightKey = None"
    "\<And>k. k \<notin> range GetMetaKey \<Longrightarrow> map_of (x_store e3) k = map_of (x_store ex_start) k"
    using ex_produce [OF ex_start_genesis(1) _ ex_start_genesis(2) w(1,2)] by blast
  have l: "x_lastState e3 = Some ex_S" using p(2) by (simp add: ex_at_genesis_def)
  show ?thesis
    using ex_finish_fails [OF l p(4) w(3), of "[[7]]"] p by (auto simp: ex_at_genesis_def ex_start_def)
qed

lemma ex_get_state:
  assumes "map_of d (getStateAtHeightKey 0) = Some (enc_fields (state_fields (State_ToProto ex_S)))" and "map_of d getHeightKey = None"
  shows "Height (store_on mem_ds) d = Inr 0" and "GetState (store_on mem_ds) d = Inr ex_S"
proof -
  show h: "Height (store_on mem_ds) d = Inr 0"
    using mem_store.db_Get_total [OF clean_height_keys(5), of d] assms(2) by (simp add: Height_def IsNotFound_def)
  show "GetState (store_on mem_ds) d = Inr ex_S"
    using mem_store.read_state(2) [OF _ _ h, of _ ex_S] assms(1) ex_S_marshal by (simp add: abs_store_def)
qed

lemma ex_restart:
  assumes "GetState (store_on mem_ds) d = Inr ex_S" and "Height (store_on mem_ds) d = Inr 0" and "map_of d (getHeaderKey 1) = None"
    and "NewExecutor (ex_env mem_ds) lt d x q = Inr e0" and "map_of d getHeightKey = None"
    and "map_of d (getStateAtHeightKey 0) = Some (enc_fields (state_fields (State_ToProto ex_S)))"
  shows "\<exists>e2. Start (ex_env mem_ds) (ex_surroundings None) e0 = Some (e2, Inr ())"
proof -
  let ?V = "ex_env mem_ds" and ?w = "ex_surroundings None"
  have raft: "w_raft ?w = None" by (simp add: ex_surroundings_def)
  have e0: "x_store e0 = d" "\<not> x_started e0" using assms(4) by (auto simp: NewExecutor_def split: if_splits)
  have pa: "st_NextProposerAddress ex_S = 7 # ex_key" "st_LastBlockHeight ex_S = 0" by (simp_all add: ex_S_def)
  have "assertConfiguredSigner ?V (7 # ex_key) = None" by (simp add: assertConfiguredSigner_def ex_env_def)
  then have ld: "loadState ?V (e0\<lparr>x_started := True\<rparr>) = Some (e0\<lparr>x_started := True\<rparr>, Inr ex_S)"
    using assms(1) e0(1) pa(1) by (simp add: loadState_def Let_def)
  obtain d2 where si: "storeInitialState (store_on mem_ds) d ex_S = (d2, None)"
  proof -
    let ?ops = "[DPut (getStateAtHeightKey 0) (enc_fields (state_fields (State_ToProto ex_S)))]"
    obtain d2 where "Commit (store_on mem_ds) d ?ops = (d2, None)" using mem_store.Commit_succeeds by blast
    then have "storeInitialState (store_on mem_ds) d ex_S = (d2, None)"
      using assms(2)
      by (simp add: storeInitialState_def mem_store.batch_total_ops SetHeight_def UpdateState_def pa(2) ex_S_marshal commit_result_def)
    then show thesis by (rule that)
  qed
  have "map_of d2 = map_of d"
    using ex_mem.storeInitialState_view [of d ex_S d2] assms(1,5,6) si pa(2)
    by (simp add: height_of_def stored_state_def ex_S_marshal)
  then have mg: "migrateLegacyPendingBlock (store_on mem_ds) d2 ex_S = (d2, None)"
    using ex_mem.migrate_none [of d2 ex_S] assms(3) pa(2) by simp
  have sync: "SyncToHeight (store_on mem_ds) (dummy_layer id) ex_gen s n = Some (s, Inr ())" for s n
    by (rule SyncToHeight_in_sync) (simp add: dummy_layer_def)
  have "\<exists>e2. initializeState ?V ?w (e0\<lparr>x_started := True\<rparr>) = Some (e2, Inr ())"
    using ld raft si mg e0(1) sync
    by (simp add: initializeState_def failing_def checkRaft_def on_store_def setInitialState_def getLastState_def syncAndVerify_def
        syncExecution_def checkRaftAfterSync_def)
  then show ?thesis using e0(2) by (auto simp: Start_def)
qed

lemma ex_ProduceBlock_returns: "\<exists>r. ProduceBlock (ex_env DS) w e = Some r"
proof -
  have rb: "\<exists>e' b re. RetrieveBatch (ex_env DS) e = Some (e', b, re)" for e :: "('a, bytes, DummyExecutor, SoloSequencer) Executor"
    by (simp add: RetrieveBatch_def ex_env_def solo_sequencer_def Let_def split: prod.split sum.split option.split)
  have fin: "\<exists>r. finishBlock (ex_env DS) w e n sh data = Some r" for e :: "('a, bytes, DummyExecutor, SoloSequencer) Executor" and n sh data
    by (simp add: finishBlock_def ApplyBlock_def signHeader_def validateAndCommit_def critical_def Let_def bindS_def
        split: prod.split sum.split option.split)
  have nb: "\<exists>e' r. nextBlock (ex_env DS) e n = Some (e', r)" for e :: "('a, bytes, DummyExecutor, SoloSequencer) Executor" and n
    using rb [of e] by (auto simp: nextBlock_def on_store_def failing_def split: prod.split sum.split option.split retrieve_error.split)
  obtain e1 r1 where ack: "retryAck (ex_env DS) e = Some (e1, r1)"
    by (cases "ackCommittedBatch (ex_env DS) e"; cases "snd (ackCommittedBatch (ex_env DS) e)"; cases "x_pendingBatchAck e")
      (auto simp: retryAck_def failing_def)
  obtain e2 b where lim: "pendingLimitReached (ex_env DS) w e1 = (e2, b)" by fastforce
  obtain e3 r3 where "nextBlock (ex_env DS) e2 (st_LastBlockHeight (getLastState e1) + 1) = Some (e3, r3)" using nb by blast
  then show ?thesis
    using ack lim fin [of e3] by (cases r1; cases r3; cases b) (auto simp: ProduceBlock_def Let_def split: option.split)
qed

section \<open>Properties\<close>

text \<open>C31: Whatever the datastore, the execution layer, the sequencer, the signer and raft answer, the blocks the executor stores form
  a chain: from an executor that holds a chain, every sequence of timer ticks and notifications leads to one that does.
  At every height the stored block carries the chain's id, the height, the root and the proposer of the state stored for the
  height before, the commitment to its transactions and the hashes of the header and the data before it, and the state stored
  with it has its hash and its time. No stored block is changed, and the state in memory is the one of the store.\<close>

theorem executor_builds_chain:
  assumes "block_store (xe_store V) view" and "0 < g_InitialHeight (xe_genesis V)" and "producer_inv V view e"
    and "unat (st_LastBlockHeight (getLastState e)) + length evs < 2 ^ 64" and "executionLoop V (e, b) evs = Some (e', b')"
  shows "chain (xe_store V) (xe_genesis V) (view (x_store e')) (st_LastBlockHeight (getLastState e')) \<and>
    height_of (view (x_store e')) = st_LastBlockHeight (getLastState e') \<and> producer_inv V view e' \<and>
    st_LastBlockHeight (getLastState e) \<le> st_LastBlockHeight (getLastState e') \<and>
    (\<forall>h \<le> st_LastBlockHeight (getLastState e). blocks_of (view (x_store e')) h = blocks_of (view (x_store e)) h)"
proof -
  have "block_producer V view" using assms(1,2) by (simp add: block_producer_def block_producer_axioms_def)
  from block_producer.executionLoop_chain [OF this assms(3-5)]
  show ?thesis by (auto simp: producer_inv_def chain_inv_def getLastState_def)
qed

theorem executor_builds_chain_witness:
  "\<exists>e'. executionLoop (ex_env mem_ds) (ex_start, False) [BlockTimer (ex_surroundings None)] = Some (e', False) \<and>
     st_LastBlockHeight (getLastState e') = 1 \<and> chain (store_on mem_ds) ex_gen (map_of (x_store e')) 1"
proof -
  let ?w = "ex_surroundings None"
  have w: "HasQuorum ?w 0" "\<not> w_ctxErr ?w" "w_raft ?w = None" by (simp_all add: ex_surroundings_def HasQuorum_def)
  obtain e3 where p: "ProduceBlock (ex_env mem_ds) ?w ex_start = finishBlock (ex_env mem_ds) ?w e3 1 (ex_signed1 [[7]]) (ex_data1 [[7]])"
    "ex_at_genesis e3 []" "map_of (x_store e3) getHeightKey = None"
    using ex_produce [OF ex_start_genesis(1) _ ex_start_genesis(2) w(1,2)] by blast
  then obtain e' where f: "ProduceBlock (ex_env mem_ds) ?w ex_start = Some (e', Inr ())"
    and S: "x_lastState e' = Some (ex_S1 [[7]]\<lparr>st_DAHeight := so_daHeight (x_sequencer e3)\<rparr>)"
    using ex_finish_commits [of e3 ?w] w(3) by (fastforce simp: ex_at_genesis_def)
  have lp: "executionLoop (ex_env mem_ds) (ex_start, False) [BlockTimer ?w] = Some (e', False)"
    using f by (simp add: loopStep_def) (simp add: ex_env_def)
  have h: "st_LastBlockHeight (getLastState e') = 1"
    using S by (simp add: getLastState_def ex_S1_def ex_header1_def Header_Height_def)
  have "unat (st_LastBlockHeight (getLastState ex_start)) + length [BlockTimer ?w] < 2 ^ 64"
    by (simp add: ex_start_genesis(3) ex_S_def)
  from executor_builds_chain [OF _ _ ex_start_inv this lp] mem_store.block_store_axioms h lp
  show ?thesis by (auto simp: ex_gen_def)
qed





end
