(* ===== verification/Replay_Laws.thy ===== *)
theory Replay_Laws
  imports Replayer Store_Laws Chain
begin

text \<open>
  What replaying does (\<open>block/internal/common/replay.go\<close>): with a deterministic execution layer and a store whose states
  are what the layer computes, every missing block is executed once, in order, and the stored roots and proposers stay
  as they are. The DA heights of the stored states do not.
\<close>

section \<open>Contracts\<close>

text \<open>The execution layer as its interface documents it: \<open>GetLatestHeight\<close> is the height of the last executed block
  (\<open>ht\<close>), and executing the next block succeeds with a result that depends on the arguments only (\<open>F\<close>).\<close>

definition exec_contract :: "'x exec_layer \<Rightarrow> ('x \<Rightarrow> u64) \<Rightarrow> (bytes list \<Rightarrow> u64 \<Rightarrow> instant \<Rightarrow> bytes \<Rightarrow> ExecuteResult) \<Rightarrow> bool" where
  "exec_contract X ht F \<longleftrightarrow>
     el_GetLatestHeight X = Some (\<lambda>x. Inr (ht x)) \<and>
     (\<forall>x txs h t root. h = ht x + 1 \<longrightarrow>
        (\<exists>x'. el_ExecuteTxs X x txs h t root = (x', Inr (F txs h t root)) \<and> ht x' = h))"

definition replayed :: "('d, 'k) store_env \<Rightarrow> (bytes list \<Rightarrow> u64 \<Rightarrow> instant \<Rightarrow> bytes \<Rightarrow> ExecuteResult) \<Rightarrow> State \<Rightarrow> 'k SignedHeader \<times> Data \<Rightarrow> State" where
  "replayed E F prev b =
     (let hdr = sh_Header (fst b);
          result = F (d_Txs (snd b)) (Header_Height hdr) (Header_Time hdr) (st_AppHash prev)
      in NextState (s_crypto E) (s_codec E) (s_wire E) prev hdr (er_UpdatedStateRoot result) (er_NextProposerAddress result))"

text \<open>The store holds, for the heights after \<open>lo\<close> up to \<open>hi\<close>, the blocks \<open>blk\<close> and states with the roots \<open>root\<close> and the
  proposers \<open>prp\<close>, and each state is what the execution layer computes from the one before it.\<close>

definition replayable :: "('d, 'k) store_env \<Rightarrow> Genesis \<Rightarrow> (bytes list \<Rightarrow> u64 \<Rightarrow> instant \<Rightarrow> bytes \<Rightarrow> ExecuteResult) \<Rightarrow>
    (u64 \<Rightarrow> 'k SignedHeader \<times> Data) \<Rightarrow> (u64 \<Rightarrow> bytes) \<Rightarrow> (u64 \<Rightarrow> bytes) \<Rightarrow> u64 \<Rightarrow> u64 \<Rightarrow> 'd \<Rightarrow> bool" where
  "replayable E g F blk root prp lo hi d \<longleftrightarrow>
     (\<forall>h. lo < h \<and> h \<le> hi \<longrightarrow>
        GetBlockData E d h = Inr (blk h) \<and> Header_Height (sh_Header (fst (blk h))) = h \<and>
        (\<forall>s. State_MarshalBinary (s_codec E) (replayed E F s (blk h)) \<noteq> None) \<and>
        (\<exists>st. GetStateAtHeight E d h = Inr st \<and> st_AppHash st = root h \<and> st_NextProposerAddress st = prp h) \<and>
        (\<exists>prev. replayPrevState E g d h (sh_Header (fst (blk h))) = Inr prev \<and>
           st_AppHash (replayed E F prev (blk h)) = root h \<and> st_NextProposerAddress (replayed E F prev (blk h)) = prp h))"

text \<open>What the store holds after the heights after \<open>lo\<close> up to \<open>hi\<close> have been replayed: \<open>da\<close> is the DA height of the state the
  replay started from.\<close>

definition after_replay :: "('d, 'k) store_env \<Rightarrow> ('d \<Rightarrow> (string \<rightharpoonup> bytes)) \<Rightarrow> (u64 \<Rightarrow> bytes) \<Rightarrow> (u64 \<Rightarrow> bytes) \<Rightarrow> u64 \<Rightarrow> u64 \<Rightarrow> u64 \<Rightarrow> 'd \<Rightarrow> 'd \<Rightarrow> bool" where
  "after_replay E view root prp da lo hi d d' \<longleftrightarrow>
     blocks_of (view d') = blocks_of (view d) \<and> Height E d' = Height E d \<and>
     (\<forall>h. h \<le> lo \<longrightarrow> GetStateAtHeight E d' h = GetStateAtHeight E d h) \<and>
     (\<forall>h. lo < h \<and> h \<le> hi \<longrightarrow> (\<exists>st. GetStateAtHeight E d' h = Inr st \<and> st_AppHash st = root h \<and>
        st_NextProposerAddress st = prp h \<and> st_LastBlockHeight st = h \<and> st_DAHeight st = da))"

lemma replayed_simps [simp]:
  "st_LastBlockHeight (replayed E F s b) = Header_Height (sh_Header (fst b))" "st_DAHeight (replayed E F s b) = st_DAHeight s"
  by (simp_all add: replayed_def Let_def)

lemma replayed_cong:
  assumes "st_AppHash s' = st_AppHash s" and "st_NextProposerAddress s' = st_NextProposerAddress s"
  shows "st_AppHash (replayed E F s' b) = st_AppHash (replayed E F s b)"
    and "st_NextProposerAddress (replayed E F s' b) = st_NextProposerAddress (replayed E F s b)"
  using assms by (simp_all add: replayed_def NextState_def Let_def)

section \<open>One block\<close>

context reliable_store
begin

lemma update_state_commit:
  assumes "State_MarshalBinary (s_codec E) st = Some b"
  obtains d' where "commit_result E d (bindE (NewBatch E d) (\<lambda>ops. UpdateState E d ops st)) = (d', None)"
    and "view d' = (view d)(getStateAtHeightKey (st_LastBlockHeight st) \<mapsto> b)"
proof -
  let ?ops = "[DPut (getStateAtHeightKey (st_LastBlockHeight st)) b]"
  obtain d' where c: "Commit E d ?ops = (d', None)" using Commit_succeeds by blast
  then have "commit_result E d (bindE (NewBatch E d) (\<lambda>ops. UpdateState E d ops st)) = (d', None)"
    using assms by (simp add: batch_total_ops UpdateState_def commit_result_def)
  then show thesis using that Commit_view(1) [OF c] by simp
qed

lemma state_update_reads:
  assumes "view d' = (view d)(getStateAtHeightKey n \<mapsto> b)" and "State_MarshalBinary (s_codec E) st = Some b"
  shows "GetBlockData E d' h = GetBlockData E d h" and "GetStateAtHeight E d' h = (if h = n then Inr st else GetStateAtHeight E d h)"
    and "Height E d' = Height E d" and "blocks_of (view d') = blocks_of (view d)"
proof -
  have get: "db_Get E d' k = db_Get E d k" if "clean_path k" "k \<noteq> getStateAtHeightKey n" for k
    using that assms(1) by (simp add: db_Get_total)
  have neq: "getHeaderKey h \<noteq> getStateAtHeightKey n" "getDataKey h \<noteq> getStateAtHeightKey n" for h
    by (simp_all add: key_forms)
  show "GetBlockData E d' h = GetBlockData E d h"
    unfolding GetBlockData_def GetHeader_def by (simp only: get [OF clean_height_keys(1) neq(1)] get [OF clean_height_keys(2) neq(2)])
  show "Height E d' = Height E d" unfolding Height_def by (simp add: get clean_height_keys)
  show "GetStateAtHeight E d' h = (if h = n then Inr st else GetStateAtHeight E d h)"
  proof (cases "h = n")
    case True
    then show ?thesis using read_state(1) [OF _ assms(2), of d' n] assms(1) by (simp add: abs_store_def)
  next
    case False
    then show ?thesis unfolding GetStateAtHeight_def by (simp add: get clean_height_keys)
  qed
  show "blocks_of (view d') = blocks_of (view d)" using assms(1) by (simp add: blocks_of_def key_forms fun_eq_iff)
qed

lemma replayBlock_step:
  assumes X: "exec_contract X ht F" and r: "replayable E g F blk root prp lo hi d" and lt: "lo < hi" and x: "ht x = lo"
    and g: "0 < g_InitialHeight g"
  obtains d' x' prev b where "replayBlock E X g (d, x) (lo + 1) = ((d', x'), None)" and "ht x' = lo + 1"
    and "replayPrevState E g d (lo + 1) (sh_Header (fst (blk (lo + 1)))) = Inr prev"
    and "State_MarshalBinary (s_codec E) (replayed E F prev (blk (lo + 1))) = Some b"
    and "view d' = (view d)(getStateAtHeightKey (lo + 1) \<mapsto> b)"
    and "st_AppHash (replayed E F prev (blk (lo + 1))) = root (lo + 1)"
    and "st_NextProposerAddress (replayed E F prev (blk (lo + 1))) = prp (lo + 1)"
proof -
  let ?h = "lo + 1"
  have range: "lo < ?h \<and> ?h \<le> hi" using unat_Suc_u64 [OF lt] lt by (simp add: u64_order)
  obtain sh data where blk: "blk ?h = (sh, data)" by fastforce
  from r range obtain prev st where bd: "GetBlockData E d ?h = Inr (blk ?h)" and ht: "Header_Height (sh_Header sh) = ?h"
    and mar: "State_MarshalBinary (s_codec E) (replayed E F prev (blk ?h)) \<noteq> None"
    and st: "GetStateAtHeight E d ?h = Inr st" "st_AppHash st = root ?h" "st_NextProposerAddress st = prp ?h"
    and prev: "replayPrevState E g d ?h (sh_Header (fst (blk ?h))) = Inr prev"
      "st_AppHash (replayed E F prev (blk ?h)) = root ?h" "st_NextProposerAddress (replayed E F prev (blk ?h)) = prp ?h"
    using blk unfolding replayable_def by (metis fst_conv)
  let ?result = "F (d_Txs data) ?h (Header_Time (sh_Header sh)) (st_AppHash prev)"
  obtain x' where ex: "el_ExecuteTxs X x (d_Txs data) ?h (Header_Time (sh_Header sh)) (st_AppHash prev) = (x', Inr ?result)" "ht x' = ?h"
    using X x unfolding exec_contract_def by blast
  have new: "replayed E F prev (blk ?h) = NextState (s_crypto E) (s_codec E) (s_wire E) prev (sh_Header sh)
      (er_UpdatedStateRoot ?result) (er_NextProposerAddress ?result)"
    by (simp add: replayed_def blk ht Let_def)
  obtain b where b: "State_MarshalBinary (s_codec E) (replayed E F prev (blk ?h)) = Some b" using mar by blast
  obtain d' where d': "commit_result E d (bindE (NewBatch E d) (\<lambda>ops. UpdateState E d ops (replayed E F prev (blk ?h)))) = (d', None)"
    "view d' = (view d)(getStateAtHeightKey ?h \<mapsto> b)"
    using update_state_commit [OF b] blk ht by (metis fst_conv replayed_simps(1))
  have "replayVerify E d ?h (er_UpdatedStateRoot ?result) (replayed E F prev (blk ?h)) = None"
    using st prev(2,3) new by (simp add: replayVerify_def)
  then have "replayBlock E X g (d, x) ?h = ((d', x'), None)"
    using bd blk prev(1) ex(1) d'(1) unfolding new by (simp add: replayBlock_def Let_def)
  with that ex(2) prev b d'(2) show thesis by blast
qed

lemma replayable_step:
  assumes r: "replayable E g F blk root prp lo hi d" and lt: "lo < hi"
    and v: "view d' = (view d)(getStateAtHeightKey (lo + 1) \<mapsto> b)" and m: "State_MarshalBinary (s_codec E) new = Some b"
    and new: "st_AppHash new = root (lo + 1)" "st_NextProposerAddress new = prp (lo + 1)"
  shows "replayable E g F blk root prp (lo + 1) hi d'"
  unfolding replayable_def
proof (intro allI impI)
  fix h assume h: "lo + 1 < h \<and> h \<le> hi"
  note up = unat_Suc_u64 [OF lt]
  have "lo < h \<and> h \<le> hi" and neq: "h \<noteq> lo + 1" using h up by (auto simp: u64_order)
  with r obtain prev where old: "GetBlockData E d h = Inr (blk h)" "Header_Height (sh_Header (fst (blk h))) = h"
    "\<forall>s. State_MarshalBinary (s_codec E) (replayed E F s (blk h)) \<noteq> None"
    "\<exists>st. GetStateAtHeight E d h = Inr st \<and> st_AppHash st = root h \<and> st_NextProposerAddress st = prp h"
    and prev: "replayPrevState E g d h (sh_Header (fst (blk h))) = Inr prev" "st_AppHash (replayed E F prev (blk h)) = root h"
      "st_NextProposerAddress (replayed E F prev (blk h)) = prp h"
    unfolding replayable_def by blast
  have lo1: "lo < lo + 1 \<and> lo + 1 \<le> hi" using up lt by (simp add: u64_order)
  with r obtain st where st: "GetStateAtHeight E d (lo + 1) = Inr st" "st_AppHash st = root (lo + 1)" "st_NextProposerAddress st = prp (lo + 1)"
    unfolding replayable_def by blast
  note reads = state_update_reads [OF v m]
  have "\<exists>prev. replayPrevState E g d' h (sh_Header (fst (blk h))) = Inr prev \<and> st_AppHash (replayed E F prev (blk h)) = root h \<and>
      st_NextProposerAddress (replayed E F prev (blk h)) = prp h"
  proof (cases "h \<noteq> g_InitialHeight g \<and> h - 1 = lo + 1")
    case True
    then have "(h = g_InitialHeight g) = False" and h1: "h - 1 = lo + 1" by blast+
    then have pd: "replayPrevState E g dd h hh = GetStateAtHeight E dd (lo + 1)" for dd hh
      unfolding replayPrevState_def by (simp only: if_False)
    then have "prev = st" using prev(1) st(1) by simp
    then show ?thesis
      using pd reads(2) replayed_cong [of new st E F "blk h"] new st(2,3) prev(2,3) by simp
  next
    case False
    then have "replayPrevState E g d' h hh = replayPrevState E g d h hh" for hh
      unfolding replayPrevState_def using reads(2) [of "h - 1"] by (simp only: split: if_split) blast
    then have "replayPrevState E g d' h (sh_Header (fst (blk h))) = Inr prev" using prev(1) by simp
    then show ?thesis using prev(2,3) by blast
  qed
  then show "GetBlockData E d' h = Inr (blk h) \<and> Header_Height (sh_Header (fst (blk h))) = h \<and>
      (\<forall>s. State_MarshalBinary (s_codec E) (replayed E F s (blk h)) \<noteq> None) \<and>
      (\<exists>st. GetStateAtHeight E d' h = Inr st \<and> st_AppHash st = root h \<and> st_NextProposerAddress st = prp h) \<and>
      (\<exists>prev. replayPrevState E g d' h (sh_Header (fst (blk h))) = Inr prev \<and>
         st_AppHash (replayed E F prev (blk h)) = root h \<and> st_NextProposerAddress (replayed E F prev (blk h)) = prp h)"
    using old reads(1,2) neq by simp
qed

lemma replay_loop_restores:
  assumes X: "exec_contract X ht F" and g: "0 < g_InitialHeight g" and hi: "hi < - 1"
    and "replayable E g F blk root prp lo hi d" and "lo \<le> hi" and "ht x = lo"
    and da: "\<And>prev. lo < hi \<Longrightarrow> replayPrevState E g d (lo + 1) (sh_Header (fst (blk (lo + 1)))) = Inr prev \<Longrightarrow> st_DAHeight prev = da"
    and ini: "g_InitialHeight g \<le> lo + 1"
  shows "\<exists>d' x'. replay_loop E X g hi (d, x) (lo + 1) = Some ((d', x'), Inr ()) \<and> ht x' = hi \<and> after_replay E view root prp da lo hi d d'"
  using assms(4-8)
proof (induction "unat hi - unat lo" arbitrary: lo d x)
  case 0
  then have "lo = hi" by (simp add: u64_order)
  moreover have "\<not> hi + 1 \<le> hi" using unat_Suc_u64 [OF hi] by (simp add: u64_order)
  ultimately show ?case using 0 by (subst replay_loop.simps) (auto simp: after_replay_def)
next
  case (Suc n)
  then have lt: "lo < hi" by (simp add: u64_order)
  note up = unat_Suc_u64 [OF lt]
  obtain d1 x1 prev b where st: "replayBlock E X g (d, x) (lo + 1) = ((d1, x1), None)" "ht x1 = lo + 1"
    "replayPrevState E g d (lo + 1) (sh_Header (fst (blk (lo + 1)))) = Inr prev"
    "State_MarshalBinary (s_codec E) (replayed E F prev (blk (lo + 1))) = Some b"
    "view d1 = (view d)(getStateAtHeightKey (lo + 1) \<mapsto> b)"
    "st_AppHash (replayed E F prev (blk (lo + 1))) = root (lo + 1)"
    "st_NextProposerAddress (replayed E F prev (blk (lo + 1))) = prp (lo + 1)"
    using replayBlock_step [OF X Suc.prems(1) lt Suc.prems(3) g] by blast
  let ?new = "replayed E F prev (blk (lo + 1))"
  note reads = state_update_reads [OF st(5,4)]
  have prevda: "st_DAHeight prev = da" using Suc.prems(4) lt st(3) by blast
  have r1: "replayable E g F blk root prp (lo + 1) hi d1" by (rule replayable_step [OF Suc.prems(1) lt st(5,4,6,7)])
  have le1: "lo + 1 \<le> hi" and n: "n = unat hi - unat (lo + 1)" using up lt Suc.hyps(2) by (simp_all add: u64_order)
  have da1: "st_DAHeight p = da" if "lo + 1 < hi" "replayPrevState E g d1 (lo + 1 + 1) (sh_Header (fst (blk (lo + 1 + 1)))) = Inr p" for p
  proof -
    have "lo + 1 + 1 \<noteq> g_InitialHeight g" using Suc.prems(5) unat_Suc_u64 [OF that(1)] by (auto simp: u64_order)
    moreover have "lo + 1 + 1 - 1 = lo + 1" by simp
    ultimately have "p = ?new" using that(2) reads(2) by (simp only: replayPrevState_def if_False) simp
    then show ?thesis using prevda by simp
  qed
  have ini1: "g_InitialHeight g \<le> lo + 1 + 1"
  proof (cases "lo + 1 < hi")
    case True
    then show ?thesis using Suc.prems(5) unat_Suc_u64 [OF True] by (simp add: u64_order)
  next
    case False
    then have "lo + 1 = hi" using le1 by simp
    then have "unat (lo + 1 + 1) = Suc (unat (lo + 1))" using unat_Suc_u64 [OF hi] by simp
    then show ?thesis using Suc.prems(5) by (simp add: u64_order)
  qed
  obtain d' x' where l: "replay_loop E X g hi (d1, x1) (lo + 1 + 1) = Some ((d', x'), Inr ())" "ht x' = hi"
    and a: "after_replay E view root prp da (lo + 1) hi d1 d'"
    using Suc.hyps(1) [OF n r1 le1 st(2) da1 ini1] by blast
  have "replay_loop E X g hi (d, x) (lo + 1) = Some ((d', x'), Inr ())"
    using st(1) l(1) le1 by (subst replay_loop.simps) simp
  moreover have "after_replay E view root prp da lo hi d d'"
  proof -
    have hn: "Header_Height (sh_Header (fst (blk (lo + 1)))) = lo + 1" using Suc.prems(1) lt up by (simp add: replayable_def u64_order)
    have new: "GetStateAtHeight E d' (lo + 1) = Inr ?new" using a reads(2) by (simp add: after_replay_def)
    have "GetStateAtHeight E d' h = GetStateAtHeight E d h" if "h \<le> lo" for h
      using that a reads(2) up by (auto simp: after_replay_def u64_order)
    moreover have "\<exists>st. GetStateAtHeight E d' h = Inr st \<and> st_AppHash st = root h \<and> st_NextProposerAddress st = prp h \<and>
        st_LastBlockHeight st = h \<and> st_DAHeight st = da" if "lo < h \<and> h \<le> hi" for h
    proof (cases "h = lo + 1")
      case True
      then show ?thesis using new st(6,7) hn prevda by simp
    next
      case False
      then have "lo + 1 < h" using that up by (auto simp: u64_order)
      then show ?thesis using a that by (simp add: after_replay_def)
    qed
    ultimately show ?thesis using a reads(3,4) by (simp add: after_replay_def)
  qed
  ultimately show ?case using l(2) by blast
qed

lemma SyncToHeight_restores:
  assumes X: "exec_contract X ht F" and g: "0 < g_InitialHeight g" and hi: "target < - 1"
    and r: "replayable E g F blk root prp (ht x) target d" and lt: "ht x < target" and ini: "g_InitialHeight g \<le> ht x + 1"
    and da: "da = (if ht x + 1 = g_InitialHeight g then 0 else (case GetStateAtHeight E d (ht x) of Inr st \<Rightarrow> st_DAHeight st | Inl _ \<Rightarrow> 0))"
  shows "\<exists>d' x'. SyncToHeight E X g (d, x) target = Some ((d', x'), Inr ()) \<and> ht x' = target \<and>
    after_replay E view root prp da (ht x) target d d'"
proof -
  note up = unat_Suc_u64 [OF lt]
  have t: "\<not> target < g_InitialHeight g" using ini lt up by (auto simp: u64_order)
  have b: "GetBlockData E d target = Inr (blk target)" using r lt by (simp add: replayable_def)
  have "st_DAHeight prev = da" if "replayPrevState E g d (ht x + 1) (sh_Header (fst (blk (ht x + 1)))) = Inr prev" for prev
    using that da by (simp add: replayPrevState_def replayGenesisState_def split: if_splits) auto
  from replay_loop_restores [OF X g hi r _ refl this ini] lt
  have "\<exists>d' x'. replay_loop E X g target (d, x) (ht x + 1) = Some ((d', x'), Inr ()) \<and> ht x' = target \<and>
      after_replay E view root prp da (ht x) target d d'" by simp
  moreover have "\<not> target < ht x" using lt by simp
  ultimately show ?thesis using X t b lt by (simp add: SyncToHeight_def exec_contract_def)
qed

end

section \<open>A store to replay\<close>

definition ex_layer :: "u64 exec_layer" where
  "ex_layer = \<lparr>el_InitChain = (\<lambda>x _ _ _. (x, Inr [])), el_ExecuteTxs = (\<lambda>x _ h _ _. (h, Inr \<lparr>er_UpdatedStateRoot = [20], er_NextProposerAddress = []\<rparr>)),
     el_SetFinal = (\<lambda>x _. (x, None)), el_GetLatestHeight = Some Inr, el_Rollback = None\<rparr>"

definition ex_result :: "bytes list \<Rightarrow> u64 \<Rightarrow> instant \<Rightarrow> bytes \<Rightarrow> ExecuteResult" where
  "ex_result txs h t root = \<lparr>er_UpdatedStateRoot = [20], er_NextProposerAddress = []\<rparr>"

lemma ex_layer_contract: "exec_contract ex_layer id ex_result"
  by (simp add: exec_contract_def ex_layer_def ex_result_def fun_eq_iff)

definition ex_gen1 :: Genesis where
  "ex_gen1 = \<lparr>g_ChainID = ''c'', g_StartTime = 0, g_InitialHeight = 1, g_ProposerAddress = Some (7 # ex_key), g_DAStartHeight = 0,
     g_DAEpochForcedInclusion = 50\<rparr>"

definition ex_after6 :: State where
  "ex_after6 = ex_state\<lparr>st_LastBlockHeight := 6, st_DAHeight := 9\<rparr>"

definition ex_bytes :: "State \<Rightarrow> bytes" where
  "ex_bytes st = enc_fields (state_fields (State_ToProto st))"

lemma ex_bytes_marshal: "State_MarshalBinary pb_codec ex_state = Some (ex_bytes ex_state)" "State_MarshalBinary pb_codec ex_after6 = Some (ex_bytes ex_after6)"
  by (simp_all add: State_MarshalBinary_def pb_codec_def enc_State_def State_ToProto_def Timestamp_of_def ex_state_def ex_after6_def
      ex_bytes_def second_def int64_def)

definition ex_hb :: bytes where
  "ex_hb = enc_SignedHeader \<lparr>pbsh_Header = Some (Header_ToProto pb_wire ex_h6),
      pbsh_Signature = ex_key @ enc_Header (Header_ToProto pb_wire ex_h6),
      pbsh_Signer = Some \<lparr>pbsg_Address = 7 # ex_key, pbsg_PubKey = 8 # ex_key\<rparr>\<rparr>"

definition ex_db :: bytes where
  "ex_db = enc_Data (Data_ToProto (ex_data 6))"

definition ex_replay_store :: "(string \<times> bytes) list" where
  "ex_replay_store = [(getHeaderKey 6, ex_hb), (getDataKey 6, ex_db), (getSignatureKey 6, [1]),
     (getStateAtHeightKey 5, ex_bytes ex_state), (getStateAtHeightKey 6, ex_bytes ex_after6)]"

definition ex_block6 :: "bytes SignedHeader \<times> Data" where
  "ex_block6 = (received plain_crypto newSignedHeader (ex_signed ex_h6), ex_data 6)"

lemma ex_replay_view:
  "map_of ex_replay_store (getHeaderKey 6) = Some ex_hb" "map_of ex_replay_store (getDataKey 6) = Some ex_db"
  "map_of ex_replay_store (getSignatureKey 6) = Some [1]"
  "map_of ex_replay_store (getStateAtHeightKey 5) = Some (ex_bytes ex_state)"
  "map_of ex_replay_store (getStateAtHeightKey 6) = Some (ex_bytes ex_after6)"
  by (simp_all add: ex_replay_store_def) (simp_all add: key_forms)

lemma ex_replay_block: "GetBlockData (store_on mem_ds) ex_replay_store 6 = Inr ex_block6"
proof -
  have "SignedHeader_UnmarshalBinary plain_crypto pb_codec pb_wire newSignedHeader ex_hb = Inr (fst ex_block6)"
    using pb.signed_header_wire [of "ex_signed ex_h6" ex_hb newSignedHeader] ex_small ex_signer_wf ex_marshal [of ex_h6]
    by (simp add: ex_block6_def ex_hb_def ex_signed_def ex_h6_def)
  moreover have "Data_UnmarshalBinary pb_codec ex_db = Inr (ex_data 6)"
    using pb.data_roundtrip [of "ex_data 6" ex_db] by (simp add: Data_MarshalBinary_def ex_db_def pb_codec_def)
  moreover have "cs_blocks (abs_store (map_of ex_replay_store)) 6 = Some (ex_hb, ex_db, [1])"
    by (simp add: abs_store_def blocks_of_def ex_replay_view)
  ultimately show ?thesis
    using mem_store.read_block(1) [of ex_replay_store 6 ex_hb ex_db "[1]" "fst ex_block6" "ex_data 6"] by (simp add: ex_block6_def)
qed

lemma ex_replay_states:
  "GetStateAtHeight (store_on mem_ds) ex_replay_store 5 = Inr ex_state" "GetStateAtHeight (store_on mem_ds) ex_replay_store 6 = Inr ex_after6"
  using mem_store.read_state(1) [of ex_replay_store 5 _ ex_state] mem_store.read_state(1) [of ex_replay_store 6 _ ex_after6] ex_bytes_marshal
  by (simp_all add: abs_store_def ex_replay_view)

lemma ex_replayable:
  "replayable (store_on mem_ds) ex_gen1 ex_result (\<lambda>_. ex_block6) (\<lambda>_. [20]) (\<lambda>_. 7 # ex_key) 5 6 ex_replay_store"
proof -
  have hdr: "sh_Header (fst ex_block6) = normHeader ex_h6" by (simp add: ex_block6_def received_def ex_signed_def)
  have h: "Header_Height (normHeader ex_h6) = 6" "Header_Time (normHeader ex_h6) = 6000"
    by (simp_all add: normHeader_def ex_h6_def ex_header_def Header_Height_def Header_Time_def unix_nano_def)
  have m: "State_MarshalBinary pb_codec (replayed (store_on mem_ds) ex_result s ex_block6) \<noteq> None" for s
    using h(2) by (simp add: replayed_def Let_def hdr State_MarshalBinary_def pb_codec_def enc_State_def State_ToProto_def Timestamp_of_def
        NextState_def second_def int64_def)
  have "h = 6" if "(5 :: u64) < h \<and> h \<le> 6" for h using that by (simp add: u64_order)
  moreover have "replayPrevState (store_on mem_ds) ex_gen1 ex_replay_store 6 (sh_Header (fst ex_block6)) = Inr ex_state"
    using ex_replay_states(1) by (simp add: replayPrevState_def ex_gen1_def)
  moreover have "st_AppHash (replayed (store_on mem_ds) ex_result ex_state ex_block6) = [20]"
    "st_NextProposerAddress (replayed (store_on mem_ds) ex_result ex_state ex_block6) = 7 # ex_key"
    by (simp_all add: replayed_def Let_def ex_result_def NextState_def ex_state_def)
  moreover have "st_AppHash ex_after6 = [20]" "st_NextProposerAddress ex_after6 = 7 # ex_key" by (simp_all add: ex_after6_def ex_state_def)
  ultimately show ?thesis
    unfolding replayable_def using ex_replay_block ex_replay_states(2) h(1) hdr m by auto
qed

section \<open>Properties\<close>

text \<open>C34: Replaying brings the execution layer to the target height: from any lower height it executes exactly the stored blocks
  in between, ends without an error, and leaves the blocks, the height and the root and proposer of every stored state as they
  were. The execution layer is deterministic and the stored states are what it computes.\<close>

theorem replay_restores_execution:
  assumes "reliable_store E view" and "exec_contract X ht F" and "0 < g_InitialHeight g" and "target < - 1"
    and "replayable E g F blk root prp (ht x) target d" and "ht x < target" and "g_InitialHeight g \<le> ht x + 1"
  shows "\<exists>d' x'. SyncToHeight E X g (d, x) target = Some ((d', x'), Inr ()) \<and> ht x' = target \<and>
    blocks_of (view d') = blocks_of (view d) \<and> Height E d' = Height E d \<and>
    (\<forall>h. ht x < h \<and> h \<le> target \<longrightarrow> (\<exists>st. GetStateAtHeight E d' h = Inr st \<and> st_AppHash st = root h \<and>
       st_NextProposerAddress st = prp h \<and> st_LastBlockHeight st = h))"
  using reliable_store.SyncToHeight_restores [OF assms refl] unfolding after_replay_def by blast

theorem replay_restores_execution_witness:
  "\<exists>d'. SyncToHeight (store_on mem_ds) ex_layer ex_gen1 (ex_replay_store, 5) 6 = Some ((d', 6), Inr ()) \<and>
     (\<exists>st. GetStateAtHeight (store_on mem_ds) d' 6 = Inr st \<and> st_AppHash st = [20])"
proof -
  have "(6 :: u64) < - 1" "(5 :: u64) < 6" "0 < g_InitialHeight ex_gen1" "g_InitialHeight ex_gen1 \<le> id 5 + 1"
    by (simp_all add: ex_gen1_def u64_order unsigned_minus_1_eq_mask mask_eq_exp_minus_1)
  with replay_restores_execution [OF mem_store.reliable_store_axioms ex_layer_contract, of ex_gen1 6 "\<lambda>_. ex_block6" "\<lambda>_. [20]"
    "\<lambda>_. 7 # ex_key" 5 ex_replay_store] ex_replayable
  obtain d' where "SyncToHeight (store_on mem_ds) ex_layer ex_gen1 (ex_replay_store, 5) 6 = Some ((d', 6), Inr ())"
    "\<forall>h. 5 < h \<and> h \<le> 6 \<longrightarrow> (\<exists>st. GetStateAtHeight (store_on mem_ds) d' h = Inr st \<and> st_AppHash st = [20] \<and>
       st_NextProposerAddress st = 7 # ex_key \<and> st_LastBlockHeight st = h)" by auto
  moreover have "(5 :: u64) < 6 \<and> (6 :: u64) \<le> 6" by simp
  ultimately show ?thesis by blast
qed

text \<open>C35: Replaying loses the DA heights: every state it stores has the DA height of the state it started from, whatever DA
  height the state stored for that block had.\<close>

theorem replay_resets_da_heights:
  assumes "reliable_store E view" and "exec_contract X ht F" and "0 < g_InitialHeight g" and "target < - 1"
    and "replayable E g F blk root prp (ht x) target d" and "ht x < target" and "g_InitialHeight g \<le> ht x"
    and "GetStateAtHeight E d (ht x) = Inr s0"
  shows "\<exists>d' x'. SyncToHeight E X g (d, x) target = Some ((d', x'), Inr ()) \<and>
    (\<forall>h. ht x < h \<and> h \<le> target \<longrightarrow> (\<exists>st. GetStateAtHeight E d' h = Inr st \<and> st_DAHeight st = st_DAHeight s0))"
proof -
  have "ht x + 1 \<noteq> g_InitialHeight g" "g_InitialHeight g \<le> ht x + 1"
    using assms(7) unat_Suc_u64 [OF assms(6)] by (auto simp: u64_order)
  then show ?thesis
    using reliable_store.SyncToHeight_restores [OF assms(1-6) _ refl] assms(8) unfolding after_replay_def by fastforce
qed

theorem replay_resets_da_heights_witness:
  "\<exists>d' x' st. SyncToHeight (store_on mem_ds) ex_layer ex_gen1 (ex_replay_store, 5) 6 = Some ((d', x'), Inr ()) \<and>
     GetStateAtHeight (store_on mem_ds) ex_replay_store 6 = Inr ex_after6 \<and> st_DAHeight ex_after6 = 9 \<and>
     GetStateAtHeight (store_on mem_ds) d' 6 = Inr st \<and> st_DAHeight st = 3"
proof -
  have "(6 :: u64) < - 1" "(5 :: u64) < 6" "0 < g_InitialHeight ex_gen1" "g_InitialHeight ex_gen1 \<le> id 5"
    by (simp_all add: ex_gen1_def u64_order unsigned_minus_1_eq_mask mask_eq_exp_minus_1)
  with replay_resets_da_heights [OF mem_store.reliable_store_axioms ex_layer_contract, of ex_gen1 6 "\<lambda>_. ex_block6" "\<lambda>_. [20]"
    "\<lambda>_. 7 # ex_key" 5 ex_replay_store ex_state] ex_replayable ex_replay_states
  obtain d' x' where s: "SyncToHeight (store_on mem_ds) ex_layer ex_gen1 (ex_replay_store, 5) 6 = Some ((d', x'), Inr ())"
    "\<forall>h. 5 < h \<and> h \<le> 6 \<longrightarrow> (\<exists>st. GetStateAtHeight (store_on mem_ds) d' h = Inr st \<and> st_DAHeight st = st_DAHeight ex_state)" by auto
  moreover have "(5 :: u64) < 6 \<and> (6 :: u64) \<le> 6" by simp
  moreover have "st_DAHeight ex_state = 3" "st_DAHeight ex_after6 = 9" by (simp_all add: ex_state_def ex_after6_def)
  ultimately show ?thesis using ex_replay_states(2) by metis
qed

end
