(* ===== verification/DA_Cache.thy ===== *)
theory DA_Cache
  imports Block_Store Lru Validation
begin

text \<open>
  The cache manager (\<open>block/internal/cache\<close>): which headers and data were seen, which are included in the DA layer
  and at which DA height (\<open>generic_cache.go\<close>), which blocks are still to be submitted (\<open>pending_base.go\<close>,
  \<open>pending_headers.go\<close>, \<open>pending_data.go\<close>), and their combination (\<open>manager.go\<close>). The store is the datastore state
  \<open>'d\<close> of \<open>Block_Store\<close>, passed explicitly because the other components write it too. The operations under a
  mutex are single steps; a compare-and-swap then succeeds at the first attempt. Go ranges over a map in any
  order: the order is the argument \<open>ord\<close> of the functions that do so. Errors that are only logged are dropped.
\<close>

section \<open>DA inclusion\<close>

record Cache =
  ca_hashes :: "string \<rightharpoonup> bool"
  ca_daIncluded :: "string \<rightharpoonup> u64"
  ca_hashByHeight :: "u64 \<rightharpoonup> string"
  ca_maxDAHeight :: u64
  ca_hasStore :: bool
  ca_storeKeyPrefix :: string

definition snapshotKey :: "Cache \<Rightarrow> string" where
  "snapshotKey c = ca_storeKeyPrefix c @ ''__snap''"

definition NewCache :: "bool \<Rightarrow> string \<Rightarrow> Cache" where
  "NewCache hasStore keyPrefix =
     \<lparr>ca_hashes = Map.empty, ca_daIncluded = Map.empty, ca_hashByHeight = Map.empty, ca_maxDAHeight = 0,
      ca_hasStore = hasStore, ca_storeKeyPrefix = keyPrefix\<rparr>"

definition isSeen :: "Cache \<Rightarrow> string \<Rightarrow> bool" where
  "isSeen c hash \<longleftrightarrow> ca_hashes c hash = Some True"

definition setSeen :: "Cache \<Rightarrow> string \<Rightarrow> u64 \<Rightarrow> Cache" where
  "setSeen c hash height =
     (if ca_hashByHeight c height = Some hash then c\<lparr>ca_hashes := (ca_hashes c)(hash \<mapsto> True)\<rparr>
      else c\<lparr>ca_hashes := (ca_hashes c)(hash \<mapsto> True), ca_hashByHeight := (ca_hashByHeight c)(height \<mapsto> hash)\<rparr>)"

definition getDAIncluded :: "Cache \<Rightarrow> string \<Rightarrow> u64 option" where
  "getDAIncluded c hash = ca_daIncluded c hash"

definition getDAIncludedByHeight :: "Cache \<Rightarrow> u64 \<Rightarrow> u64 option" where
  "getDAIncludedByHeight c blockHeight =
     (case ca_hashByHeight c blockHeight of None \<Rightarrow> None | Some hash \<Rightarrow> ca_daIncluded c hash)"

definition setMaxDAHeight :: "Cache \<Rightarrow> u64 \<Rightarrow> Cache" where
  "setMaxDAHeight c daHeight = (if daHeight \<le> ca_maxDAHeight c then c else c\<lparr>ca_maxDAHeight := daHeight\<rparr>)"

definition setDAIncluded :: "Cache \<Rightarrow> string \<Rightarrow> u64 \<Rightarrow> u64 \<Rightarrow> Cache" where
  "setDAIncluded c hash daHeight blockHeight =
     (let included = (case ca_hashByHeight c blockHeight of
            Some prev \<Rightarrow> if prev \<noteq> hash then (ca_daIncluded c)(prev := None) else ca_daIncluded c
          | None \<Rightarrow> ca_daIncluded c)
      in setMaxDAHeight (c\<lparr>ca_daIncluded := included(hash \<mapsto> daHeight),
           ca_hashByHeight := (ca_hashByHeight c)(blockHeight \<mapsto> hash)\<rparr>) daHeight)"

definition removeDAIncluded :: "Cache \<Rightarrow> string \<Rightarrow> Cache" where
  "removeDAIncluded c hash = c\<lparr>ca_daIncluded := (ca_daIncluded c)(hash := None)\<rparr>"

definition deleteAllForHeight :: "Cache \<Rightarrow> u64 \<Rightarrow> Cache" where
  "deleteAllForHeight c height =
     (case ca_hashByHeight c height of
        None \<Rightarrow> c
      | Some hash \<Rightarrow> c\<lparr>ca_hashByHeight := (ca_hashByHeight c)(height := None), ca_hashes := (ca_hashes c)(hash := None),
                       ca_daIncluded := (ca_daIncluded c)(hash := None)\<rparr>)"

section \<open>Snapshots\<close>

definition snapshotEntrySize :: nat where
  "snapshotEntrySize = 16"

text \<open>An entry is a block height with the DA height that includes it.\<close>

definition snapshotEntries :: "(u64 set \<Rightarrow> u64 list) \<Rightarrow> Cache \<Rightarrow> (u64 \<times> u64) list" where
  "snapshotEntries ord c =
     List.map_filter (\<lambda>h. map_option (Pair h) (getDAIncludedByHeight c h)) (ord (dom (ca_hashByHeight c)))"

definition encodeSnapshot :: "(u64 \<times> u64) list \<Rightarrow> bytes" where
  "encodeSnapshot entries = concat (map (\<lambda>(blockHeight, daHeight). PutUint64_LE blockHeight @ PutUint64_LE daHeight) entries)"

definition decodeSnapshot :: "bytes \<Rightarrow> (u64 \<times> u64) list" where
  "decodeSnapshot buf =
     (if buf = [] \<or> length buf mod snapshotEntrySize \<noteq> 0 then []
      else map (\<lambda>i. (Uint64_LE (drop (i * snapshotEntrySize) buf), Uint64_LE (drop (i * snapshotEntrySize + 8) buf)))
             [0..<length buf div snapshotEntrySize])"

definition persistSnapshot :: "('d, 'k) store_env \<Rightarrow> (u64 set \<Rightarrow> u64 list) \<Rightarrow> 'd \<Rightarrow> Cache \<Rightarrow> 'd \<times> store_error option" where
  "persistSnapshot E ord d c =
     (if \<not> ca_hasStore c \<or> ca_storeKeyPrefix c = [] then (d, None)
      else SetMetadata E d (snapshotKey c) (encodeSnapshot (snapshotEntries ord c)))"

definition HeightPlaceholderKey :: "string \<Rightarrow> u64 \<Rightarrow> string" where
  "HeightPlaceholderKey prefix height = prefix @ ''__h/'' @ hex_digits 16 (unat height)"

definition restoreEntry :: "u64 \<Rightarrow> u64 \<times> u64 \<Rightarrow> Cache \<Rightarrow> Cache" where
  "restoreEntry finalizedHeight e c =
     (let c = setMaxDAHeight c (snd e) in
      if fst e \<le> finalizedHeight then c
      else let placeholder = HeightPlaceholderKey (ca_storeKeyPrefix c) (fst e)
           in c\<lparr>ca_daIncluded := (ca_daIncluded c)(placeholder \<mapsto> snd e),
                ca_hashByHeight := (ca_hashByHeight c)(fst e \<mapsto> placeholder)\<rparr>)"

definition RestoreFromStore :: "('d, 'k) store_env \<Rightarrow> 'd \<Rightarrow> Cache \<Rightarrow> u64 \<Rightarrow> Cache \<times> store_error option" where
  "RestoreFromStore E d c finalizedHeight =
     (if \<not> ca_hasStore c \<or> ca_storeKeyPrefix c = [] then (c, None)
      else case GetMetadata E d (snapshotKey c) of
        Inl e \<Rightarrow> if IsNotFound e then (c, None) else (c, Some e)
      | Inr buf \<Rightarrow> (fold (restoreEntry finalizedHeight) (decodeSnapshot buf) c, None))"

definition SaveToStore :: "('d, 'k) store_env \<Rightarrow> (u64 set \<Rightarrow> u64 list) \<Rightarrow> 'd \<Rightarrow> Cache \<Rightarrow> 'd \<times> store_error option" where
  "SaveToStore E ord d c = (if \<not> ca_hasStore c then (d, None) else persistSnapshot E ord d c)"

definition ClearFromStore :: "('d, 'k) store_env \<Rightarrow> 'd \<Rightarrow> Cache \<Rightarrow> 'd \<times> store_error option" where
  "ClearFromStore E d c = (if \<not> ca_hasStore c then (d, None) else DeleteMetadata E d (snapshotKey c))"

section \<open>Items to submit\<close>

datatype pending_error =
    PendStore store_error
  | ErrInFlight
  | ErrSubmittedAhead u64 u64
  | ErrPendMarshal wire_error
  | ErrSubmittedLength nat
  | PanicNoMetadata

definition DefaultPendingCacheSize :: u64 where
  "DefaultPendingCacheSize = 200000"

record 'c pendingBase =
  pb_metaKey :: string
  pb_lastHeight :: u64
  pb_pendingCache :: 'c

definition pb_init :: "('d, 'k) store_env \<Rightarrow> 'd \<Rightarrow> 'c pendingBase \<Rightarrow> pending_error + 'c pendingBase" where
  "pb_init E d pb =
     (case GetMetadata E d (pb_metaKey pb) of
        Inl e \<Rightarrow> if IsNotFound e then Inr pb else Inl (PendStore e)
      | Inr raw \<Rightarrow>
          if length raw \<noteq> 8 then Inl (ErrSubmittedLength (length raw))
          else let lsh = Uint64_LE raw in
            if lsh = 0 then Inr pb
            else Inr (if pb_lastHeight pb = 0 then pb\<lparr>pb_lastHeight := lsh\<rparr> else pb))"

definition newPendingBase :: "('d, 'k) store_env \<Rightarrow> ('c, 'v) lru \<Rightarrow> 'd \<Rightarrow> string \<Rightarrow> pending_error + 'c pendingBase" where
  "newPendingBase E L d metaKey = pb_init E d \<lparr>pb_metaKey = metaKey, pb_lastHeight = 0, pb_pendingCache = lru_New L\<rparr>"

text \<open>The first loop of \<open>getPending\<close> fetches what is not cached, the second collects the result.\<close>

definition fetch_missing_item :: "('c, 'v) lru \<Rightarrow> (u64 \<Rightarrow> pending_error + 'v) \<Rightarrow> u64 \<Rightarrow> 'c \<Rightarrow> 'c \<times> pending_error option" where
  "fetch_missing_item L fetch h c =
     (case lru_Peek L c h of
        Some _ \<Rightarrow> (c, None)
      | None \<Rightarrow> (case fetch h of Inl e \<Rightarrow> (c, Some e) | Inr item \<Rightarrow> (lru_Add L c h item, None)))"

definition collect_item ::
  "('c, 'v) lru \<Rightarrow> (u64 \<Rightarrow> pending_error + 'v) \<Rightarrow> u64 \<Rightarrow> 'c \<times> 'v list \<Rightarrow> ('c \<times> 'v list) \<times> pending_error option" where
  "collect_item L fetch h s =
     (case lru_Get L (fst s) h of
        (c, Some item) \<Rightarrow> ((c, snd s @ [item]), None)
      | (c, None) \<Rightarrow>
          (case fetch h of
             Inl e \<Rightarrow> ((c, snd s), Some e)
           | Inr item \<Rightarrow> ((lru_Add L c h item, snd s @ [item]), None)))"

definition pending_between :: "('c, 'v) lru \<Rightarrow> (u64 \<Rightarrow> pending_error + 'v) \<Rightarrow> u64 \<Rightarrow> u64 \<Rightarrow> 'c pendingBase \<Rightarrow>
    ('c pendingBase \<times> (pending_error + 'v list)) option" where
  "pending_between L fetch first endHeight pb =
     (case for_upto (fetch_missing_item L fetch) first endHeight (pb_pendingCache pb) of
        None \<Rightarrow> None
      | Some (c, Some e) \<Rightarrow> Some (pb\<lparr>pb_pendingCache := c\<rparr>, Inl e)
      | Some (c, None) \<Rightarrow>
          (case for_upto (collect_item L fetch) first endHeight (c, []) of
             None \<Rightarrow> None
           | Some (s, Some e) \<Rightarrow> Some (pb\<lparr>pb_pendingCache := fst s\<rparr>, Inl e)
           | Some (s, None) \<Rightarrow> Some (pb\<lparr>pb_pendingCache := fst s\<rparr>, Inr (snd s))))"

definition getPending :: "('d, 'k) store_env \<Rightarrow> ('c, 'v) lru \<Rightarrow> ('d \<Rightarrow> u64 \<Rightarrow> pending_error + 'v) \<Rightarrow> 'd \<Rightarrow> 'c pendingBase \<Rightarrow>
    ('c pendingBase \<times> (pending_error + 'v list)) option" where
  "getPending E L fetch d pb =
     (let lastSubmitted = pb_lastHeight pb in
      case Height E d of
        Inl e \<Rightarrow> Some (pb, Inl (PendStore e))
      | Inr storeHeight \<Rightarrow>
          if lastSubmitted = storeHeight then Some (pb, Inr [])
          else if storeHeight < lastSubmitted then Some (pb, Inl (ErrSubmittedAhead lastSubmitted storeHeight))
          else let endHeight = (if DefaultPendingCacheSize < storeHeight - lastSubmitted
                                then lastSubmitted + DefaultPendingCacheSize else storeHeight)
               in pending_between L (fetch d) (lastSubmitted + 1) endHeight pb)"

text \<open>\<open>height - lastHeight\<close> wraps when the store is behind the last submitted height.\<close>

definition numPending :: "('d, 'k) store_env \<Rightarrow> 'd \<Rightarrow> 'c pendingBase \<Rightarrow> u64" where
  "numPending E d pb = (case Height E d of Inl e \<Rightarrow> 0 | Inr height \<Rightarrow> height - pb_lastHeight pb)"

definition setLastSubmittedHeight :: "('d, 'k) store_env \<Rightarrow> 'd \<Rightarrow> 'c pendingBase \<Rightarrow> u64 \<Rightarrow> 'd \<times> 'c pendingBase" where
  "setLastSubmittedHeight E d pb newLastSubmittedHeight =
     (if pb_lastHeight pb < newLastSubmittedHeight
      then (fst (SetMetadata E d (pb_metaKey pb) (PutUint64_LE newLastSubmittedHeight)),
            pb\<lparr>pb_lastHeight := newLastSubmittedHeight\<rparr>)
      else (d, pb))"

subsection \<open>Headers\<close>

definition fetchSignedHeader :: "('d, 'k) store_env \<Rightarrow> 'd \<Rightarrow> u64 \<Rightarrow> pending_error + 'k SignedHeader" where
  "fetchSignedHeader E d height =
     bindE (mapE PendStore (GetHeader E d height)) (\<lambda>header.
       if Header_Height (sh_Header header) = 0 then Inl ErrInFlight else Inr header)"

definition NewPendingHeaders :: "('d, 'k) store_env \<Rightarrow> ('c, 'k SignedHeader) lru \<Rightarrow> 'd \<Rightarrow> pending_error + 'c pendingBase" where
  "NewPendingHeaders E L d = newPendingBase E L d LastSubmittedHeaderHeightKey"

definition GetPendingHeaders :: "('d, 'k) store_env \<Rightarrow> ('c, 'k SignedHeader) lru \<Rightarrow> 'd \<Rightarrow> 'c pendingBase \<Rightarrow>
    ('c pendingBase \<times> (pending_error + 'k SignedHeader list \<times> bytes list)) option" where
  "GetPendingHeaders E L d ph =
     map_option (map_prod id (\<lambda>r. bindE r (\<lambda>headers.
         bindE (traverse (\<lambda>h. mapE ErrPendMarshal (SignedHeader_MarshalBinary (s_crypto E) (s_codec E) (s_wire E) h)) headers)
           (\<lambda>marshalled. Inr (headers, marshalled)))))
       (getPending E L (fetchSignedHeader E) d ph)"

subsection \<open>Data\<close>

definition LastSubmittedDataHeightKey :: string where
  "LastSubmittedDataHeightKey = ''last-submitted-data-height''"

definition fetchData :: "('d, 'k) store_env \<Rightarrow> 'd \<Rightarrow> u64 \<Rightarrow> pending_error + Data" where
  "fetchData E d height =
     bindE (mapE PendStore (GetBlockData E d height)) (\<lambda>(header, data).
       case Data_Height data of
         None \<Rightarrow> Inl PanicNoMetadata
       | Some n \<Rightarrow> if n = 0 then Inl ErrInFlight else Inr data)"

definition NewPendingData :: "('d, 'k) store_env \<Rightarrow> ('c, Data) lru \<Rightarrow> 'd \<Rightarrow> pending_error + 'c pendingBase" where
  "NewPendingData E L d = newPendingBase E L d LastSubmittedDataHeightKey"

definition marshalData :: "codec \<Rightarrow> Data \<Rightarrow> pending_error + bytes" where
  "marshalData P data = (case Data_MarshalBinary P data of None \<Rightarrow> Inl (ErrPendMarshal ErrMarshal) | Some bz \<Rightarrow> Inr bz)"

definition PD_GetPendingData :: "('d, 'k) store_env \<Rightarrow> ('c, Data) lru \<Rightarrow> 'd \<Rightarrow> 'c pendingBase \<Rightarrow>
    ('c pendingBase \<times> (pending_error + Data list \<times> bytes list)) option" where
  "PD_GetPendingData E L d pd =
     map_option (map_prod id (\<lambda>r. bindE r (\<lambda>dataList.
         bindE (traverse (marshalData (s_codec E)) dataList) (\<lambda>marshalled. Inr (dataList, marshalled)))))
       (getPending E L (fetchData E) d pd)"

text \<open>Leaving the loop at a block that cannot be read or is not empty is not an error; missing metadata is a \<open>nil\<close>
  dereference.\<close>

definition advance_empty ::
  "('d, 'k) store_env \<Rightarrow> u64 \<Rightarrow> 'd \<times> 'c pendingBase \<Rightarrow> ('d \<times> 'c pendingBase) \<times> pending_error option option" where
  "advance_empty E height s =
     (case fetchData E (fst s) height of
        Inl e \<Rightarrow> (s, Some (if e = PanicNoMetadata then Some e else None))
      | Inr data \<Rightarrow>
          if d_Txs data \<noteq> [] then (s, Some None) else (setLastSubmittedHeight E (fst s) (snd s) height, None))"

definition advancePastEmptyData ::
  "('d, 'k) store_env \<Rightarrow> 'd \<Rightarrow> 'c pendingBase \<Rightarrow> (('d \<times> 'c pendingBase) \<times> pending_error option) option" where
  "advancePastEmptyData E d pd =
     (case Height E d of
        Inl e \<Rightarrow> Some ((d, pd), None)
      | Inr storeHeight \<Rightarrow>
          map_option (map_prod id (\<lambda>r. Option.bind r id))
            (for_upto (advance_empty E) (pb_lastHeight pd + 1) storeHeight (d, pd)))"

definition PD_NumPendingData ::
  "('d, 'k) store_env \<Rightarrow> 'd \<Rightarrow> 'c pendingBase \<Rightarrow> (('d \<times> 'c pendingBase) \<times> (pending_error + u64)) option" where
  "PD_NumPendingData E d pd =
     map_option (\<lambda>((d, pd), e). ((d, pd), check e (numPending E d pd))) (advancePastEmptyData E d pd)"

section \<open>The manager\<close>

definition HeaderDAIncludedPrefix :: string where
  "HeaderDAIncludedPrefix = ''cache/header-da-included/''"

definition DataDAIncludedPrefix :: string where
  "DataDAIncludedPrefix = ''cache/data-da-included/''"

datatype EventSource = SourceDA | SourceP2P | SourceRaft

record 'k DAHeightEvent =
  ev_Header :: "'k SignedHeader"
  ev_Data :: Data
  ev_DaHeight :: u64
  ev_Source :: EventSource
  ev_DaHeightHints :: "u64 \<times> u64"

record ('k, 'h, 'b) manager =
  mg_headerCache :: Cache
  mg_dataCache :: Cache
  mg_pendingEvents :: "u64 \<rightharpoonup> 'k DAHeightEvent"
  mg_pendingHeaders :: "'h pendingBase"
  mg_pendingData :: "'b pendingBase"

record ('d, 'k, 'h, 'b) cache_env =
  cv_store :: "('d, 'k) store_env"
  cv_headers :: "('h, 'k SignedHeader) lru"
  cv_data :: "('b, Data) lru"
  cv_ClearCache :: bool

datatype metadata_error = MetaRead store_error | MetaLength nat

definition getMetadataUint64 :: "('d, 'k) store_env \<Rightarrow> 'd \<Rightarrow> string \<Rightarrow> metadata_error + u64 option" where
  "getMetadataUint64 E d key =
     (case GetMetadata E d key of
        Inl e \<Rightarrow> if IsNotFound e then Inr None else Inl (MetaRead e)
      | Inr b \<Rightarrow> if length b \<noteq> 8 then Inl (MetaLength (length b)) else Inr (Some (Uint64_LE b)))"

definition seedMaxDAHeight :: "('d, 'k) store_env \<Rightarrow> 'd \<Rightarrow> string \<Rightarrow> Cache \<Rightarrow> Cache" where
  "seedMaxDAHeight E d key c = (case getMetadataUint64 E d key of Inr (Some h) \<Rightarrow> setMaxDAHeight c h | _ \<Rightarrow> c)"

definition initDAHeightFromStore :: "('d, 'k) store_env \<Rightarrow> 'd \<Rightarrow> ('k, 'h, 'b) manager \<Rightarrow> ('k, 'h, 'b) manager" where
  "initDAHeightFromStore E d m =
     (case getMetadataUint64 E d DAIncludedHeightKey of
        Inr (Some daIncludedHeight) \<Rightarrow>
          if daIncludedHeight = 0 then m
          else m\<lparr>mg_headerCache := seedMaxDAHeight E d (GetHeightToDAHeightHeaderKey daIncludedHeight) (mg_headerCache m),
                 mg_dataCache := seedMaxDAHeight E d (GetHeightToDAHeightDataKey daIncludedHeight) (mg_dataCache m)\<rparr>
      | _ \<Rightarrow> m)"

definition Manager_SaveToStore ::
  "('d, 'k) store_env \<Rightarrow> (u64 set \<Rightarrow> u64 list) \<Rightarrow> 'd \<Rightarrow> ('k, 'h, 'b) manager \<Rightarrow> 'd \<times> store_error option" where
  "Manager_SaveToStore E ord d m =
     (case SaveToStore E ord d (mg_headerCache m) of
        (d, Some e) \<Rightarrow> (d, Some e)
      | (d, None) \<Rightarrow> SaveToStore E ord d (mg_dataCache m))"

definition Manager_RestoreFromStore ::
  "('d, 'k) store_env \<Rightarrow> 'd \<Rightarrow> ('k, 'h, 'b) manager \<Rightarrow> ('k, 'h, 'b) manager \<times> store_error option" where
  "Manager_RestoreFromStore E d m =
     (let daIncludedHeight = (case getMetadataUint64 E d DAIncludedHeightKey of Inr (Some h) \<Rightarrow> h | _ \<Rightarrow> 0) in
      case RestoreFromStore E d (mg_headerCache m) daIncludedHeight of
        (hc, Some e) \<Rightarrow> (m\<lparr>mg_headerCache := hc\<rparr>, Some e)
      | (hc, None) \<Rightarrow>
          (case RestoreFromStore E d (mg_dataCache m) daIncludedHeight of
             (dc, Some e) \<Rightarrow> (m\<lparr>mg_headerCache := hc, mg_dataCache := dc\<rparr>, Some e)
           | (dc, None) \<Rightarrow> (initDAHeightFromStore E d (m\<lparr>mg_headerCache := hc, mg_dataCache := dc\<rparr>), None)))"

definition Manager_ClearFromStore ::
  "('d, 'k) store_env \<Rightarrow> 'd \<Rightarrow> ('k, 'h, 'b) manager \<Rightarrow> ('d \<times> ('k, 'h, 'b) manager) \<times> store_error option" where
  "Manager_ClearFromStore E d m =
     (case ClearFromStore E d (mg_headerCache m) of
        (d, Some e) \<Rightarrow> ((d, m), Some e)
      | (d, None) \<Rightarrow>
          (case ClearFromStore E d (mg_dataCache m) of
             (d, Some e) \<Rightarrow> ((d, m), Some e)
           | (d, None) \<Rightarrow>
               ((d, initDAHeightFromStore E d (m\<lparr>mg_headerCache := NewCache True HeaderDAIncludedPrefix,
                       mg_dataCache := NewCache True DataDAIncludedPrefix, mg_pendingEvents := Map.empty\<rparr>)), None)))"

text \<open>A failure to clear or to restore is only logged.\<close>

definition newManager :: "('d, 'k, 'h, 'b) cache_env \<Rightarrow> 'd \<Rightarrow> bool \<Rightarrow> 'd \<times> (pending_error + ('k, 'h, 'b) manager)" where
  "newManager M d restoreDAInclusion =
     (let E = cv_store M in
      case bindE (NewPendingHeaders E (cv_headers M) d) (\<lambda>ph.
           bindE (NewPendingData E (cv_data M) d) (\<lambda>pd.
             Inr \<lparr>mg_headerCache = NewCache True HeaderDAIncludedPrefix, mg_dataCache = NewCache True DataDAIncludedPrefix,
                  mg_pendingEvents = Map.empty, mg_pendingHeaders = ph, mg_pendingData = pd\<rparr>)) of
        Inl e \<Rightarrow> (d, Inl e)
      | Inr impl \<Rightarrow>
          if cv_ClearCache M then (let ((d, impl), _) = Manager_ClearFromStore E d impl in (d, Inr impl))
          else if restoreDAInclusion then (d, Inr (fst (Manager_RestoreFromStore E d impl)))
          else (d, Inr impl))"

definition NewManager :: "('d, 'k, 'h, 'b) cache_env \<Rightarrow> 'd \<Rightarrow> 'd \<times> (pending_error + ('k, 'h, 'b) manager)" where
  "NewManager M d = newManager M d True"

definition NewManagerWithoutDAInclusionRestore ::
  "('d, 'k, 'h, 'b) cache_env \<Rightarrow> 'd \<Rightarrow> 'd \<times> (pending_error + ('k, 'h, 'b) manager)" where
  "NewManagerWithoutDAInclusionRestore M d = newManager M d False"

definition DaHeight :: "('k, 'h, 'b) manager \<Rightarrow> u64" where
  "DaHeight m = max (ca_maxDAHeight (mg_headerCache m)) (ca_maxDAHeight (mg_dataCache m))"

definition SetHeaderSeen :: "('k, 'h, 'b) manager \<Rightarrow> string \<Rightarrow> u64 \<Rightarrow> ('k, 'h, 'b) manager" where
  "SetHeaderSeen m hash blockHeight = m\<lparr>mg_headerCache := setSeen (mg_headerCache m) hash blockHeight\<rparr>"

definition SetDataSeen :: "('k, 'h, 'b) manager \<Rightarrow> string \<Rightarrow> u64 \<Rightarrow> ('k, 'h, 'b) manager" where
  "SetDataSeen m hash blockHeight = m\<lparr>mg_dataCache := setSeen (mg_dataCache m) hash blockHeight\<rparr>"

definition SetHeaderDAIncluded :: "('k, 'h, 'b) manager \<Rightarrow> string \<Rightarrow> u64 \<Rightarrow> u64 \<Rightarrow> ('k, 'h, 'b) manager" where
  "SetHeaderDAIncluded m hash daHeight blockHeight =
     m\<lparr>mg_headerCache := setDAIncluded (mg_headerCache m) hash daHeight blockHeight\<rparr>"

definition SetDataDAIncluded :: "('k, 'h, 'b) manager \<Rightarrow> string \<Rightarrow> u64 \<Rightarrow> u64 \<Rightarrow> ('k, 'h, 'b) manager" where
  "SetDataDAIncluded m hash daHeight blockHeight =
     m\<lparr>mg_dataCache := setDAIncluded (mg_dataCache m) hash daHeight blockHeight\<rparr>"

definition RemoveHeaderDAIncluded :: "('k, 'h, 'b) manager \<Rightarrow> string \<Rightarrow> ('k, 'h, 'b) manager" where
  "RemoveHeaderDAIncluded m hash = m\<lparr>mg_headerCache := removeDAIncluded (mg_headerCache m) hash\<rparr>"

definition RemoveDataDAIncluded :: "('k, 'h, 'b) manager \<Rightarrow> string \<Rightarrow> ('k, 'h, 'b) manager" where
  "RemoveDataDAIncluded m hash = m\<lparr>mg_dataCache := removeDAIncluded (mg_dataCache m) hash\<rparr>"

definition DeleteHeight :: "('k, 'h, 'b) manager \<Rightarrow> u64 \<Rightarrow> ('k, 'h, 'b) manager" where
  "DeleteHeight m blockHeight =
     m\<lparr>mg_headerCache := deleteAllForHeight (mg_headerCache m) blockHeight,
       mg_dataCache := deleteAllForHeight (mg_dataCache m) blockHeight,
       mg_pendingEvents := (mg_pendingEvents m)(blockHeight := None)\<rparr>"

definition SetPendingEvent :: "('k, 'h, 'b) manager \<Rightarrow> u64 \<Rightarrow> 'k DAHeightEvent \<Rightarrow> ('k, 'h, 'b) manager" where
  "SetPendingEvent m height event = m\<lparr>mg_pendingEvents := (mg_pendingEvents m)(height \<mapsto> event)\<rparr>"

definition GetNextPendingEvent :: "('k, 'h, 'b) manager \<Rightarrow> u64 \<Rightarrow> ('k, 'h, 'b) manager \<times> 'k DAHeightEvent option" where
  "GetNextPendingEvent m height =
     (m\<lparr>mg_pendingEvents := (mg_pendingEvents m)(height := None)\<rparr>, mg_pendingEvents m height)"

definition Manager_GetPendingHeaders :: "('d, 'k, 'h, 'b) cache_env \<Rightarrow> 'd \<Rightarrow> ('k, 'h, 'b) manager \<Rightarrow>
    (('k, 'h, 'b) manager \<times> (pending_error + 'k SignedHeader list \<times> bytes list)) option" where
  "Manager_GetPendingHeaders M d m =
     map_option (map_prod (\<lambda>ph. m\<lparr>mg_pendingHeaders := ph\<rparr>) id)
       (GetPendingHeaders (cv_store M) (cv_headers M) d (mg_pendingHeaders m))"

text \<open>Data without transactions is not submitted; the other items are returned unsigned.\<close>

definition unsignedData :: "Data \<Rightarrow> 'k SignedData" where
  "unsignedData data = \<lparr>sd_Data = data, sd_Signature = [], sd_Signer = emptySigner\<rparr>"

definition GetPendingData :: "('d, 'k, 'h, 'b) cache_env \<Rightarrow> 'd \<Rightarrow> ('k, 'h, 'b) manager \<Rightarrow>
    (('k, 'h, 'b) manager \<times> (pending_error + 'k SignedData list \<times> bytes list)) option" where
  "GetPendingData M d m =
     map_option (map_prod (\<lambda>pd. m\<lparr>mg_pendingData := pd\<rparr>)
         (\<lambda>r. bindE r (\<lambda>(dataList, marshalledData).
           let kept = filter (\<lambda>p. d_Txs (fst p) \<noteq> []) (zip dataList marshalledData)
           in Inr (map (unsignedData \<circ> fst) kept, map snd kept))))
       (PD_GetPendingData (cv_store M) (cv_data M) d (mg_pendingData m))"

definition SetLastSubmittedHeaderHeight ::
  "('d, 'k, 'h, 'b) cache_env \<Rightarrow> 'd \<Rightarrow> ('k, 'h, 'b) manager \<Rightarrow> u64 \<Rightarrow> 'd \<times> ('k, 'h, 'b) manager" where
  "SetLastSubmittedHeaderHeight M d m height =
     (let (d, ph) = setLastSubmittedHeight (cv_store M) d (mg_pendingHeaders m) height in (d, m\<lparr>mg_pendingHeaders := ph\<rparr>))"

definition SetLastSubmittedDataHeight ::
  "('d, 'k, 'h, 'b) cache_env \<Rightarrow> 'd \<Rightarrow> ('k, 'h, 'b) manager \<Rightarrow> u64 \<Rightarrow> 'd \<times> ('k, 'h, 'b) manager" where
  "SetLastSubmittedDataHeight M d m height =
     (let (d, pd) = setLastSubmittedHeight (cv_store M) d (mg_pendingData m) height in (d, m\<lparr>mg_pendingData := pd\<rparr>))"

definition NumPendingHeaders :: "('d, 'k, 'h, 'b) cache_env \<Rightarrow> 'd \<Rightarrow> ('k, 'h, 'b) manager \<Rightarrow> u64" where
  "NumPendingHeaders M d m = numPending (cv_store M) d (mg_pendingHeaders m)"

definition NumPendingData :: "('d, 'k, 'h, 'b) cache_env \<Rightarrow> 'd \<Rightarrow> ('k, 'h, 'b) manager \<Rightarrow>
    (('d \<times> ('k, 'h, 'b) manager) \<times> (pending_error + u64)) option" where
  "NumPendingData M d m =
     map_option (map_prod (map_prod id (\<lambda>pd. m\<lparr>mg_pendingData := pd\<rparr>)) id)
       (PD_NumPendingData (cv_store M) d (mg_pendingData m))"

end
