(* ===== verification/Cache_Laws.thy ===== *)
theory Cache_Laws
  imports DA_Cache Store_Laws
begin

text \<open>
  What the caches promise: the pending items are the stored blocks after the last submitted one, in order and without
  gaps, whatever the LRU cache evicted; empty data is passed over and nothing else; and a snapshot brings back the DA
  inclusion of every height that is not finalized.
\<close>

section \<open>Loops over heights\<close>

lemma for_upto_indexed:
  assumes "for_upto body lo hi s = Some (s', r)" and "P lo s"
    and "\<And>h s s'. h \<le> hi \<Longrightarrow> P h s \<Longrightarrow> body h s = (s', None) \<Longrightarrow> P (h + 1) s'"
    and "\<And>h s s' e. h \<le> hi \<Longrightarrow> P h s \<Longrightarrow> body h s = (s', Some e) \<Longrightarrow> Q s'"
    and "\<And>h s. P h s \<Longrightarrow> Q s"
  shows "Q s'"
proof -
  have "\<forall>P. P lo s \<longrightarrow> (\<forall>h s s'. h \<le> hi \<longrightarrow> P h s \<longrightarrow> body h s = (s', None) \<longrightarrow> P (h + 1) s') \<longrightarrow>
      (\<forall>h s s' e. h \<le> hi \<longrightarrow> P h s \<longrightarrow> body h s = (s', Some e) \<longrightarrow> Q s') \<longrightarrow> (\<forall>h s. P h s \<longrightarrow> Q s) \<longrightarrow> Q (fst (s', r))"
  proof (rule for_upto.raw_induct [OF _ assms(1)])
    fix f body lo hi s y
    assume IH: "\<And>body lo hi s y. f body lo hi s = Some y \<Longrightarrow>
        \<forall>P. P lo s \<longrightarrow> (\<forall>h s s'. h \<le> hi \<longrightarrow> P h s \<longrightarrow> body h s = (s', None) \<longrightarrow> P (h + 1) s') \<longrightarrow>
          (\<forall>h s s' e. h \<le> hi \<longrightarrow> P h s \<longrightarrow> body h s = (s', Some e) \<longrightarrow> Q s') \<longrightarrow> (\<forall>h s. P h s \<longrightarrow> Q s) \<longrightarrow> Q (fst y)"
      and eq: "(if lo \<le> hi then (case body lo s of (s', Some e) \<Rightarrow> Some (s', Some e) | (s', None) \<Rightarrow> f body (lo + 1) hi s')
        else Some (s, None)) = Some y"
    obtain s1 o1 where b: "body lo s = (s1, o1)" by fastforce
    show "\<forall>P. P lo s \<longrightarrow> (\<forall>h s s'. h \<le> hi \<longrightarrow> P h s \<longrightarrow> body h s = (s', None) \<longrightarrow> P (h + 1) s') \<longrightarrow>
          (\<forall>h s s' e. h \<le> hi \<longrightarrow> P h s \<longrightarrow> body h s = (s', Some e) \<longrightarrow> Q s') \<longrightarrow> (\<forall>h s. P h s \<longrightarrow> Q s) \<longrightarrow> Q (fst y)"
    proof (intro allI impI)
      fix P
      assume P: "P lo s" and step: "\<forall>h s s'. h \<le> hi \<longrightarrow> P h s \<longrightarrow> body h s = (s', None) \<longrightarrow> P (h + 1) s'"
        and leave: "\<forall>h s s' e. h \<le> hi \<longrightarrow> P h s \<longrightarrow> body h s = (s', Some e) \<longrightarrow> Q s'" and fin: "\<forall>h s. P h s \<longrightarrow> Q s"
      show "Q (fst y)"
      proof (cases "lo \<le> hi")
        case False
        with eq P fin show ?thesis by auto
      next
        case True
        show ?thesis
        proof (cases o1)
          case None
          with eq b True have "f body (lo + 1) hi s1 = Some y" by simp
          moreover have "P (lo + 1) s1" using step True P b None by blast
          ultimately show ?thesis using IH step leave fin by blast
        next
          case (Some e)
          with eq b True have "y = (s1, Some e)" by simp
          moreover have "Q s1" using leave True P b Some by blast
          ultimately show ?thesis by simp
        qed
      qed
    qed
  qed
  from this [THEN spec, of P] have "Q (fst (s', r))" using assms(2-) by blast
  then show ?thesis by simp
qed

text \<open>A loop up to the largest \<open>uint64\<close> only ends by leaving it.\<close>

lemma for_upto_bound:
  assumes "for_upto body lo hi s = Some (s', None)"
  shows "hi < - 1"
proof (rule ccontr)
  assume "\<not> hi < - 1"
  then have hi: "hi = - 1" using word_n1_ge [of hi] by (simp add: order.order_iff_strict)
  have "hi = - 1 \<longrightarrow> snd (s', None :: 'b option) \<noteq> None"
  proof (rule for_upto.raw_induct [OF _ assms])
    fix f body lo hi s y
    assume IH: "\<And>body lo hi s y. f body lo hi s = Some y \<Longrightarrow> hi = (- 1 :: u64) \<longrightarrow> snd y \<noteq> (None :: 'b option)"
      and eq: "(if lo \<le> hi then (case body lo s of (s', Some e) \<Rightarrow> Some (s', Some e) | (s', None) \<Rightarrow> f body (lo + 1) hi s')
        else Some (s, None)) = Some y"
    obtain s1 o1 where "body lo s = (s1, o1)" by fastforce
    with eq IH [of body "lo + 1" hi s1 y] show "hi = - 1 \<longrightarrow> snd y \<noteq> None" by (cases o1) auto
  qed
  with hi show False by simp
qed

section \<open>Consecutive blocks\<close>

text \<open>\<open>consecutive P l vs\<close>: the items \<open>vs\<close> belong to the heights after \<open>l\<close>, in order; \<open>covered P ok l\<close>: every height up to
  \<open>l\<close> has an item that is \<open>ok\<close>.\<close>

fun consecutive :: "(u64 \<Rightarrow> 'v \<Rightarrow> bool) \<Rightarrow> u64 \<Rightarrow> 'v list \<Rightarrow> bool" where
  "consecutive P l [] \<longleftrightarrow> True"
| "consecutive P l (v # vs) \<longleftrightarrow> l < - 1 \<and> P (l + 1) v \<and> consecutive P (l + 1) vs"

definition covered :: "(u64 \<Rightarrow> 'v \<Rightarrow> bool) \<Rightarrow> ('v \<Rightarrow> bool) \<Rightarrow> u64 \<Rightarrow> bool" where
  "covered P ok l \<longleftrightarrow> (\<forall>h. 0 < h \<and> h \<le> l \<longrightarrow> (\<exists>v. P h v \<and> ok v))"

lemma consecutive_append:
  "consecutive P l (xs @ ys) \<longleftrightarrow> consecutive P l xs \<and> consecutive P (l + of_nat (length xs)) ys"
  by (induction xs arbitrary: l) (auto simp: algebra_simps)

lemma consecutive_take: "consecutive P l vs \<Longrightarrow> consecutive P l (take n vs)"
  using consecutive_append [of P l "take n vs" "drop n vs"] by simp

lemma consecutive_drop: "consecutive P l vs \<Longrightarrow> n \<le> length vs \<Longrightarrow> consecutive P (l + of_nat n) (drop n vs)"
  using consecutive_append [of P l "take n vs" "drop n vs"] by simp

lemma consecutive_mono: "consecutive P l vs \<Longrightarrow> (\<And>h v. P h v \<Longrightarrow> Q h v) \<Longrightarrow> consecutive Q l vs"
  by (induction vs arbitrary: l) auto

lemma consecutive_unat: "consecutive P l vs \<Longrightarrow> unat (l + of_nat (length vs)) = unat l + length vs"
proof (induction vs arbitrary: l)
  case (Cons v vs)
  then have "unat (l + 1) = Suc (unat l)" using unat_Suc_u64 [of l "- 1"] by simp
  with Cons.prems Cons.IH [of "l + 1"] show ?case by (simp add: add.assoc)
qed simp

lemma consecutive_last:
  "consecutive P l vs \<Longrightarrow> vs \<noteq> [] \<Longrightarrow> P (l + of_nat (length vs)) (last vs)"
proof (induction vs arbitrary: l)
  case (Cons v vs)
  then show ?case using Cons.IH [of "l + 1"] by (cases "vs = []") (auto simp: add.assoc)
qed simp

lemma u64_step_le: "(l :: u64) < - 1 \<Longrightarrow> h \<le> l + 1 \<longleftrightarrow> h \<le> l \<or> h = l + 1"
  using unat_Suc_u64 [of l "- 1"] by (auto simp: u64_order)

lemma covered_consecutive:
  "covered P ok l \<Longrightarrow> consecutive P l vs \<Longrightarrow> \<forall>v \<in> set vs. ok v \<Longrightarrow> covered P ok (l + of_nat (length vs))"
proof (induction vs arbitrary: l)
  case (Cons v vs)
  then have "covered P ok (l + 1)" by (auto simp: covered_def u64_step_le)
  with Cons.prems Cons.IH [of "l + 1"] show ?case by (simp add: add.assoc)
qed simp

lemma covered_mono: "covered P ok l \<Longrightarrow> l' \<le> l \<Longrightarrow> (\<And>h v. 0 < h \<Longrightarrow> h \<le> l' \<Longrightarrow> P h v \<Longrightarrow> ok v \<Longrightarrow> P' h v \<and> ok' v) \<Longrightarrow> covered P' ok' l'"
  unfolding covered_def by (meson order.trans)

lemma consecutive_range:
  "l \<le> hi \<Longrightarrow> hi < - 1 \<Longrightarrow> list_all2 P (u64_range (l + 1) hi) vs \<longrightarrow> consecutive P l vs \<and> l + of_nat (length vs) = hi"
proof (induction vs arbitrary: l)
  case Nil
  have l: "l < - 1" using Nil by (rule order.strict_trans1)
  show ?case
  proof
    assume "list_all2 P (u64_range (l + 1) hi) []"
    then have "u64_range (l + 1) hi = []" by simp
    with u64_range_Cons [OF _ Nil(2), of "l + 1"] have "\<not> l + 1 \<le> hi" by (metis list.distinct(1))
    with Nil(1) unat_Suc_u64 [OF l] have "hi = l" by (auto simp: u64_order)
    then show "consecutive P l [] \<and> l + of_nat (length ([] :: 'a list)) = hi" by simp
  qed
next
  case (Cons v vs)
  have l: "l < - 1" using Cons.prems by (rule order.strict_trans1)
  show ?case
  proof
    assume a: "list_all2 P (u64_range (l + 1) hi) (v # vs)"
    then have "u64_range (l + 1) hi \<noteq> []" by auto
    then have le: "l + 1 \<le> hi" by (simp add: u64_range_def u64_le_iff split: if_splits)
    from a have "P (l + 1) v" "list_all2 P (u64_range (l + 1 + 1) hi) vs"
      by (simp_all only: u64_range_Cons [OF le Cons.prems(2)] list.rel_inject)
    with Cons.IH [OF le Cons.prems(2)] l show "consecutive P l (v # vs) \<and> l + of_nat (length (v # vs)) = hi"
      by (simp add: add.assoc)
  qed
qed

text \<open>The first items that satisfy \<open>K\<close> end at one of them.\<close>

lemma filter_split:
  "0 < c \<Longrightarrow> c \<le> length (filter K ds) \<Longrightarrow>
     \<exists>j. 0 < j \<and> j \<le> length ds \<and> take c (filter K ds) = filter K (take j ds) \<and> drop c (filter K ds) = filter K (drop j ds) \<and>
       K (ds ! (j - 1))"
proof (induction ds arbitrary: c)
  case (Cons d ds)
  show ?case
  proof (cases "K d \<and> c = 1")
    case True
    then show ?thesis by (intro exI [of _ 1]) auto
  next
    case False
    define c' where "c' = (if K d then c - 1 else c)"
    have c': "0 < c'" "c' \<le> length (filter K ds)" using False Cons.prems by (auto simp: c'_def)
    from Cons.IH [OF this] obtain j where j: "0 < j" "j \<le> length ds" "take c' (filter K ds) = filter K (take j ds)"
      "drop c' (filter K ds) = filter K (drop j ds)" "K (ds ! (j - 1))" by blast
    with Cons.prems(1) show ?thesis
      by (intro exI [of _ "Suc j"]) (auto simp: c'_def take_Cons drop_Cons nth_Cons split: nat.splits if_splits)
  qed
qed simp

section \<open>Pending items\<close>

lemma u64_capped:
  assumes "(l :: u64) < n"
  shows "(if k < n - l then l + k else n) \<le> n" and "l \<le> (if k < n - l then l + k else n)"
proof -
  have "unat (n - l) = unat n - unat l" using assms unat_sub_no_wrap [of l n] by (simp add: u64_order)
  moreover have "unat (l + k) = unat l + unat k" if "unat k < unat n - unat l"
    by (rule unat_add_no_wrap) (use that unat_u64_bound [of n] in linarith)
  ultimately show "(if k < n - l then l + k else n) \<le> n" "l \<le> (if k < n - l then l + k else n)"
    using assms by (auto simp: u64_order)
qed

context lru_laws
begin

definition agrees :: "(u64 \<Rightarrow> 'v \<Rightarrow> bool) \<Rightarrow> 'c \<Rightarrow> bool" where
  "agrees P c \<longleftrightarrow> (\<forall>h v. lview c h = Some v \<longrightarrow> P h v)"

lemma agrees_add: "agrees P c \<Longrightarrow> P h v \<Longrightarrow> agrees P (lru_Add L c h v)"
  using lview_add by (fastforce simp: agrees_def)

lemma agrees_get: "agrees P c \<Longrightarrow> lru_Get L c h = (c', r) \<Longrightarrow> agrees P c' \<and> (\<forall>v. r = Some v \<longrightarrow> P h v)"
  using get_view by (fastforce simp: agrees_def)

lemma fetch_missing_agrees:
  assumes "agrees P c" "\<And>v. fetch h = Inr v \<Longrightarrow> P h v" "fetch_missing_item L fetch h c = (c', r)"
  shows "agrees P c'"
  using assms agrees_add by (auto simp: fetch_missing_item_def split: option.splits sum.splits)

lemma collect_agrees:
  assumes "agrees P (fst s)" "\<And>v. fetch h = Inr v \<Longrightarrow> P h v" "collect_item L fetch h s = (s', r)"
  shows "agrees P (fst s') \<and> (r = None \<longrightarrow> (\<exists>v. snd s' = snd s @ [v] \<and> P h v))"
proof -
  obtain c o1 where g: "lru_Get L (fst s) h = (c, o1)" by fastforce
  with agrees_get [OF assms(1)] have c: "agrees P c" "\<And>v. o1 = Some v \<Longrightarrow> P h v" by blast+
  show ?thesis
  proof (cases o1)
    case (Some v)
    with assms(3) g c show ?thesis by (auto simp: collect_item_def)
  next
    case None
    with assms(2, 3) g c agrees_add show ?thesis by (auto simp: collect_item_def split: sum.splits)
  qed
qed

lemma run_collect:
  assumes "run_body (collect_item L fetch) hs s = (s', r)" "agrees P (fst s)" "\<And>h v. h \<in> set hs \<Longrightarrow> fetch h = Inr v \<Longrightarrow> P h v"
  shows "agrees P (fst s') \<and> (r = None \<longrightarrow> (\<exists>vs. snd s' = snd s @ vs \<and> list_all2 P hs vs))"
  using assms
proof (induction hs arbitrary: s)
  case (Cons h hs)
  obtain s1 o1 where b: "collect_item L fetch h s = (s1, o1)" by fastforce
  have c: "agrees P (fst s1)" "o1 = None \<Longrightarrow> \<exists>v. snd s1 = snd s @ [v] \<and> P h v"
    using collect_agrees [OF Cons.prems(2) _ b] Cons.prems(3) by auto
  show ?case
  proof (cases o1)
    case None
    with Cons.prems(1) b have "run_body (collect_item L fetch) hs s1 = (s', r)" by simp
    from Cons.IH [OF this c(1)] Cons.prems(3) have "agrees P (fst s')"
      "r = None \<Longrightarrow> \<exists>vs. snd s' = snd s1 @ vs \<and> list_all2 P hs vs" by auto
    with c(2) [OF None] show ?thesis by force
  next
    case (Some e)
    with Cons.prems(1) b c show ?thesis by auto
  qed
qed auto

text \<open>The items returned are those of consecutive heights after the last submitted one.\<close>

lemma getPending_items:
  assumes "getPending E L fetch d pb = Some (pb', r)" "agrees P (pb_pendingCache pb)"
    and "\<And>h v n. Height E d = Inr n \<Longrightarrow> h \<le> n \<Longrightarrow> fetch d h = Inr v \<Longrightarrow> P h v"
  shows "pb_lastHeight pb' = pb_lastHeight pb \<and> pb_metaKey pb' = pb_metaKey pb \<and> agrees P (pb_pendingCache pb') \<and>
    (\<forall>items. r = Inr items \<longrightarrow> consecutive P (pb_lastHeight pb) items)"
proof -
  consider (error) e where "Height E d = Inl e"
    | (run) n where "Height E d = Inr n" "pb_lastHeight pb < n" | (idle) n where "Height E d = Inr n" "n \<le> pb_lastHeight pb"
    by (cases "Height E d") (auto intro: leI)
  then show ?thesis
  proof cases
    case error
    with assms(1, 2) show ?thesis by (auto simp: getPending_def Let_def)
  next
    case idle
    with assms(1, 2) show ?thesis
      by (cases "n = pb_lastHeight pb") (auto simp: getPending_def Let_def order.strict_iff_order)
  next
    case run
    define hi where "hi = (if DefaultPendingCacheSize < n - pb_lastHeight pb then pb_lastHeight pb + DefaultPendingCacheSize else n)"
    have hi: "hi \<le> n" "pb_lastHeight pb \<le> hi"
      using u64_capped [OF run(2), of DefaultPendingCacheSize] by (simp_all add: hi_def)
    let ?l = "pb_lastHeight pb"
    have fetch: "h \<le> hi \<Longrightarrow> fetch d h = Inr v \<Longrightarrow> P h v" for h v using assms(3) run(1) hi(1) by (meson order.trans)
    have g: "pending_between L (fetch d) (?l + 1) hi pb = Some (pb', r)"
      using assms(1) run less_imp_neq [OF run(2)] less_not_sym [OF run(2)] by (simp add: getPending_def hi_def Let_def)
    then obtain c o1 where f1: "for_upto (fetch_missing_item L (fetch d)) (?l + 1) hi (pb_pendingCache pb) = Some (c, o1)"
      by (auto simp: pending_between_def split: option.splits)
    have c: "agrees P c"
      by (rule for_upto_indexed [OF f1, where P = "\<lambda>_. agrees P"]) (use assms(2) fetch fetch_missing_agrees in blast)+
    show ?thesis
    proof (cases o1)
      case (Some e)
      with g f1 c show ?thesis by (auto simp: pending_between_def)
    next
      case None
      with f1 have bound: "hi < - 1" by (auto dest: for_upto_bound)
      obtain s2 o2 where s2: "run_body (collect_item L (fetch d)) (u64_range (?l + 1) hi) (c, []) = (s2, o2)" by fastforce
      have "agrees P (fst s2) \<and> (o2 = None \<longrightarrow> (\<exists>vs. snd s2 = [] @ vs \<and> list_all2 P (u64_range (?l + 1) hi) vs))"
        using run_collect [OF s2, of P] c fetch by (simp add: set_u64_range)
      then have "agrees P (fst s2)" "o2 = None \<Longrightarrow> consecutive P ?l (snd s2)"
        using consecutive_range [OF hi(2) bound] by auto
      with g f1 None s2 bound show ?thesis
        by (cases o2) (auto simp: pending_between_def for_upto_range)
    qed
  qed
qed

end

section \<open>Snapshots\<close>

lemma length_encodeSnapshot: "length (encodeSnapshot es) = 16 * length es"
  by (induction es) (auto simp: encodeSnapshot_def)

lemma decode_nth:
  "i < length es \<Longrightarrow> (Uint64_LE (drop (i * 16) (encodeSnapshot es)), Uint64_LE (drop (i * 16 + 8) (encodeSnapshot es))) = es ! i"
proof (induction es arbitrary: i)
  case (Cons e es)
  show ?case
  proof (cases i)
    case 0
    then show ?thesis by (cases e) (simp add: encodeSnapshot_def Uint64_PutUint64_append)
  next
    case (Suc j)
    with Cons show ?thesis by (cases e) (simp add: encodeSnapshot_def add.commute)
  qed
qed simp

lemma decodeSnapshot_encodeSnapshot: "decodeSnapshot (encodeSnapshot es) = es"
proof (cases "es = []")
  case False
  then have "length (encodeSnapshot es) \<noteq> 0" by (simp add: length_encodeSnapshot)
  then have "encodeSnapshot es \<noteq> []" by auto
  then show ?thesis
    by (intro nth_equalityI)
      (simp_all only: decodeSnapshot_def snapshotEntrySize_def length_encodeSnapshot decode_nth length_map length_upt nth_map
        nth_upt mod_mult_self1_is_0 nonzero_mult_div_cancel_left diff_zero if_False add_0 simp_thms zero_neq_numeral not_False_eq_True)
qed (simp add: decodeSnapshot_def encodeSnapshot_def)

lemma HeightPlaceholderKey_inj: "HeightPlaceholderKey p h = HeightPlaceholderKey p h' \<longleftrightarrow> h = h'"
  using hex_digits_inj [of "unat h" 16 "unat h'"] unat_u64_bound [of h] unat_u64_bound [of h']
  by (auto simp: HeightPlaceholderKey_def u64_eq_iff)

text \<open>A cache that holds placeholders only.\<close>

definition restored :: "(u64 \<rightharpoonup> u64) \<Rightarrow> string \<Rightarrow> Cache \<Rightarrow> bool" where
  "restored f p c \<longleftrightarrow> ca_storeKeyPrefix c = p \<and>
     (\<forall>h. ca_hashByHeight c h = (if f h = None then None else Some (HeightPlaceholderKey p h))) \<and>
     (\<forall>h. ca_daIncluded c (HeightPlaceholderKey p h) = f h)"

lemma setMaxDAHeight_fields [simp]:
  "ca_hashByHeight (setMaxDAHeight c x) = ca_hashByHeight c" "ca_daIncluded (setMaxDAHeight c x) = ca_daIncluded c"
  "ca_storeKeyPrefix (setMaxDAHeight c x) = ca_storeKeyPrefix c" "ca_maxDAHeight (setMaxDAHeight c x) = max (ca_maxDAHeight c) x"
  by (auto simp: setMaxDAHeight_def max_def)

lemma restoreEntry_restored:
  "restored f p c \<Longrightarrow> restored (if fst e \<le> fin then f else f(fst e \<mapsto> snd e)) p (restoreEntry fin e c)"
  by (auto simp: restored_def restoreEntry_def Let_def HeightPlaceholderKey_inj)

lemma restoreEntry_max: "ca_maxDAHeight (restoreEntry fin e c) = max (ca_maxDAHeight c) (snd e)"
  by (simp add: restoreEntry_def Let_def)

lemma restore_entries:
  "restored f p c \<Longrightarrow>
     restored (\<lambda>h. if h \<le> fin then f h else (f ++ map_of (rev es)) h) p (fold (restoreEntry fin) es c) \<and>
     (\<forall>e \<in> set es. snd e \<le> ca_maxDAHeight (fold (restoreEntry fin) es c)) \<and>
     ca_maxDAHeight c \<le> ca_maxDAHeight (fold (restoreEntry fin) es c)"
proof (induction es arbitrary: f c)
  case (Cons e es)
  let ?f = "if fst e \<le> fin then f else f(fst e \<mapsto> snd e)" and ?c = "restoreEntry fin e c"
  note IH = Cons.IH [OF restoreEntry_restored [OF Cons.prems, of e fin]]
  have "(\<lambda>h. if h \<le> fin then ?f h else (?f ++ map_of (rev es)) h) = (\<lambda>h. if h \<le> fin then f h else (f ++ map_of (rev (e # es))) h)"
    by (cases e) (auto simp: fun_eq_iff map_add_def split: option.splits)
  with IH have "restored (\<lambda>h. if h \<le> fin then f h else (f ++ map_of (rev (e # es))) h) p (fold (restoreEntry fin) (e # es) c)"
    by simp
  moreover have "snd e \<le> ca_maxDAHeight ?c" "ca_maxDAHeight c \<le> ca_maxDAHeight ?c" by (simp_all add: restoreEntry_max)
  ultimately show ?case using IH by (auto intro: order.trans)
qed (simp add: restored_def)

lemma restored_inclusion: "restored f p c \<Longrightarrow> getDAIncludedByHeight c h = f h"
  by (auto simp: restored_def getDAIncludedByHeight_def)

text \<open>An order in which Go may range over a map of heights.\<close>

definition range_order :: "(u64 set \<Rightarrow> u64 list) \<Rightarrow> bool" where
  "range_order ord \<longleftrightarrow> (\<forall>S. finite S \<longrightarrow> set (ord S) = S \<and> distinct (ord S))"

lemma snapshotEntries_map:
  assumes "range_order ord" "finite (dom (ca_hashByHeight c))"
  shows "map_of (rev (snapshotEntries ord c)) = getDAIncludedByHeight c"
proof -
  have o: "set (ord (dom (ca_hashByHeight c))) = dom (ca_hashByHeight c)" "distinct (ord (dom (ca_hashByHeight c)))"
    using assms by (auto simp: range_order_def)
  let ?g = "getDAIncludedByHeight c"
  have filt: "List.map_filter (\<lambda>h. map_option (Pair h) (?g h)) hs = map (\<lambda>h. (h, the (?g h))) (filter (\<lambda>h. ?g h \<noteq> None) hs)" for hs
    by (induction hs) (auto simp: map_filter_simps split: option.splits)
  have m: "map_of (map (\<lambda>h. (h, the (?g h))) hs) h = (if h \<in> set hs then Some (the (?g h)) else None)" for hs h
    by (induction hs) auto
  have y: "?g h = None \<or> (\<exists>y. ca_hashByHeight c h = Some y)" for h
    by (auto simp: getDAIncludedByHeight_def split: option.splits)
  have "map_of (rev (snapshotEntries ord c)) h = ?g h" for h
    using o(1) y [of h] by (cases "?g h") (auto simp: snapshotEntries_def filt rev_map m)
  then show ?thesis by (rule ext)
qed

section \<open>Metadata\<close>

lemma meta_clean_more:
  "meta_clean LastSubmittedHeaderHeightKey" "meta_clean LastSubmittedDataHeightKey" "meta_clean GenesisDAHeightKey"
  "meta_clean (HeaderDAIncludedPrefix @ ''__snap'')" "meta_clean (DataDAIncludedPrefix @ ''__snap'')"
  by (simp_all add: meta_clean_def meta_keys LastSubmittedDataHeightKey_def HeaderDAIncludedPrefix_def DataDAIncludedPrefix_def
      clean_comp_def)

context block_store
begin

lemma SetMetadata_view:
  "meta_clean k \<Longrightarrow> SetMetadata E d k v = (d', r) \<Longrightarrow> view d' = (if r = None then (view d)(GetMetaKey k \<mapsto> v) else view d)"
  using put_ok put_failed by (auto simp: SetMetadata_def newKey_clean [OF clean_meta_key] split: prod.splits)

lemma DeleteMetadata_view:
  "meta_clean k \<Longrightarrow> DeleteMetadata E d k = (d', r) \<Longrightarrow> view d' = (if r = None then (view d)(GetMetaKey k := None) else view d)"
  using delete_ok delete_failed by (auto simp: DeleteMetadata_def newKey_clean [OF clean_meta_key] split: prod.splits)

lemma GetMetadata_view: "meta_clean k \<Longrightarrow> GetMetadata E d k = Inr v \<Longrightarrow> view d (GetMetaKey k) = Some v"
  by (simp add: GetMetadata_def db_Get_view clean_meta_key)

lemma GetMetadata_missing: "meta_clean k \<Longrightarrow> GetMetadata E d k = Inl e \<Longrightarrow> IsNotFound e \<Longrightarrow> view d (GetMetaKey k) = None"
  by (simp add: GetMetadata_def db_Get_missing clean_meta_key)

lemma RestoreFromStore_view:
  assumes "RestoreFromStore E d c fin = (c', None)" "ca_hasStore c" "ca_storeKeyPrefix c \<noteq> []" "meta_clean (snapshotKey c)"
  shows "c' = fold (restoreEntry fin) (decodeSnapshot (case view d (GetMetaKey (snapshotKey c)) of None \<Rightarrow> [] | Some b \<Rightarrow> b)) c"
  using assms GetMetadata_view [OF assms(4), of d] GetMetadata_missing [OF assms(4), of d]
  by (auto simp: RestoreFromStore_def decodeSnapshot_def split: sum.splits if_splits)

end

section \<open>The round trip\<close>

text \<open>C36: What a node saves about DA inclusion when it stops is what the next one restores: whatever the order in which
  Go ranges over the map of heights, a height above the finalized one is included, at the same DA height, in the restored
  cache if and only if it was included in the saved one, a finalized height is not, and the highest DA height the cache
  reports is at least that of every entry saved. The reading and the writing may fail; the statement is about runs in
  which both report success.\<close>

theorem snapshot_roundtrip:
  assumes "block_store E view" and "range_order ord" and "finite (dom (ca_hashByHeight c))"
    and "ca_hasStore c" and "ca_storeKeyPrefix c \<noteq> []" and "meta_clean (snapshotKey c)"
    and "SaveToStore E ord d c = (d', None)"
    and "RestoreFromStore E d' (NewCache True (ca_storeKeyPrefix c)) fin = (c', None)"
  shows "(\<forall>h. getDAIncludedByHeight c' h = (if h \<le> fin then None else getDAIncludedByHeight c h)) \<and>
    (\<forall>h daHeight. getDAIncludedByHeight c h = Some daHeight \<longrightarrow> daHeight \<le> ca_maxDAHeight c')"
proof -
  let ?c0 = "NewCache True (ca_storeKeyPrefix c)" and ?es = "snapshotEntries ord c"
  have k: "snapshotKey ?c0 = snapshotKey c" by (simp add: snapshotKey_def NewCache_def)
  have "view d' (GetMetaKey (snapshotKey c)) = Some (encodeSnapshot ?es)"
    using assms(4, 5, 7) block_store.SetMetadata_view [OF assms(1, 6), of d _ d' None]
    by (simp add: SaveToStore_def persistSnapshot_def)
  then have c': "c' = fold (restoreEntry fin) ?es ?c0"
    using block_store.RestoreFromStore_view [OF assms(1, 8)] assms(5, 6)
    by (simp add: k decodeSnapshot_encodeSnapshot) (simp add: NewCache_def)
  have r: "restored Map.empty (ca_storeKeyPrefix c) ?c0" by (simp add: restored_def NewCache_def)
  note e = restore_entries [OF r, of fin ?es, folded c']
  have m: "map_of (rev ?es) = getDAIncludedByHeight c" by (rule snapshotEntries_map [OF assms(2, 3)])
  have "getDAIncludedByHeight c' h = (if h \<le> fin then None else getDAIncludedByHeight c h)" for h
    using restored_inclusion e by (auto simp: m)
  moreover have "daHeight \<le> ca_maxDAHeight c'" if "getDAIncludedByHeight c h = Some daHeight" for h daHeight
  proof -
    from that have "(h, daHeight) \<in> set ?es" using m by (metis map_of_SomeD set_rev)
    with e show ?thesis by force
  qed
  ultimately show ?thesis by blast
qed

definition ex_inclusion :: Cache where
  "ex_inclusion = setDAIncluded (setDAIncluded (NewCache True HeaderDAIncludedPrefix) ''a'' 40 3) ''b'' 41 4"

lemma ex_inclusion_sel [simp]:
  "ca_storeKeyPrefix ex_inclusion = HeaderDAIncludedPrefix" "ca_hasStore ex_inclusion"
  "ca_hashByHeight ex_inclusion = [3 \<mapsto> ''a'', 4 \<mapsto> ''b'']" "getDAIncludedByHeight ex_inclusion 4 = Some 41"
  by (simp_all add: ex_inclusion_def setDAIncluded_def NewCache_def Let_def setMaxDAHeight_def getDAIncludedByHeight_def)

theorem snapshot_roundtrip_witness:
  "\<exists>d' c'. SaveToStore (store_on mem_ds) sorted_list_of_set [] ex_inclusion = (d', None) \<and>
     RestoreFromStore (store_on mem_ds) d' (NewCache True HeaderDAIncludedPrefix) 3 = (c', None) \<and>
     getDAIncludedByHeight c' 3 = None \<and> getDAIncludedByHeight c' 4 = Some 41"
proof -
  have clean: "meta_clean (snapshotKey ex_inclusion)" using meta_clean_more(4) by (simp add: snapshotKey_def)
  have "snd (SaveToStore (store_on mem_ds) sorted_list_of_set [] ex_inclusion) = None"
    by (simp add: SaveToStore_def persistSnapshot_def HeaderDAIncludedPrefix_def SetMetadata_def split_beta mem.put_total)
  then obtain d' where s: "SaveToStore (store_on mem_ds) sorted_list_of_set [] ex_inclusion = (d', None)"
    by (metis prod.collapse)
  have "snd (RestoreFromStore (store_on mem_ds) d' (NewCache True HeaderDAIncludedPrefix) 3) = None"
    by (simp add: RestoreFromStore_def GetMetadata_def db_Get_def IsNotFound_def mem.get_total mapE_def split: option.splits sum.splits)
  then obtain c' where r: "RestoreFromStore (store_on mem_ds) d' (NewCache True HeaderDAIncludedPrefix) 3 = (c', None)"
    by (metis prod.collapse)
  have "range_order sorted_list_of_set" by (simp add: range_order_def)
  with snapshot_roundtrip [OF mem_store.block_store_axioms this _ _ _ clean s, of 3 c'] r s
  show ?thesis by (auto simp: HeaderDAIncludedPrefix_def)
qed

end
