(* ===== verification/DA_Client.thy ===== *)
theory DA_Client
  imports Forced_Inclusion "HOL-Library.Sublist" "HOL-Library.Char_ord"
begin

text \<open>
  The DA client (\<open>block/internal/da/client.go\<close>) over the RPC of a Celestia node, with namespaces
  (\<open>pkg/da/types/namespace.go\<close>) and blob ids (\<open>pkg/da/jsonrpc/blob.go\<close>). The node and the library \<open>go-square\<close> are the
  record \<open>celestia\<close>, the answers they give while one call runs; \<open>Submit\<close> changes the DA layer, a state \<open>'w\<close>. An RPC
  error is its message, with a flag for \<open>context.Canceled\<close> where the code asks for it.
\<close>

section \<open>Namespaces\<close>

definition NamespaceIDSize :: nat where "NamespaceIDSize = 28"
definition NamespaceSize :: nat where "NamespaceSize = 29"
definition NamespaceVersionZeroPrefixSize :: nat where "NamespaceVersionZeroPrefixSize = 18"
definition NamespaceVersionZeroDataSize :: nat where "NamespaceVersionZeroDataSize = 10"

lemmas namespace_sizes = NamespaceIDSize_def NamespaceSize_def NamespaceVersionZeroPrefixSize_def
  NamespaceVersionZeroDataSize_def

record Namespace =
  ns_Version :: byte
  ns_ID :: bytes

definition Namespace_Bytes :: "Namespace \<Rightarrow> bytes" where
  "Namespace_Bytes n = ns_Version n # ns_ID n"

definition IsValidForVersion0 :: "Namespace \<Rightarrow> bool" where
  "IsValidForVersion0 n \<longleftrightarrow> ns_Version n = 0 \<and> list_all (\<lambda>b. b = 0) (take NamespaceVersionZeroPrefixSize (ns_ID n))"

definition NewNamespaceV0 :: "bytes \<Rightarrow> Namespace option" where
  "NewNamespaceV0 data =
     (if NamespaceVersionZeroDataSize < length data then None
      else Some \<lparr>ns_Version = 0,
        ns_ID = replicate NamespaceVersionZeroPrefixSize 0 @ data @ replicate (NamespaceVersionZeroDataSize - length data) 0\<rparr>)"

definition NamespaceFromBytes :: "bytes \<Rightarrow> Namespace option" where
  "NamespaceFromBytes b =
     (if length b \<noteq> NamespaceSize then None
      else let ns = \<lparr>ns_Version = hd b, ns_ID = tl b\<rparr> in
        if ns_Version ns = 0 \<and> \<not> IsValidForVersion0 ns then None else Some ns)"

text \<open>The hash is SHA-256, 32 bytes; the error of \<open>NewNamespaceV0\<close> is ignored.\<close>

definition NamespaceFromString :: "'k crypto \<Rightarrow> string \<Rightarrow> Namespace option" where
  "NamespaceFromString C s = NewNamespaceV0 (take NamespaceVersionZeroDataSize (c_sha256 C (map of_char s)))"

definition Namespace_HexString :: "Namespace \<Rightarrow> string" where
  "Namespace_HexString n = ''0x'' @ EncodeToString (Namespace_Bytes n)"

section \<open>Blob ids\<close>

definition MakeID :: "u64 \<Rightarrow> bytes \<Rightarrow> bytes" where
  "MakeID height commitment = PutUint64_LE height @ commitment"

definition SplitID :: "bytes \<Rightarrow> u64 \<times> bytes option" where
  "SplitID b = (if length b \<le> 8 then (0, None) else (Uint64_LE (take 8 b), Some (drop 8 b)))"

section \<open>The timestamp cache\<close>

record blockTimestampCache =
  tc_byHeight :: "u64 \<rightharpoonup> instant"
  tc_highest :: u64
  tc_window :: u64

definition blockTimestampCacheWindow :: u64 where
  "blockTimestampCacheWindow = 2048"

definition newBlockTimestampCache :: "u64 \<Rightarrow> blockTimestampCache" where
  "newBlockTimestampCache window =
     \<lparr>tc_byHeight = Map.empty, tc_highest = 0, tc_window = (if window = 0 then blockTimestampCacheWindow else window)\<rparr>"

definition tc_get :: "blockTimestampCache \<Rightarrow> u64 \<Rightarrow> instant option" where
  "tc_get c height = tc_byHeight c height"

definition minRetainedHeightLocked :: "blockTimestampCache \<Rightarrow> u64" where
  "minRetainedHeightLocked c =
     (if tc_window c = 0 \<or> tc_highest c < tc_window c - 1 then 0 else tc_highest c - tc_window c + 1)"

definition tc_put :: "blockTimestampCache \<Rightarrow> u64 \<Rightarrow> instant \<Rightarrow> blockTimestampCache" where
  "tc_put c height blockTime =
     (if blockTime = zero_time then c
      else let minRetained = minRetainedHeightLocked c in
        if 0 < minRetained \<and> height < minRetained then c
        else let c = c\<lparr>tc_highest := (if tc_highest c < height then height else tc_highest c),
                       tc_byHeight := (tc_byHeight c)(height \<mapsto> blockTime)\<rparr>;
                 minRetained = minRetainedHeightLocked c
             in if minRetained = 0 then c
                else c\<lparr>tc_byHeight := (\<lambda>h. if h < minRetained then None else tc_byHeight c h)\<rparr>)"

section \<open>The node\<close>

record rpc_error =
  re_canceled :: bool
  re_msg :: string

record ('w, 'p) celestia =
  cl_badNamespace :: "bytes \<Rightarrow> string option"
  cl_NewBlobV0 :: "bytes \<Rightarrow> bytes \<Rightarrow> string + bytes"
  cl_badOptions :: "bytes \<Rightarrow> string option"
  cl_Submit :: "'w \<Rightarrow> bytes \<Rightarrow> bytes list \<Rightarrow> bytes \<Rightarrow> 'w \<times> (rpc_error + u64)"
  cl_GetAll :: "u64 \<Rightarrow> bytes \<Rightarrow> string + (bytes \<times> bytes) list"
  cl_GetByHeight :: "u64 \<Rightarrow> nat \<Rightarrow> string + instant"
  cl_NetworkHead :: "string + u64 option"
  cl_Get :: "u64 \<Rightarrow> bytes \<Rightarrow> bytes \<Rightarrow> string + bytes option"
  cl_GetProof :: "u64 \<Rightarrow> bytes \<Rightarrow> bytes \<Rightarrow> string + 'p"
  cl_Included :: "u64 \<Rightarrow> bytes \<Rightarrow> 'p \<Rightarrow> bytes \<Rightarrow> bool"
  cl_MarshalProof :: "'p \<Rightarrow> string + bytes"
  cl_UnmarshalProof :: "bytes \<Rightarrow> string + 'p"
  cl_ctxDone :: "nat \<Rightarrow> bool"

record client =
  cc_namespaceBz :: bytes
  cc_dataNamespaceBz :: bytes
  cc_forcedNamespaceBz :: bytes
  cc_hasForcedNamespace :: bool
  cc_timestampCache :: blockTimestampCache

definition namespace_bytes :: "'k crypto \<Rightarrow> string \<Rightarrow> bytes" where
  "namespace_bytes C s = (case NamespaceFromString C s of None \<Rightarrow> [] | Some n \<Rightarrow> Namespace_Bytes n)"

definition NewClient :: "'k crypto \<Rightarrow> string \<Rightarrow> string \<Rightarrow> string \<Rightarrow> client" where
  "NewClient C namespace dataNamespace forcedNamespace =
     \<lparr>cc_namespaceBz = namespace_bytes C namespace, cc_dataNamespaceBz = namespace_bytes C dataNamespace,
      cc_forcedNamespaceBz = (if forcedNamespace = [] then [] else namespace_bytes C forcedNamespace),
      cc_hasForcedNamespace = (forcedNamespace \<noteq> []), cc_timestampCache = newBlockTimestampCache blockTimestampCacheWindow\<rparr>"

section \<open>Submission\<close>

record ResultSubmit =
  rs_Code :: StatusCode
  rs_Message :: string
  rs_Height :: u64
  rs_SubmittedCount :: u64
  rs_BlobSize :: u64
  rs_IDs :: "bytes list"

definition submit_failed :: "StatusCode \<Rightarrow> string \<Rightarrow> u64 \<Rightarrow> ResultSubmit" where
  "submit_failed code msg blobSize =
     \<lparr>rs_Code = code, rs_Message = msg, rs_Height = 0, rs_SubmittedCount = 0, rs_BlobSize = blobSize, rs_IDs = []\<rparr>"

text \<open>\<open>strings.ToLower\<close>; only letters that become the ASCII letters of the words searched for matter.\<close>

definition lower_char :: "char \<Rightarrow> char" where
  "lower_char c = (if CHR ''A'' \<le> c \<and> c \<le> CHR ''Z'' then char_of (of_char c + 32 :: nat) else c)"

definition submitCode :: "rpc_error \<Rightarrow> StatusCode" where
  "submitCode e =
     (if re_canceled e then StatusContextCanceled
      else if sublist ''timed out waiting for tx to be included in a block'' (re_msg e) \<or>
              sublist ''eviction poll timeout'' (re_msg e) then StatusNotIncludedInBlock
      else if sublist ''tx already in mempool'' (re_msg e) then StatusAlreadyInMempool
      else if sublist ''incorrect account sequence'' (re_msg e) then StatusIncorrectAccountSequence
      else if sublist ''blob: over size limit'' (re_msg e) \<or> sublist ''too large'' (map lower_char (re_msg e)) \<or>
              sublist ''size exceeds maximum allowed limit'' (re_msg e) then StatusTooBig
      else if sublist ''context deadline'' (re_msg e) then StatusContextDeadline
      else StatusError)"

text \<open>The first blob that is too big or cannot be built is reported; otherwise the commitments.\<close>

definition build_blob :: "('w, 'p) celestia \<Rightarrow> u64 \<Rightarrow> bytes \<Rightarrow> bytes \<Rightarrow> ResultSubmit + bytes" where
  "build_blob N maxBlobSize namespace raw =
     (if unat maxBlobSize < length raw then Inl (submit_failed StatusTooBig ''blob: over size limit'' 0)
      else case cl_NewBlobV0 N namespace raw of
        Inl e \<Rightarrow> Inl (submit_failed StatusError (''failed to build blob: '' @ e) 0)
      | Inr commitment \<Rightarrow> Inr commitment)"

definition blob_size :: "bytes list \<Rightarrow> u64" where
  "blob_size data = fold (\<lambda>b n. n + of_nat (length b)) data 0"

definition Client_Submit ::
  "('w, 'p) celestia \<Rightarrow> u64 \<Rightarrow> 'w \<Rightarrow> bytes list \<Rightarrow> bytes \<Rightarrow> bytes \<Rightarrow> 'w \<times> ResultSubmit" where
  "Client_Submit N maxBlobSize w data namespace options =
     (case cl_badNamespace N namespace of
        Some e \<Rightarrow> (w, submit_failed StatusError (''invalid namespace: '' @ e) 0)
      | None \<Rightarrow>
          (case traverse (build_blob N maxBlobSize namespace) data of
             Inl res \<Rightarrow> (w, res)
           | Inr commitments \<Rightarrow>
               (case (if options = [] then None else cl_badOptions N options) of
                  Some e \<Rightarrow> (w, submit_failed StatusError (''failed to parse submit options: '' @ e) 0)
                | None \<Rightarrow>
                    (case cl_Submit N w namespace data options of
                       (w, Inl e) \<Rightarrow> (w, submit_failed (submitCode e) (''failed to submit blobs: '' @ re_msg e) (blob_size data))
                     | (w, Inr height) \<Rightarrow>
                         (w, \<lparr>rs_Code = StatusSuccess, rs_Message = [], rs_Height = height,
                              rs_SubmittedCount = of_nat (length data), rs_BlobSize = blob_size data,
                              rs_IDs = map (MakeID height) commitments\<rparr>)))))"

section \<open>Retrieval\<close>

definition blockTimestampFetchMaxAttempts :: nat where
  "blockTimestampFetchMaxAttempts = 3"

definition storeBlockTimestamp :: "client \<Rightarrow> u64 \<Rightarrow> instant \<Rightarrow> client" where
  "storeBlockTimestamp c height blockTime = c\<lparr>cc_timestampCache := tc_put (cc_timestampCache c) height blockTime\<rparr>"

function timestamp_attempts :: "('w, 'p) celestia \<Rightarrow> client \<Rightarrow> u64 \<Rightarrow> nat \<Rightarrow> client \<times> (string + instant)" where
  "timestamp_attempts N c height attempt =
     (case cl_GetByHeight N height attempt of
        Inr blockTime \<Rightarrow> (storeBlockTimestamp c height blockTime, Inr blockTime)
      | Inl lastErr \<Rightarrow>
          if blockTimestampFetchMaxAttempts \<le> attempt then (c, Inl (''get header timestamp: '' @ lastErr))
          else if cl_ctxDone N attempt then (c, Inl ''fetching header timestamp'')
          else timestamp_attempts N c height (Suc attempt))"
  by pat_completeness auto
termination
  by (relation "measure (\<lambda>(N, c, h, n). blockTimestampFetchMaxAttempts - n)") auto

declare timestamp_attempts.simps [simp del]

definition getBlockTimestamp :: "('w, 'p) celestia \<Rightarrow> client \<Rightarrow> u64 \<Rightarrow> client \<times> (string + instant)" where
  "getBlockTimestamp N c height = timestamp_attempts N c height 1"

definition resolveBlockTimestamp :: "('w, 'p) celestia \<Rightarrow> client \<Rightarrow> u64 \<Rightarrow> bool \<Rightarrow> client \<times> (string + instant)" where
  "resolveBlockTimestamp N c height strict =
     (if \<not> strict
      then (c, Inr (case tc_get (cc_timestampCache c) height of Some t \<Rightarrow> t | None \<Rightarrow> zero_time))
      else getBlockTimestamp N c height)"

text \<open>The result carries the height and the blob ids besides the fields the retrievers use.\<close>

record ResultRetrieveFull = ResultRetrieve +
  rr_Height :: u64
  rr_IDs :: "bytes list"

definition retrieved :: "StatusCode \<Rightarrow> string \<Rightarrow> u64 \<Rightarrow> instant \<Rightarrow> (bytes \<times> bytes) list \<Rightarrow> ResultRetrieveFull" where
  "retrieved code msg height timestamp blobs =
     \<lparr>rr_Code = code, rr_Message = msg, rr_Timestamp = timestamp, rr_Data = map fst blobs, rr_Height = height,
      rr_IDs = map (MakeID height \<circ> snd) blobs\<rparr>"

definition with_timestamp :: "('w, 'p) celestia \<Rightarrow> client \<Rightarrow> u64 \<Rightarrow> bool \<Rightarrow> (instant \<Rightarrow> ResultRetrieveFull) \<Rightarrow> client \<times> ResultRetrieveFull" where
  "with_timestamp N c height strict res =
     (case resolveBlockTimestamp N c height strict of
        (c, Inl e) \<Rightarrow> (c, retrieved StatusError (''failed to get block timestamp: '' @ e) height zero_time [])
      | (c, Inr blockTime) \<Rightarrow> (c, res blockTime))"

definition retrieve ::
  "('w, 'p) celestia \<Rightarrow> instant \<Rightarrow> client \<Rightarrow> u64 \<Rightarrow> bytes \<Rightarrow> bool \<Rightarrow> client \<times> ResultRetrieveFull" where
  "retrieve N now c height namespace strictTimestamp =
     (case cl_badNamespace N namespace of
        Some e \<Rightarrow> (c, retrieved StatusError (''invalid namespace: '' @ e) height now [])
      | None \<Rightarrow>
          (case cl_GetAll N height namespace of
             Inl e \<Rightarrow>
               if sublist ''blob: not found'' e
               then with_timestamp N c height strictTimestamp
                      (\<lambda>t. retrieved StatusNotFound ''blob: not found'' height t [])
               else if sublist ''given height is from the future'' e
               then (c, retrieved StatusHeightFromFuture ''given height is from the future'' height now [])
               else (c, retrieved StatusError (''failed to get blobs: '' @ e) height now [])
           | Inr blobs \<Rightarrow>
               with_timestamp N c height strictTimestamp
                 (\<lambda>t. if blobs = [] then retrieved StatusNotFound ''blob: not found'' height t []
                      else retrieved StatusSuccess [] height t blobs)))"

definition RetrieveBlobs :: "('w, 'p) celestia \<Rightarrow> instant \<Rightarrow> client \<Rightarrow> u64 \<Rightarrow> bytes \<Rightarrow> client \<times> ResultRetrieveFull" where
  "RetrieveBlobs N now c height namespace = retrieve N now c height namespace False"

definition Client_Retrieve :: "('w, 'p) celestia \<Rightarrow> instant \<Rightarrow> client \<Rightarrow> u64 \<Rightarrow> bytes \<Rightarrow> client \<times> ResultRetrieveFull" where
  "Client_Retrieve N now c height namespace = retrieve N now c height namespace True"

definition GetLatestDAHeight :: "('w, 'p) celestia \<Rightarrow> string + u64" where
  "GetLatestDAHeight N =
     (case cl_NetworkHead N of
        Inl e \<Rightarrow> Inl (''failed to get DA network head: '' @ e)
      | Inr None \<Rightarrow> Inl ''DA network head returned nil header''
      | Inr (Some height) \<Rightarrow> Inr height)"

definition RetrieveForcedInclusion :: "('w, 'p) celestia \<Rightarrow> instant \<Rightarrow> client \<Rightarrow> u64 \<Rightarrow> client \<times> ResultRetrieveFull" where
  "RetrieveForcedInclusion N now c height =
     (if \<not> cc_hasForcedNamespace c
      then (c, retrieved StatusError ''forced inclusion namespace not configured'' height zero_time [])
      else Client_Retrieve N now c height (cc_forcedNamespaceBz c))"

text \<open>The client as the interface the retrievers use.\<close>

definition client_da :: "('w, 'p) celestia \<Rightarrow> instant \<Rightarrow> client \<Rightarrow> da_client" where
  "client_da N now c =
     \<lparr>dc_Retrieve = (\<lambda>height namespace. ResultRetrieve.truncate (snd (Client_Retrieve N now c height namespace))),
      dc_GetLatestDAHeight = GetLatestDAHeight N, dc_HasForcedInclusionNamespace = cc_hasForcedNamespace c,
      dc_GetForcedInclusionNamespace = cc_forcedNamespaceBz c\<rparr>"

section \<open>Blobs, proofs and subscriptions\<close>

text \<open>An event of the node's subscription: its height, the time of its header if it has one, and the blobs, which may
  be \<open>nil\<close>.\<close>

record SubscriptionResponse =
  sr_Height :: u64
  sr_HeaderTime :: "instant option"
  sr_Blobs :: "bytes option list"

record SubscriptionEvent =
  se_Height :: u64
  se_Timestamp :: instant
  se_Blobs :: "bytes list"

definition extractBlobData :: "u64 \<Rightarrow> SubscriptionResponse \<Rightarrow> bytes list" where
  "extractBlobData maxBlobSize resp =
     List.map_filter (\<lambda>b. case b of None \<Rightarrow> None
        | Some data \<Rightarrow> if data = [] \<or> unat maxBlobSize < length data then None else Some data) (sr_Blobs resp)"

definition subscription_event ::
  "('w, 'p) celestia \<Rightarrow> u64 \<Rightarrow> bool \<Rightarrow> client \<Rightarrow> SubscriptionResponse \<Rightarrow> client \<times> SubscriptionEvent" where
  "subscription_event N maxBlobSize includeTimestamp c resp =
     (let event = (\<lambda>t. \<lparr>se_Height = sr_Height resp, se_Timestamp = t, se_Blobs = extractBlobData maxBlobSize resp\<rparr>) in
      case sr_HeaderTime resp of
        Some t \<Rightarrow> if t \<noteq> zero_time then (storeBlockTimestamp c (sr_Height resp) t, event t)
                  else if includeTimestamp
                  then (let (c, r) = getBlockTimestamp N c (sr_Height resp)
                        in (c, event (case r of Inl _ \<Rightarrow> zero_time | Inr t \<Rightarrow> t)))
                  else (c, event zero_time)
      | None \<Rightarrow> if includeTimestamp
                then (let (c, r) = getBlockTimestamp N c (sr_Height resp)
                      in (c, event (case r of Inl _ \<Rightarrow> zero_time | Inr t \<Rightarrow> t)))
                else (c, event zero_time))"

text \<open>The goroutine of \<open>Subscribe\<close> on the responses it receives; a \<open>nil\<close> response is skipped.\<close>

fun Subscribe_events ::
  "('w, 'p) celestia \<Rightarrow> u64 \<Rightarrow> bool \<Rightarrow> client \<Rightarrow> SubscriptionResponse option list \<Rightarrow> client \<times> SubscriptionEvent list" where
  "Subscribe_events N maxBlobSize includeTimestamp c [] = (c, [])"
| "Subscribe_events N maxBlobSize includeTimestamp c (None # resps) =
     Subscribe_events N maxBlobSize includeTimestamp c resps"
| "Subscribe_events N maxBlobSize includeTimestamp c (Some resp # resps) =
     (let (c, event) = subscription_event N maxBlobSize includeTimestamp c resp;
          (c, events) = Subscribe_events N maxBlobSize includeTimestamp c resps
      in (c, event # events))"

definition with_id :: "bytes \<Rightarrow> (u64 \<Rightarrow> bytes \<Rightarrow> string + 'a) \<Rightarrow> string + 'a" where
  "with_id b f = (case SplitID b of (height, None) \<Rightarrow> Inl ''invalid blob id'' | (height, Some commitment) \<Rightarrow> f height commitment)"

definition Client_Get :: "('w, 'p) celestia \<Rightarrow> bytes list \<Rightarrow> bytes \<Rightarrow> string + bytes list" where
  "Client_Get N ids namespace =
     (if ids = [] then Inr []
      else case cl_badNamespace N namespace of
        Some e \<Rightarrow> Inl (''invalid namespace: '' @ e)
      | None \<Rightarrow> bindE (traverse (\<lambda>b. with_id b (\<lambda>height. cl_Get N height namespace)) ids)
                 (\<lambda>blobs. Inr (List.map_filter id blobs)))"

definition GetProofs :: "('w, 'p) celestia \<Rightarrow> bytes list \<Rightarrow> bytes \<Rightarrow> string + bytes list" where
  "GetProofs N ids namespace =
     (if ids = [] then Inr []
      else case cl_badNamespace N namespace of
        Some e \<Rightarrow> Inl (''invalid namespace: '' @ e)
      | None \<Rightarrow> traverse (\<lambda>b. with_id b (\<lambda>height commitment.
                   bindE (cl_GetProof N height namespace commitment) (cl_MarshalProof N))) ids)"

definition Client_Validate :: "('w, 'p) celestia \<Rightarrow> bytes list \<Rightarrow> bytes list \<Rightarrow> bytes \<Rightarrow> string + bool list" where
  "Client_Validate N ids proofs namespace =
     (if length ids \<noteq> length proofs then Inl ''number of IDs and proofs must match''
      else if ids = [] then Inr []
      else case cl_badNamespace N namespace of
        Some e \<Rightarrow> Inl (''invalid namespace: '' @ e)
      | None \<Rightarrow> traverse (\<lambda>(b, bz). bindE (cl_UnmarshalProof N bz) (\<lambda>proof.
                   with_id b (\<lambda>height commitment. Inr (cl_Included N height namespace proof commitment))))
                 (zip ids proofs))"

section \<open>What the client keeps\<close>

text \<open>A version-0 namespace parses back from its bytes.\<close>

lemma NamespaceFromBytes_V0:
  "NewNamespaceV0 data = Some n \<Longrightarrow> NamespaceFromBytes (Namespace_Bytes n) = Some n"
  by (auto simp: NewNamespaceV0_def NamespaceFromBytes_def Namespace_Bytes_def IsValidForVersion0_def namespace_sizes
      list_all_iff split: if_splits)

lemma SplitID_MakeID: "commitment \<noteq> [] \<Longrightarrow> SplitID (MakeID height commitment) = (height, Some commitment)"
  by (simp add: SplitID_def MakeID_def Uint64_PutUint64)

text \<open>A success reports every blob that was sent.\<close>

lemma Client_Submit_success:
  "Client_Submit N mx w data ns opts = (w', res) \<Longrightarrow> rs_Code res = StatusSuccess \<Longrightarrow>
     cl_Submit N w ns data opts = (w', Inr (rs_Height res)) \<and> rs_SubmittedCount res = of_nat (length data)"
proof (goal_cases)
  case 1
  have tr: "traverse (build_blob N mx ns) xs = Inl r \<Longrightarrow> rs_Code r \<noteq> StatusSuccess" for xs r
    by (induction xs) (auto simp: build_blob_def submit_failed_def bindE_def split: sum.splits if_splits)
  have "submitCode e \<noteq> StatusSuccess" for e by (simp add: submitCode_def)
  with 1 tr show ?case
    by (auto simp: Client_Submit_def submit_failed_def split: option.splits sum.splits prod.splits if_splits)
qed

lemma Client_Submit_failure:
  "Client_Submit N mx w data ns opts = (w', res) \<Longrightarrow> rs_Code res \<noteq> StatusSuccess \<Longrightarrow>
     w' = w \<or> (\<exists>e. cl_Submit N w ns data opts = (w', Inl e))"
  by (auto simp: Client_Submit_def split: option.splits sum.splits prod.splits if_splits)

text \<open>Only the last \<open>window\<close> heights keep their timestamp.\<close>

definition tc_ok :: "blockTimestampCache \<Rightarrow> bool" where
  "tc_ok c \<longleftrightarrow> 0 < tc_window c \<and> (\<forall>h \<in> dom (tc_byHeight c). minRetainedHeightLocked c \<le> h \<and> h \<le> tc_highest c)"

lemma minRetained_byHeight [simp]:
  "minRetainedHeightLocked (c\<lparr>tc_byHeight := m\<rparr>) = minRetainedHeightLocked c"
  by (simp add: minRetainedHeightLocked_def)

lemma tc_put_ok:
  assumes "tc_ok c"
  shows "tc_ok (tc_put c h t)"
proof (cases "t = zero_time \<or> 0 < minRetainedHeightLocked c \<and> h < minRetainedHeightLocked c")
  case True
  with assms show ?thesis by (auto simp: tc_put_def Let_def)
next
  case False
  define c1 where "c1 = c\<lparr>tc_highest := (if tc_highest c < h then h else tc_highest c), tc_byHeight := (tc_byHeight c)(h \<mapsto> t)\<rparr>"
  have put: "tc_put c h t = (if minRetainedHeightLocked c1 = 0 then c1
      else c1\<lparr>tc_byHeight := (\<lambda>x. if x < minRetainedHeightLocked c1 then None else tc_byHeight c1 x)\<rparr>)"
    unfolding tc_put_def Let_def c1_def [symmetric] using False by (simp only: if_False de_Morgan_disj)
  have "x \<le> tc_highest c1" if "x \<in> dom (tc_byHeight c1)" for x
  proof (cases "x = h")
    case False
    with that have "x \<in> dom (tc_byHeight c)" by (simp add: c1_def)
    with assms have "x \<le> tc_highest c" by (simp add: tc_ok_def)
    then show ?thesis by (auto simp: c1_def)
  qed (simp add: c1_def not_less)
  moreover have "0 < tc_window c1" using assms by (simp add: c1_def tc_ok_def)
  ultimately show ?thesis unfolding put by (auto simp: tc_ok_def dom_def not_less split: if_splits)
qed

end
