(* ===== verification/DA_Submitter.thy ===== *)
theory DA_Submitter
  imports Executor DA_Cache DA_Client
begin

text \<open>
  Submission of headers and data to the DA layer (\<open>block/internal/submitting/da_submitter.go\<close>, \<open>pkg/da/selector.go\<close>).
  The state \<open>da_state\<close> holds the block store and the cache manager, which the submission updates, the DA layer, the
  cache of signed envelopes and the address selector; the calls to \<open>AppendDAHint\<close> are recorded. Workers that sign in
  parallel finish in the order \<open>sv_order\<close>. \<open>encoding/json\<close> is the record \<open>json\<close>, an object being a map from names to
  encoded values. Whether the context ends while an attempt waits is the argument \<open>ctx\<close>, of the attempt and its backoff.
  Metrics and the visualization server are left out.
\<close>

section \<open>Address selection\<close>

datatype AddressSelector = RoundRobinSelector "string list" u64 | NoOpSelector

text \<open>The result is \<open>None\<close> where the Go code panics.\<close>

fun Selector_Next :: "AddressSelector \<Rightarrow> (AddressSelector \<times> string) option" where
  "Selector_Next NoOpSelector = Some (NoOpSelector, [])"
| "Selector_Next (RoundRobinSelector addresses counter) =
     (if addresses = [] then None
      else if length addresses = 1 then Some (RoundRobinSelector addresses counter, addresses ! 0)
      else Some (RoundRobinSelector addresses (counter + 1), addresses ! (unat counter mod length addresses)))"

definition newSelector :: "string list \<Rightarrow> AddressSelector" where
  "newSelector addresses = (if addresses = [] then NoOpSelector else RoundRobinSelector addresses 0)"

section \<open>Retries\<close>

definition initialBackoff :: int where
  "initialBackoff = 100000000"

record retryPolicy =
  po_MaxAttempts :: int
  po_MinBackoff :: int
  po_MaxBackoff :: int
  po_MaxBlobBytes :: u64

definition defaultRetryPolicy :: "u64 \<Rightarrow> int \<Rightarrow> int \<Rightarrow> retryPolicy" where
  "defaultRetryPolicy maxBlobSize maxAttempts maxDuration =
     \<lparr>po_MaxAttempts = maxAttempts, po_MinBackoff = initialBackoff, po_MaxBackoff = maxDuration, po_MaxBlobBytes = maxBlobSize\<rparr>"

record retryState =
  ry_Attempt :: nat
  ry_Backoff :: int

datatype retryReason = reasonUndefined | reasonFailure | reasonMempool | reasonSuccess | reasonTooBig

definition clamp :: "int \<Rightarrow> int \<Rightarrow> int \<Rightarrow> int" where
  "clamp v minTime maxTime =
     (let (lo, hi) = (if maxTime < minTime then (maxTime, minTime) else (minTime, maxTime))
      in if v < lo then lo else if hi < v then hi else v)"

text \<open>The arithmetic of a duration, an \<open>int64\<close>.\<close>

definition wrap_int64 :: "int \<Rightarrow> int" where
  "wrap_int64 i = (i + 2 ^ 63) mod 2 ^ 64 - 2 ^ 63"

fun retry_backoff :: "retryReason \<Rightarrow> retryPolicy \<Rightarrow> int \<Rightarrow> int" where
  "retry_backoff reasonSuccess pol b = po_MinBackoff pol"
| "retry_backoff reasonMempool pol b = po_MaxBackoff pol"
| "retry_backoff reasonUndefined pol b = 0"
| "retry_backoff r pol b = clamp (if b = 0 then po_MinBackoff pol else wrap_int64 (b * 2)) (po_MinBackoff pol) (po_MaxBackoff pol)"

definition Retry_Next :: "retryReason \<Rightarrow> retryPolicy \<Rightarrow> retryState \<Rightarrow> retryState" where
  "Retry_Next reason pol rs = \<lparr>ry_Attempt = Suc (ry_Attempt rs), ry_Backoff = retry_backoff reason pol (ry_Backoff rs)\<rparr>"

section \<open>State\<close>

datatype submit_error =
    LengthMismatch nat nat
  | NoSigner
  | SignerAddressError string
  | SignerMismatch
  | SignerPublicError string
  | SignError string
  | EnvelopeError wire_error
  | DataMarshalError wire_error
  | OversizedItem
  | NoItemsFit
  | BackoffCancelled
  | MergeOptions
  | Canceled
  | AttemptsExhausted nat
  | PanicSlice
  | PanicNoAddress

record json =
  js_Unmarshal :: "bytes \<Rightarrow> (string \<rightharpoonup> bytes) option option"
  js_Marshal :: "(string \<rightharpoonup> bytes) \<Rightarrow> bytes option"
  js_String :: "string \<Rightarrow> bytes"

record ('d, 'k, 'h, 'b, 'e, 'w) da_state =
  sb_store :: 'd
  sb_cache :: "('k, 'h, 'b) manager"
  sb_da :: 'w
  sb_envelopeCache :: 'e
  sb_lastSubmittedHeight :: u64
  sb_selector :: AddressSelector
  sb_hints :: "(bytes \<times> u64 \<times> u64 list) list"

record ('d, 'k, 'h, 'b, 'e, 'w, 'p) submit_env =
  sv_cache :: "('d, 'k, 'h, 'b) cache_env"
  sv_node :: "('w, 'p) celestia"
  sv_envelopes :: "('e, bytes) lru"
  sv_json :: json
  sv_headerNamespace :: bytes
  sv_dataNamespace :: bytes
  sv_MaxSubmitAttempts :: int
  sv_BlockTime :: int
  sv_SubmitOptions :: bytes
  sv_MaxBlobSize :: u64
  sv_signingWorkers :: int
  sv_order :: "nat list \<Rightarrow> nat list"

section \<open>Submitting with retries\<close>

text \<open>The result is \<open>None\<close> when the options cannot be encoded.\<close>

definition mergeSubmitOptions :: "json \<Rightarrow> bytes \<Rightarrow> string \<Rightarrow> bytes option" where
  "mergeSubmitOptions J baseOptions signingAddress =
     (if signingAddress = [] then Some baseOptions
      else let optionsMap = (if baseOptions = [] then Map.empty
                             else case js_Unmarshal J baseOptions of Some (Some m) \<Rightarrow> m | _ \<Rightarrow> Map.empty)
           in js_Marshal J (optionsMap(''signer_address'' \<mapsto> js_String J signingAddress)))"

text \<open>How many items fit, from index \<open>i\<close> on.\<close>

fun limit_count :: "u64 \<Rightarrow> u64 \<Rightarrow> nat \<Rightarrow> bytes list \<Rightarrow> submit_error + nat" where
  "limit_count maxBytes tot i [] = Inr 0"
| "limit_count maxBytes tot i (m # ms) =
     (let sz = of_nat (length m) in
      if maxBytes < sz then (if i = 0 then Inl OversizedItem else Inr 0)
      else if maxBytes < tot + sz then Inr 0
      else bindE (limit_count maxBytes (tot + sz) (Suc i) ms) (\<lambda>n. Inr (Suc n)))"

definition limitBatchBySize :: "'a list \<Rightarrow> bytes list \<Rightarrow> u64 \<Rightarrow> submit_error + 'a list \<times> bytes list" where
  "limitBatchBySize items marshaled maxBytes =
     bindE (limit_count maxBytes 0 0 marshaled) (\<lambda>count.
       if count = 0 then Inl NoItemsFit else Inr (take count items, take count marshaled))"

text \<open>One attempt of the retry loop: it ends the loop, or goes on for a reason with the items that are left. The client
  reports as submitted exactly the blobs it was given (\<open>Client_Submit_success\<close>); a larger count is an error here.\<close>

definition submit_attempt ::
  "('d, 'k, 'h, 'b, 'e, 'w, 'p) submit_env \<Rightarrow>
    (('d, 'k, 'h, 'b, 'e, 'w) da_state \<Rightarrow> 'a list \<Rightarrow> ResultSubmit \<Rightarrow> ('d, 'k, 'h, 'b, 'e, 'w) da_state) \<Rightarrow> bytes \<Rightarrow> bytes \<Rightarrow>
    'a list \<Rightarrow> bytes list \<Rightarrow> ('d, 'k, 'h, 'b, 'e, 'w) da_state \<Rightarrow>
    ('d, 'k, 'h, 'b, 'e, 'w) da_state \<times> (submit_error option + retryReason \<times> 'a list \<times> bytes list)" where
  "submit_attempt V post namespace mergedOptions items marshaled s =
     (let (w, res) = Client_Submit (sv_node V) (sv_MaxBlobSize V) (sb_da s) marshaled namespace mergedOptions;
          s = s\<lparr>sb_da := w\<rparr> in
      case rs_Code res of
        StatusSuccess \<Rightarrow>
          let c = unat (rs_SubmittedCount res) in
          if length items < c then (s, Inl (Some PanicSlice))
          else if c = length items then (post s (take c items) res, Inl None)
          else (post s (take c items) res, Inr (reasonSuccess, drop c items, drop c marshaled))
      | StatusTooBig \<Rightarrow>
          if length items = 1 then (s, Inl (Some OversizedItem))
          else let half = (if length items div 2 = 0 then 1 else length items div 2) in
            if length items < half then (s, Inl (Some PanicSlice))
            else (s, Inr (reasonTooBig, take half items, take half marshaled))
      | StatusNotIncludedInBlock \<Rightarrow> (s, Inr (reasonMempool, items, marshaled))
      | StatusAlreadyInMempool \<Rightarrow> (s, Inr (reasonMempool, items, marshaled))
      | StatusContextCanceled \<Rightarrow> (s, Inl (Some Canceled))
      | _ \<Rightarrow> (s, Inr (reasonFailure, items, marshaled)))"

function submit_loop ::
  "('d, 'k, 'h, 'b, 'e, 'w, 'p) submit_env \<Rightarrow> (nat \<Rightarrow> int \<Rightarrow> bool) \<Rightarrow> retryPolicy \<Rightarrow>
    (('d, 'k, 'h, 'b, 'e, 'w) da_state \<Rightarrow> 'a list \<Rightarrow> ResultSubmit \<Rightarrow> ('d, 'k, 'h, 'b, 'e, 'w) da_state) \<Rightarrow> bytes \<Rightarrow> retryState \<Rightarrow>
    'a list \<Rightarrow> bytes list \<Rightarrow> ('d, 'k, 'h, 'b, 'e, 'w) da_state \<Rightarrow> ('d, 'k, 'h, 'b, 'e, 'w) da_state \<times> submit_error option" where
  "submit_loop V ctx pol post namespace rs items marshaled s =
     (if po_MaxAttempts pol \<le> int (ry_Attempt rs) then (s, Some (AttemptsExhausted (ry_Attempt rs)))
      else if ctx (ry_Attempt rs) (ry_Backoff rs) then (s, Some BackoffCancelled)
      else case Selector_Next (sb_selector s) of
        None \<Rightarrow> (s, Some PanicNoAddress)
      | Some (selector, signingAddress) \<Rightarrow>
          let s = s\<lparr>sb_selector := selector\<rparr> in
          case mergeSubmitOptions (sv_json V) (sv_SubmitOptions V) signingAddress of
            None \<Rightarrow> (s, Some MergeOptions)
          | Some mergedOptions \<Rightarrow>
              (case submit_attempt V post namespace mergedOptions items marshaled s of
                 (s, Inl r) \<Rightarrow> (s, r)
               | (s, Inr (reason, items, marshaled)) \<Rightarrow>
                   submit_loop V ctx pol post namespace (Retry_Next reason pol rs) items marshaled s))"
  by pat_completeness auto
termination
  by (relation "measure (\<lambda>(V, ctx, pol, post, ns, rs, items, ms, s). nat (po_MaxAttempts pol - int (ry_Attempt rs)))")
    (auto simp: Retry_Next_def)

declare submit_loop.simps [simp del]

definition submitToDA ::
  "('d, 'k, 'h, 'b, 'e, 'w, 'p) submit_env \<Rightarrow> (nat \<Rightarrow> int \<Rightarrow> bool) \<Rightarrow>
    (('d, 'k, 'h, 'b, 'e, 'w) da_state \<Rightarrow> 'a list \<Rightarrow> ResultSubmit \<Rightarrow> ('d, 'k, 'h, 'b, 'e, 'w) da_state) \<Rightarrow> bytes \<Rightarrow>
    'a list \<Rightarrow> bytes list \<Rightarrow> ('d, 'k, 'h, 'b, 'e, 'w) da_state \<Rightarrow> ('d, 'k, 'h, 'b, 'e, 'w) da_state \<times> submit_error option" where
  "submitToDA V ctx post namespace items marshaled s =
     (if length items \<noteq> length marshaled then (s, Some (LengthMismatch (length items) (length marshaled)))
      else let pol = defaultRetryPolicy (sv_MaxBlobSize V) (sv_MaxSubmitAttempts V) (sv_BlockTime V);
               rs = \<lparr>ry_Attempt = 0, ry_Backoff = 0\<rparr> in
        if marshaled = [] then submit_loop V ctx pol post namespace rs items marshaled s
        else case limitBatchBySize items marshaled (po_MaxBlobBytes pol) of
          Inl e \<Rightarrow> (s, Some e)
        | Inr (batchItems, batchMarshaled) \<Rightarrow> submit_loop V ctx pol post namespace rs batchItems batchMarshaled s)"

section \<open>Headers\<close>

definition getCachedEnvelope ::
  "('d, 'k, 'h, 'b, 'e, 'w, 'p) submit_env \<Rightarrow> ('d, 'k, 'h, 'b, 'e, 'w) da_state \<Rightarrow> u64 \<Rightarrow> ('d, 'k, 'h, 'b, 'e, 'w) da_state \<times> bytes option" where
  "getCachedEnvelope V s height =
     (if height \<le> sb_lastSubmittedHeight s then (s, None)
      else let (c, r) = lru_Get (sv_envelopes V) (sb_envelopeCache s) height in (s\<lparr>sb_envelopeCache := c\<rparr>, r))"

definition setCachedEnvelope ::
  "('d, 'k, 'h, 'b, 'e, 'w, 'p) submit_env \<Rightarrow> ('d, 'k, 'h, 'b, 'e, 'w) da_state \<Rightarrow> u64 \<Rightarrow> bytes \<Rightarrow> ('d, 'k, 'h, 'b, 'e, 'w) da_state" where
  "setCachedEnvelope V s height envelope =
     (if height \<le> sb_lastSubmittedHeight s then s
      else s\<lparr>sb_envelopeCache := lru_Add (sv_envelopes V) (sb_envelopeCache s) height envelope\<rparr>)"

definition signEnvelope :: "('d, 'k) store_env \<Rightarrow> 'k signer \<Rightarrow> 'k SignedHeader \<Rightarrow> bytes \<Rightarrow> submit_error + bytes" where
  "signEnvelope E signer header marshalledHeader =
     bindE (mapE SignerAddressError (sn_GetAddress signer)) (\<lambda>addr.
       if sg_Address (sh_Signer header) \<noteq> [] \<and> addr \<noteq> sg_Address (sh_Signer header) then Inl SignerMismatch
       else bindE (mapE SignError (sn_Sign signer marshalledHeader)) (\<lambda>envelopeSignature.
         mapE EnvelopeError (MarshalDAEnvelope (s_crypto E) (s_codec E) (s_wire E) header envelopeSignature)))"

definition signAndCacheEnvelope ::
  "('d, 'k, 'h, 'b, 'e, 'w, 'p) submit_env \<Rightarrow> 'k signer \<Rightarrow> ('d, 'k, 'h, 'b, 'e, 'w) da_state \<Rightarrow> 'k SignedHeader \<Rightarrow> bytes \<Rightarrow>
    ('d, 'k, 'h, 'b, 'e, 'w) da_state \<times> (submit_error + bytes)" where
  "signAndCacheEnvelope V signer s header marshalledHeader =
     (case signEnvelope (cv_store (sv_cache V)) signer header marshalledHeader of
        Inl e \<Rightarrow> (s, Inl e)
      | Inr envelope \<Rightarrow> (setCachedEnvelope V s (Header_Height (sh_Header header)) envelope, Inr envelope))"

fun cachedEnvelopes ::
  "('d, 'k, 'h, 'b, 'e, 'w, 'p) submit_env \<Rightarrow> 'k SignedHeader list \<Rightarrow> ('d, 'k, 'h, 'b, 'e, 'w) da_state \<Rightarrow>
    ('d, 'k, 'h, 'b, 'e, 'w) da_state \<times> bytes option list" where
  "cachedEnvelopes V [] s = (s, [])"
| "cachedEnvelopes V (header # headers) s =
     (let (s, r) = getCachedEnvelope V s (Header_Height (sh_Header header));
          (s, rs) = cachedEnvelopes V headers s
      in (s, r # rs))"

text \<open>One job: the envelope of the header at an index. Sequential signing stops at the first error; the workers sign
  every header, and the first error to arrive is reported.\<close>

definition sign_job ::
  "('d, 'k, 'h, 'b, 'e, 'w, 'p) submit_env \<Rightarrow> 'k signer \<Rightarrow> 'k SignedHeader list \<Rightarrow> bytes list \<Rightarrow> nat \<Rightarrow>
    ('d, 'k, 'h, 'b, 'e, 'w) da_state \<times> bytes option list \<Rightarrow> (('d, 'k, 'h, 'b, 'e, 'w) da_state \<times> bytes option list) \<times> submit_error option" where
  "sign_job V signer headers marshalledHeaders i st =
     (case signAndCacheEnvelope V signer (fst st) (headers ! i) (marshalledHeaders ! i) of
        (s, Inl e) \<Rightarrow> ((s, snd st), Some e)
      | (s, Inr envelope) \<Rightarrow> ((s, (snd st)[i := Some envelope]), None))"

fun signEnvelopesParallel ::
  "('d, 'k, 'h, 'b, 'e, 'w, 'p) submit_env \<Rightarrow> 'k signer \<Rightarrow> 'k SignedHeader list \<Rightarrow> bytes list \<Rightarrow> nat list \<Rightarrow>
    ('d, 'k, 'h, 'b, 'e, 'w) da_state \<times> bytes option list \<Rightarrow> submit_error option \<Rightarrow>
    (('d, 'k, 'h, 'b, 'e, 'w) da_state \<times> bytes option list) \<times> submit_error option" where
  "signEnvelopesParallel V signer headers marshalledHeaders [] st firstErr = (st, firstErr)"
| "signEnvelopesParallel V signer headers marshalledHeaders (i # jobs) st firstErr =
     (let (st, e) = sign_job V signer headers marshalledHeaders i st
      in signEnvelopesParallel V signer headers marshalledHeaders jobs st (if firstErr = None then e else firstErr))"

definition createDAEnvelopes ::
  "('d, 'k, 'h, 'b, 'e, 'w, 'p) submit_env \<Rightarrow> 'k signer \<Rightarrow> ('d, 'k, 'h, 'b, 'e, 'w) da_state \<Rightarrow> 'k SignedHeader list \<Rightarrow> bytes list \<Rightarrow>
    ('d, 'k, 'h, 'b, 'e, 'w) da_state \<times> (submit_error + bytes list)" where
  "createDAEnvelopes V signer s headers marshalledHeaders =
     (let (s, envelopes) = cachedEnvelopes V headers s;
          needSigning = filter (\<lambda>i. envelopes ! i = None) [0..<length headers] in
      if needSigning = [] then (s, Inr (map obytes envelopes))
      else case (if length needSigning \<le> 2 \<or> sv_signingWorkers V \<le> 1
                 then run_body (sign_job V signer headers marshalledHeaders) needSigning (s, envelopes)
                 else signEnvelopesParallel V signer headers marshalledHeaders (sv_order V needSigning) (s, envelopes) None) of
        ((s, envelopes), Some e) \<Rightarrow> (s, Inl e)
      | ((s, envelopes), None) \<Rightarrow> (s, Inr (map obytes envelopes)))"

definition hash_string :: "('d, 'k) store_env \<Rightarrow> 'k SignedHeader \<Rightarrow> string" where
  "hash_string E header = s_hashString E (Header_Hash (s_crypto E) (s_codec E) (s_wire E) (sh_Header header))"

definition postHeaders ::
  "('d, 'k, 'h, 'b, 'e, 'w, 'p) submit_env \<Rightarrow> ('d, 'k, 'h, 'b, 'e, 'w) da_state \<Rightarrow> 'k SignedHeader list \<Rightarrow> ResultSubmit \<Rightarrow>
    ('d, 'k, 'h, 'b, 'e, 'w) da_state" where
  "postHeaders V s submitted res =
     (let heights = map (\<lambda>header. Header_Height (sh_Header header)) submitted;
          cache = fold (\<lambda>header m. SetHeaderDAIncluded m (hash_string (cv_store (sv_cache V)) header) (rs_Height res)
                            (Header_Height (sh_Header header))) submitted (sb_cache s);
          s = s\<lparr>sb_cache := cache, sb_hints := sb_hints s @ [(sv_headerNamespace V, rs_Height res, heights)]\<rparr>
      in if submitted = [] then s
         else let (d, m) = SetLastSubmittedHeaderHeight (sv_cache V) (sb_store s) (sb_cache s) (last heights)
              in s\<lparr>sb_store := d, sb_cache := m, sb_lastSubmittedHeight := last heights\<rparr>)"

definition SubmitHeaders ::
  "('d, 'k, 'h, 'b, 'e, 'w, 'p) submit_env \<Rightarrow> (nat \<Rightarrow> int \<Rightarrow> bool) \<Rightarrow> ('d, 'k, 'h, 'b, 'e, 'w) da_state \<Rightarrow> 'k SignedHeader list \<Rightarrow> bytes list \<Rightarrow>
    'k signer option \<Rightarrow> ('d, 'k, 'h, 'b, 'e, 'w) da_state \<times> submit_error option" where
  "SubmitHeaders V ctx s headers marshalledHeaders signer =
     (if headers = [] then (s, None)
      else case signer of
        None \<Rightarrow> (s, Some NoSigner)
      | Some signer \<Rightarrow>
          if length marshalledHeaders \<noteq> length headers
          then (s, Some (LengthMismatch (length marshalledHeaders) (length headers)))
          else case createDAEnvelopes V signer s headers marshalledHeaders of
            (s, Inl e) \<Rightarrow> (s, Some e)
          | (s, Inr envelopes) \<Rightarrow> submitToDA V ctx (postHeaders V) (sv_headerNamespace V) headers envelopes s)"

section \<open>Data\<close>

definition signOne :: "('d, 'k) store_env \<Rightarrow> 'k signer \<Rightarrow> 'k Signer \<Rightarrow> 'k SignedData \<times> bytes \<Rightarrow> submit_error + 'k SignedData \<times> bytes" where
  "signOne E signer signerInfo p =
     bindE (mapE SignError (sn_Sign signer (snd p))) (\<lambda>signature.
       let signedData = \<lparr>sd_Data = sd_Data (fst p), sd_Signature = signature, sd_Signer = signerInfo\<rparr>
       in bindE (mapE DataMarshalError (SignedData_MarshalBinary (s_crypto E) (s_codec E) signedData)) (\<lambda>bz.
            Inr (signedData, bz)))"

definition signData :: "('d, 'k) store_env \<Rightarrow> 'k signer option \<Rightarrow> 'k SignedData list \<Rightarrow> bytes list \<Rightarrow>
    submit_error + ('k SignedData \<times> bytes) list" where
  "signData E signer unsignedDataList unsignedDataListBz =
     (case signer of
        None \<Rightarrow> Inl NoSigner
      | Some signer \<Rightarrow>
          bindE (mapE SignerPublicError (sn_GetPublic signer)) (\<lambda>pubKey.
          bindE (mapE SignerAddressError (sn_GetAddress signer)) (\<lambda>addr.
            traverse (signOne E signer \<lparr>sg_PubKey = Some pubKey, sg_Address = addr, sg_marshalledPubKey = []\<rparr>)
              (filter (\<lambda>p. d_Txs (sd_Data (fst p)) \<noteq> []) (zip unsignedDataList unsignedDataListBz)))))"

text \<open>Data that is pending has metadata: \<open>fetchData\<close> has read its height.\<close>

definition signed_height :: "'k SignedData \<Rightarrow> u64" where
  "signed_height sd = (case Data_Height (sd_Data sd) of None \<Rightarrow> 0 | Some n \<Rightarrow> n)"

definition commitment_string :: "('d, 'k) store_env \<Rightarrow> Data \<Rightarrow> string" where
  "commitment_string E data = s_hashString E (DACommitment (s_crypto E) (s_codec E) data)"

definition postData ::
  "('d, 'k, 'h, 'b, 'e, 'w, 'p) submit_env \<Rightarrow> ('d, 'k, 'h, 'b, 'e, 'w) da_state \<Rightarrow> 'k SignedData list \<Rightarrow> ResultSubmit \<Rightarrow>
    ('d, 'k, 'h, 'b, 'e, 'w) da_state" where
  "postData V s submitted res =
     (let heights = map signed_height submitted;
          cache = fold (\<lambda>sd m. SetDataDAIncluded m (commitment_string (cv_store (sv_cache V)) (sd_Data sd)) (rs_Height res)
                            (signed_height sd)) submitted (sb_cache s);
          s = s\<lparr>sb_cache := cache, sb_hints := sb_hints s @ [(sv_dataNamespace V, rs_Height res, heights)]\<rparr>
      in if submitted = [] then s
         else let (d, m) = SetLastSubmittedDataHeight (sv_cache V) (sb_store s) (sb_cache s) (last heights)
              in s\<lparr>sb_store := d, sb_cache := m\<rparr>)"

definition SubmitData ::
  "('d, 'k, 'h, 'b, 'e, 'w, 'p) submit_env \<Rightarrow> (nat \<Rightarrow> int \<Rightarrow> bool) \<Rightarrow> ('d, 'k, 'h, 'b, 'e, 'w) da_state \<Rightarrow> 'k SignedData list \<Rightarrow> bytes list \<Rightarrow>
    'k signer option \<Rightarrow> ('d, 'k, 'h, 'b, 'e, 'w) da_state \<times> submit_error option" where
  "SubmitData V ctx s unsignedDataList marshalledData signer =
     (if unsignedDataList = [] then (s, None)
      else if length marshalledData \<noteq> length unsignedDataList
      then (s, Some (LengthMismatch (length marshalledData) (length unsignedDataList)))
      else case signData (cv_store (sv_cache V)) signer unsignedDataList marshalledData of
        Inl e \<Rightarrow> (s, Some e)
      | Inr signedList \<Rightarrow>
          if signedList = [] then (s, None)
          else submitToDA V ctx (postData V) (sv_dataNamespace V) (map fst signedList) (map snd signedList) s)"

end
