(* ===== verification/Batching.thy ===== *)
theory Batching
  imports Prelude
begin

text \<open>
  The batching strategies of DA submission (\<open>block/internal/submitting/batching_strategy.go\<close>). A \<open>float64\<close> is \<open>F64 m e\<close>,
  the number \<open>m * 2 ^ e\<close>; a product is rounded to 53 bits, ties to even. Thresholds and sizes stay far from the ends of the exponent
  range, infinities and NaN are left out. Durations are integers, in nanoseconds.
\<close>

section \<open>Floating point\<close>

datatype f64 = F64 int int

fun bit_length :: "nat \<Rightarrow> nat" where
  "bit_length n = (if n = 0 then 0 else Suc (bit_length (n div 2)))"

declare bit_length.simps [simp del]

definition round_even :: "nat \<Rightarrow> nat \<Rightarrow> nat" where
  "round_even k m =
     (let q = m div 2 ^ k; r = m mod 2 ^ k
      in if 2 ^ k < 2 * r \<or> 2 ^ k = 2 * r \<and> odd q then Suc q else q)"

definition f64_round :: "int \<Rightarrow> int \<Rightarrow> f64" where
  "f64_round m e =
     (let k = bit_length (nat \<bar>m\<bar>) - 53
      in if k = 0 then F64 m e else F64 (sgn m * int (round_even k (nat \<bar>m\<bar>))) (e + int k))"

definition f64_of_u64 :: "u64 \<Rightarrow> f64" where
  "f64_of_u64 n = f64_round (int (unat n)) 0"

fun f64_mul :: "f64 \<Rightarrow> f64 \<Rightarrow> f64" where
  "f64_mul (F64 m e) (F64 m' e') = f64_round (m * m') (e + e')"

fun f64_to_u64 :: "f64 \<Rightarrow> u64" where
  "f64_to_u64 (F64 m e) = (if 0 \<le> e then word_of_int (m * 2 ^ nat e) else word_of_int (m div 2 ^ nat (- e)))"

fun f64_not_positive :: "f64 \<Rightarrow> bool" where
  "f64_not_positive (F64 m e) \<longleftrightarrow> m \<le> 0"

fun f64_above_one :: "f64 \<Rightarrow> bool" where
  "f64_above_one (F64 m e) \<longleftrightarrow> (if 0 \<le> e then 1 < m * 2 ^ nat e else 2 ^ nat (- e) < m)"

text \<open>The constant \<open>0.8\<close>.\<close>

definition f64_0_8 :: f64 where
  "f64_0_8 = F64 7205759403792794 (- 53)"

section \<open>Strategies\<close>

datatype BatchingStrategy =
    ImmediateStrategy
  | SizeBasedStrategy f64 u64
  | TimeBasedStrategy int u64
  | AdaptiveStrategy f64 int u64

definition defaultThreshold :: "f64 \<Rightarrow> f64" where
  "defaultThreshold sizeThreshold =
     (if f64_not_positive sizeThreshold \<or> f64_above_one sizeThreshold then f64_0_8 else sizeThreshold)"

definition defaultMinItems :: "u64 \<Rightarrow> u64" where
  "defaultMinItems minItems = (if minItems = 0 then 1 else minItems)"

definition NewSizeBasedStrategy :: "f64 \<Rightarrow> u64 \<Rightarrow> BatchingStrategy" where
  "NewSizeBasedStrategy sizeThreshold minItems =
     SizeBasedStrategy (defaultThreshold sizeThreshold) (defaultMinItems minItems)"

definition NewTimeBasedStrategy :: "int \<Rightarrow> int \<Rightarrow> u64 \<Rightarrow> BatchingStrategy" where
  "NewTimeBasedStrategy daBlockTime maxDelay minItems =
     TimeBasedStrategy (if maxDelay = 0 then daBlockTime else maxDelay) (defaultMinItems minItems)"

definition NewAdaptiveStrategy :: "int \<Rightarrow> f64 \<Rightarrow> int \<Rightarrow> u64 \<Rightarrow> BatchingStrategy" where
  "NewAdaptiveStrategy daBlockTime sizeThreshold maxDelay minItems =
     AdaptiveStrategy (defaultThreshold sizeThreshold) (if maxDelay = 0 then daBlockTime else maxDelay)
       (defaultMinItems minItems)"

record batching_config =
  bc_BatchingStrategy :: string
  bc_BatchSizeThreshold :: f64
  bc_BlockTime :: int
  bc_BatchMaxDelay :: int
  bc_BatchMinItems :: u64

definition NewBatchingStrategy :: "batching_config \<Rightarrow> BatchingStrategy option" where
  "NewBatchingStrategy cfg =
     (if bc_BatchingStrategy cfg = ''immediate'' then Some ImmediateStrategy
      else if bc_BatchingStrategy cfg = ''size''
      then Some (NewSizeBasedStrategy (bc_BatchSizeThreshold cfg) (bc_BatchMinItems cfg))
      else if bc_BatchingStrategy cfg = ''time''
      then Some (NewTimeBasedStrategy (bc_BlockTime cfg) (bc_BatchMaxDelay cfg) (bc_BatchMinItems cfg))
      else if bc_BatchingStrategy cfg = ''adaptive''
      then Some (NewAdaptiveStrategy (bc_BlockTime cfg) (bc_BatchSizeThreshold cfg) (bc_BatchMaxDelay cfg) (bc_BatchMinItems cfg))
      else None)"

definition sizeLimit :: "u64 \<Rightarrow> f64 \<Rightarrow> u64" where
  "sizeLimit maxBlobSize sizeThreshold = f64_to_u64 (f64_mul (f64_of_u64 maxBlobSize) sizeThreshold)"

fun ShouldSubmit :: "BatchingStrategy \<Rightarrow> u64 \<Rightarrow> u64 \<Rightarrow> u64 \<Rightarrow> int \<Rightarrow> bool" where
  "ShouldSubmit ImmediateStrategy pendingCount totalSize maxBlobSize timeSinceLastSubmit \<longleftrightarrow> 0 < pendingCount"
| "ShouldSubmit (SizeBasedStrategy sizeThreshold minItems) pendingCount totalSize maxBlobSize timeSinceLastSubmit \<longleftrightarrow>
     minItems \<le> pendingCount \<and> sizeLimit maxBlobSize sizeThreshold \<le> totalSize"
| "ShouldSubmit (TimeBasedStrategy maxDelay minItems) pendingCount totalSize maxBlobSize timeSinceLastSubmit \<longleftrightarrow>
     minItems \<le> pendingCount \<and> maxDelay \<le> timeSinceLastSubmit"
| "ShouldSubmit (AdaptiveStrategy sizeThreshold maxDelay minItems) pendingCount totalSize maxBlobSize timeSinceLastSubmit \<longleftrightarrow>
     minItems \<le> pendingCount \<and> (sizeLimit maxBlobSize sizeThreshold \<le> totalSize \<or> maxDelay \<le> timeSinceLastSubmit)"

text \<open>A strategy made from a configuration never asks for an empty batch.\<close>

lemma defaultMinItems_pos: "0 < defaultMinItems n"
  by (simp add: defaultMinItems_def word_gt_0)

lemma ShouldSubmit_nonempty:
  "\<lbrakk>NewBatchingStrategy cfg = Some st; ShouldSubmit st count tot mx t\<rbrakk> \<Longrightarrow> 0 < count"
  using defaultMinItems_pos [of "bc_BatchMinItems cfg"]
  by (auto simp: NewBatchingStrategy_def NewSizeBasedStrategy_def NewTimeBasedStrategy_def NewAdaptiveStrategy_def
      split: if_splits dest: order.strict_trans2)

end
