(* ===== verification/Submitter.thy ===== *)
theory Submitter
  imports DA_Submitter Batching
begin

text \<open>
  The submitter (\<open>block/internal/submitting/submitter.go\<close>): when headers and data are handed to the DA submitter, and how
  far the chain is included in the DA layer. The submissions of headers and of data run in goroutines, each kind at most
  once at a time; one submission is one step. The clock, whether the context ends during a wait and the moment a
  submission completes are arguments. Errors sent to the error channel are recorded, logged ones are dropped.
\<close>

section \<open>State\<close>

datatype inclusion_error =
    HeaderNotCached u64
  | DataNotCached u64
  | InclusionStore store_error
  | FinalFailed string
  | FinalCancelled

record ('d, 'k, 'h, 'b, 'e, 'w, 'x, 'q) Submitter =
  sm_da :: "('d, 'k, 'h, 'b, 'e, 'w) da_state"
  sm_exec :: 'x
  sm_sequencer :: 'q
  sm_daIncludedHeight :: u64
  sm_lastHeaderSubmit :: int
  sm_lastDataSubmit :: int
  sm_errors :: "submit_error list"
  sm_started :: bool

record ('d, 'k, 'h, 'b, 'e, 'w, 'p, 'x, 'q) submitter_env =
  sx_submit :: "('d, 'k, 'h, 'b, 'e, 'w, 'p) submit_env"
  sx_exec :: "'x exec_layer"
  sx_sequencer :: "'q sequencer option"
  sx_signer :: "'k signer option"
  sx_strategy :: BatchingStrategy

abbreviation sx_store :: "('d, 'k, 'h, 'b, 'e, 'w, 'p, 'x, 'q) submitter_env \<Rightarrow> ('d, 'k) store_env" where
  "sx_store V \<equiv> cv_store (sv_cache (sx_submit V))"

definition strategyOf :: "batching_config \<Rightarrow> BatchingStrategy" where
  "strategyOf cfg = (case NewBatchingStrategy cfg of Some st \<Rightarrow> st | None \<Rightarrow> NewTimeBasedStrategy (bc_BlockTime cfg) 0 1)"

definition NewSubmitter :: "('d, 'k, 'h, 'b, 'e, 'w) da_state \<Rightarrow> 'x \<Rightarrow> 'q \<Rightarrow> int \<Rightarrow> ('d, 'k, 'h, 'b, 'e, 'w, 'x, 'q) Submitter" where
  "NewSubmitter da x q now =
     \<lparr>sm_da = da, sm_exec = x, sm_sequencer = q, sm_daIncludedHeight = 0, sm_lastHeaderSubmit = now,
      sm_lastDataSubmit = now, sm_errors = [], sm_started = False\<rparr>"

definition initializeDAIncludedHeight ::
  "('d, 'k, 'h, 'b, 'e, 'w, 'p, 'x, 'q) submitter_env \<Rightarrow> ('d, 'k, 'h, 'b, 'e, 'w, 'x, 'q) Submitter \<Rightarrow> ('d, 'k, 'h, 'b, 'e, 'w, 'x, 'q) Submitter" where
  "initializeDAIncludedHeight V s =
     (case GetMetadata (sx_store V) (sb_store (sm_da s)) DAIncludedHeightKey of
        Inl e \<Rightarrow> s
      | Inr height \<Rightarrow> if length height = 8 then s\<lparr>sm_daIncludedHeight := Uint64_LE height\<rparr> else s)"

text \<open>\<open>False\<close> is the error of a submitter that has been started before.\<close>

definition Submitter_Start ::
  "('d, 'k, 'h, 'b, 'e, 'w, 'p, 'x, 'q) submitter_env \<Rightarrow> ('d, 'k, 'h, 'b, 'e, 'w, 'x, 'q) Submitter \<Rightarrow> ('d, 'k, 'h, 'b, 'e, 'w, 'x, 'q) Submitter \<times> bool" where
  "Submitter_Start V s =
     (if sm_started s then (s, False) else (initializeDAIncludedHeight V (s\<lparr>sm_started := True\<rparr>), True))"

section \<open>Submission\<close>

definition total_size :: "bytes list \<Rightarrow> u64" where
  "total_size marshalled = fold (\<lambda>bz n. n + of_nat (length bz)) marshalled 0"

text \<open>After a submission: an item that is too big halts the node, another error is only logged, and a success moves the
  time of the last submission.\<close>

definition after_submit ::
  "((int \<Rightarrow> int) \<Rightarrow> ('d, 'k, 'h, 'b, 'e, 'w, 'x, 'q) Submitter \<Rightarrow> ('d, 'k, 'h, 'b, 'e, 'w, 'x, 'q) Submitter) \<Rightarrow> int \<Rightarrow>
    ('d, 'k, 'h, 'b, 'e, 'w, 'x, 'q) Submitter \<Rightarrow> submit_error option \<Rightarrow> ('d, 'k, 'h, 'b, 'e, 'w, 'x, 'q) Submitter" where
  "after_submit upd fin s r =
     (case r of
        None \<Rightarrow> upd (\<lambda>_. fin) s
      | Some e \<Rightarrow> if e = OversizedItem then s\<lparr>sm_errors := sm_errors s @ [e]\<rparr> else s)"

definition submitHeadersTick ::
  "('d, 'k, 'h, 'b, 'e, 'w, 'p, 'x, 'q) submitter_env \<Rightarrow> (nat \<Rightarrow> int \<Rightarrow> bool) \<Rightarrow> int \<Rightarrow> int \<Rightarrow> ('d, 'k, 'h, 'b, 'e, 'w, 'x, 'q) Submitter \<Rightarrow>
    ('d, 'k, 'h, 'b, 'e, 'w, 'x, 'q) Submitter option" where
  "submitHeadersTick V ctx now fin s =
     (let U = sx_submit V; da = sm_da s in
      if NumPendingHeaders (sv_cache U) (sb_store da) (sb_cache da) = 0 then Some s
      else case Manager_GetPendingHeaders (sv_cache U) (sb_store da) (sb_cache da) of
        None \<Rightarrow> None
      | Some (m, Inl e) \<Rightarrow> Some (s\<lparr>sm_da := da\<lparr>sb_cache := m\<rparr>\<rparr>)
      | Some (m, Inr (headers, marshalledHeaders)) \<Rightarrow>
          Some (let da = da\<lparr>sb_cache := m\<rparr> in
            if ShouldSubmit (sx_strategy V) (of_nat (length headers)) (total_size marshalledHeaders) (sv_MaxBlobSize U)
                 (now - sm_lastHeaderSubmit s)
            then (let (da, r) = SubmitHeaders U ctx da headers marshalledHeaders (sx_signer V)
                  in after_submit sm_lastHeaderSubmit_update fin (s\<lparr>sm_da := da\<rparr>) r)
            else s\<lparr>sm_da := da\<rparr>))"

definition submitDataTick ::
  "('d, 'k, 'h, 'b, 'e, 'w, 'p, 'x, 'q) submitter_env \<Rightarrow> (nat \<Rightarrow> int \<Rightarrow> bool) \<Rightarrow> int \<Rightarrow> int \<Rightarrow> ('d, 'k, 'h, 'b, 'e, 'w, 'x, 'q) Submitter \<Rightarrow>
    ('d, 'k, 'h, 'b, 'e, 'w, 'x, 'q) Submitter option" where
  "submitDataTick V ctx now fin s =
     (let U = sx_submit V; da = sm_da s in
      case NumPendingData (sv_cache U) (sb_store da) (sb_cache da) of
        None \<Rightarrow> None
      | Some ((d, m), Inl e) \<Rightarrow> Some (s\<lparr>sm_da := da\<lparr>sb_store := d, sb_cache := m\<rparr>\<rparr>)
      | Some ((d, m), Inr dataNb) \<Rightarrow>
          let da = da\<lparr>sb_store := d, sb_cache := m\<rparr> in
          if dataNb = 0 then Some (s\<lparr>sm_da := da\<rparr>)
          else case GetPendingData (sv_cache U) d m of
            None \<Rightarrow> None
          | Some (m, Inl e) \<Rightarrow> Some (s\<lparr>sm_da := da\<lparr>sb_cache := m\<rparr>\<rparr>)
          | Some (m, Inr (signedDataList, marshalledData)) \<Rightarrow>
              Some (let da = da\<lparr>sb_cache := m\<rparr> in
                if ShouldSubmit (sx_strategy V) (of_nat (length signedDataList)) (total_size marshalledData) (sv_MaxBlobSize U)
                     (now - sm_lastDataSubmit s)
                then (let (da, r) = SubmitData U ctx da signedDataList marshalledData (sx_signer V)
                      in after_submit sm_lastDataSubmit_update fin (s\<lparr>sm_da := da\<rparr>) r)
                else s\<lparr>sm_da := da\<rparr>))"

section \<open>Inclusion\<close>

definition putUint64Metadata :: "('d, 'k) store_env \<Rightarrow> 'd \<Rightarrow> string \<Rightarrow> u64 \<Rightarrow> 'd \<times> store_error option" where
  "putUint64Metadata E d key val = SetMetadata E d key (PutUint64_LE val)"

fun setFinal_attempts :: "'x exec_layer \<Rightarrow> (nat \<Rightarrow> bool) \<Rightarrow> 'x \<Rightarrow> u64 \<Rightarrow> nat \<Rightarrow> nat \<Rightarrow> 'x \<times> inclusion_error option" where
  "setFinal_attempts X stopped x nextHeight attempt 0 = (x, None)"
| "setFinal_attempts X stopped x nextHeight attempt (Suc n) =
     (case el_SetFinal X x nextHeight of
        (x, None) \<Rightarrow> (x, None)
      | (x, Some err) \<Rightarrow>
          if attempt = MaxRetriesBeforeHalt then (x, Some (FinalFailed err))
          else if stopped attempt then (x, Some FinalCancelled)
          else setFinal_attempts X stopped x nextHeight (attempt + 1) n)"

definition setFinalWithRetry :: "'x exec_layer \<Rightarrow> (nat \<Rightarrow> bool) \<Rightarrow> 'x \<Rightarrow> u64 \<Rightarrow> 'x \<times> inclusion_error option" where
  "setFinalWithRetry X stopped x nextHeight = setFinal_attempts X stopped x nextHeight 1 MaxRetriesBeforeHalt"

definition IsHeightDAIncluded ::
  "('d, 'k, 'h, 'b, 'e, 'w, 'p, 'x, 'q) submitter_env \<Rightarrow> ('d, 'k, 'h, 'b, 'e, 'w, 'x, 'q) Submitter \<Rightarrow> u64 \<Rightarrow> Data \<Rightarrow> store_error + bool" where
  "IsHeightDAIncluded V s height data =
     (if height \<le> sm_daIncludedHeight s then Inr True
      else bindE (Height (sx_store V) (sb_store (sm_da s))) (\<lambda>currentHeight.
        if currentHeight < height then Inr False
        else let m = sb_cache (sm_da s);
                 headerIncluded = (getDAIncludedByHeight (mg_headerCache m) height \<noteq> None);
                 dataIncluded = (DACommitment (s_crypto (sx_store V)) (s_codec (sx_store V)) data = DataHashForEmptyTxs \<or>
                                 getDAIncludedByHeight (mg_dataCache m) height \<noteq> None)
             in Inr (headerIncluded \<and> dataIncluded)))"

definition store_put ::
  "('d, 'k, 'h, 'b, 'e, 'w, 'p, 'x, 'q) submitter_env \<Rightarrow> string \<Rightarrow> u64 \<Rightarrow> ('d, 'k, 'h, 'b, 'e, 'w, 'x, 'q) Submitter \<Rightarrow>
    ('d, 'k, 'h, 'b, 'e, 'w, 'x, 'q) Submitter \<times> inclusion_error option" where
  "store_put V key val s =
     (let (d, e) = putUint64Metadata (sx_store V) (sb_store (sm_da s)) key val
      in (s\<lparr>sm_da := (sm_da s)\<lparr>sb_store := d\<rparr>\<rparr>, map_option InclusionStore e))"

text \<open>Steps that may fail, one after the other.\<close>

definition and_then :: "'s \<times> 'e option \<Rightarrow> ('s \<Rightarrow> 's \<times> 'e option) \<Rightarrow> 's \<times> 'e option" where
  "and_then r f = (case r of (s, Some e) \<Rightarrow> (s, Some e) | (s, None) \<Rightarrow> f s)"

definition setGenesisDAHeight ::
  "('d, 'k, 'h, 'b, 'e, 'w, 'p, 'x, 'q) submitter_env \<Rightarrow> u64 \<Rightarrow> ('d, 'k, 'h, 'b, 'e, 'w, 'x, 'q) Submitter \<Rightarrow>
    ('d, 'k, 'h, 'b, 'e, 'w, 'x, 'q) Submitter \<times> inclusion_error option" where
  "setGenesisDAHeight V genesisDAIncludedHeight s =
     and_then (store_put V GenesisDAHeightKey genesisDAIncludedHeight s) (\<lambda>s.
       (case sx_sequencer V of
          None \<Rightarrow> s
        | Some Q \<Rightarrow> s\<lparr>sm_sequencer := sqi_SetDAHeight Q (sm_sequencer s) genesisDAIncludedHeight\<rparr>, None))"

definition setNodeHeightToDAHeight ::
  "('d, 'k, 'h, 'b, 'e, 'w, 'p, 'x, 'q) submitter_env \<Rightarrow> u64 \<Rightarrow> Data \<Rightarrow> bool \<Rightarrow> ('d, 'k, 'h, 'b, 'e, 'w, 'x, 'q) Submitter \<Rightarrow>
    ('d, 'k, 'h, 'b, 'e, 'w, 'x, 'q) Submitter \<times> inclusion_error option" where
  "setNodeHeightToDAHeight V height data genesisInclusion s =
     (case getDAIncludedByHeight (mg_headerCache (sb_cache (sm_da s))) height of
        None \<Rightarrow> (s, Some (HeaderNotCached height))
      | Some daHeightForHeader \<Rightarrow>
          and_then (store_put V (GetHeightToDAHeightHeaderKey height) daHeightForHeader s) (\<lambda>s.
            case (if DACommitment (s_crypto (sx_store V)) (s_codec (sx_store V)) data = DataHashForEmptyTxs
                  then Some daHeightForHeader else getDAIncludedByHeight (mg_dataCache (sb_cache (sm_da s))) height) of
              None \<Rightarrow> (s, Some (DataNotCached height))
            | Some dataDAHeight \<Rightarrow>
                and_then (store_put V (GetHeightToDAHeightDataKey height) dataDAHeight s) (\<lambda>s.
                  if genesisInclusion then setGenesisDAHeight V (min dataDAHeight daHeightForHeader) s else (s, None))))"

text \<open>One round of the inner loop of \<open>processDAInclusionLoop\<close>; \<open>False\<close> leaves the loop.\<close>

definition includeNext ::
  "('d, 'k, 'h, 'b, 'e, 'w, 'p, 'x, 'q) submitter_env \<Rightarrow> (nat \<Rightarrow> bool) \<Rightarrow> ('d, 'k, 'h, 'b, 'e, 'w, 'x, 'q) Submitter \<Rightarrow>
    ('d, 'k, 'h, 'b, 'e, 'w, 'x, 'q) Submitter \<times> bool" where
  "includeNext V stopped s =
     (let nextHeight = sm_daIncludedHeight s + 1 in
      case GetBlockData (sx_store V) (sb_store (sm_da s)) nextHeight of
        Inl e \<Rightarrow> (s, False)
      | Inr (header, data) \<Rightarrow>
          if IsHeightDAIncluded V s nextHeight data \<noteq> Inr True then (s, False)
          else case setNodeHeightToDAHeight V nextHeight data (sm_daIncludedHeight s = 0) s of
            (s, Some e) \<Rightarrow> (s, False)
          | (s, None) \<Rightarrow>
              (case setFinalWithRetry (sx_exec V) stopped (sm_exec s) nextHeight of
                 (x, Some e) \<Rightarrow> (s\<lparr>sm_exec := x\<rparr>, False)
               | (x, None) \<Rightarrow>
                   (case store_put V DAIncludedHeightKey nextHeight (s\<lparr>sm_exec := x\<rparr>) of
                      (s, Some e) \<Rightarrow> (s, False)
                    | (s, None) \<Rightarrow>
                        (s\<lparr>sm_daIncludedHeight := nextHeight,
                           sm_da := (sm_da s)\<lparr>sb_cache := DeleteHeight (sb_cache (sm_da s)) nextHeight\<rparr>\<rparr>, True))))"

partial_function (option) inclusionTick ::
  "('d, 'k, 'h, 'b, 'e, 'w, 'p, 'x, 'q) submitter_env \<Rightarrow> (nat \<Rightarrow> bool) \<Rightarrow> ('d, 'k, 'h, 'b, 'e, 'w, 'x, 'q) Submitter \<Rightarrow>
    ('d, 'k, 'h, 'b, 'e, 'w, 'x, 'q) Submitter option" where
  "inclusionTick V stopped s =
     (case includeNext V stopped s of (s', continue) \<Rightarrow> if continue then inclusionTick V stopped s' else Some s')"

end
