(* ===== verification/Spec2Isabelle.thy ===== *)
theory Spec2Isabelle
  imports Epoch Queue_Durability Chain Cached_Store Sequencer_Properties Executor_Properties Replay_Laws Cache_Laws Submitter
begin

text \<open>
  This library models an ev-node rollup node and proves what its parts promise. The program, in Go, is under \<open>src/\<close>;
  file names below are relative to it.

  \<^bold>\<open>The program.\<close> An aggregator node takes transactions into a queue, a sequencer forms batches from the queue and from
  transactions that were forced through the DA layer, the executor turns each batch into a signed block, executes it and
  stores it, and the submitter posts headers and data to the DA layer and marks a height as final once both are there.
  Every node validates blocks against the state of the chain. The parts call each other through Go interfaces; here an
  interface is a record of functions (\<open>datastore\<close>, \<open>lru\<close>, \<open>crypto\<close>, \<open>codec\<close>, \<open>protowire\<close>, \<open>exec_layer\<close>, \<open>celestia\<close>,
  \<open>signer\<close>), and what a part relies on in one is a locale (\<open>datastore_laws\<close>, \<open>lru_laws\<close>, \<open>wire_laws\<close>,
  \<open>block_store\<close>), interpreted on the model's own definitions.

  \<^bold>\<open>Conventions.\<close> A \<open>uint64\<close> is a 64-bit word (\<open>u64\<close>) and wraps as in Go; bytes are lists of 8-bit words; an instant or a
  duration is an integer of nanoseconds, with the wrap-around of \<open>int64\<close> written out where the code can reach it. A Go
  error is the left side of a sum or \<open>Some e\<close>; every early return is a branch. State is passed explicitly: an operation
  returns the changed record of its component, also when it fails. A mutex makes an operation one step; operations
  interleave as sequences of steps. The current time, a context that is cancelled and the order in which Go ranges over a
  map are parameters. Logging, metrics and tracing are left out. \<open>Prelude\<close> has these types, the error monad (\<open>bindE\<close>,
  \<open>check\<close>, \<open>mapE\<close>), byte order, hexadecimal and decimal formatting, and the loops.

  \<^bold>\<open>Loops.\<close> A loop over a list is structural recursion; a loop upward in \<open>uint64\<close> (\<open>for_upto\<close>, and the loops of
  pruning, replaying and invalidation) is a \<open>partial_function\<close> whose value \<open>None\<close> is a loop that does not end, which
  happens exactly when its upper bound is the largest \<open>uint64\<close>; \<open>for_upto_range\<close> shows that it ends below. Retry loops
  recurse on the number of attempts the code allows. No definition uses fuel.

  \<^bold>\<open>Storage.\<close> \<open>Datastore\<close>: the interface of \<open>go-datastore\<close> with two instances, one that never fails and one whose writes
  fail by a schedule. \<open>Block_Store\<close> (\<open>pkg/store/store.go\<close>, \<open>keys.go\<close>, \<open>batch.go\<close>, \<open>kv.go\<close>): blocks, states, signatures and
  metadata under their keys, rollback and pruning; \<open>Store_Laws\<close>: a committed block is read back, rollback and pruning
  remove exactly what they should. \<open>Lru\<close>: the caches of \<open>golang-lru\<close>. \<open>Cached_Store\<close> (\<open>cached_store.go\<close>): cached reads agree
  with the store, queued metadata is persisted by \<open>Close\<close>, and a block that is overwritten stays in the cache.

  \<^bold>\<open>Blocks.\<close> \<open>Block_Types\<close>, \<open>Serialization\<close> and \<open>Validation\<close> (\<open>types/\<close>): headers, data, state, their encodings, hashes and
  checks. \<open>Wire_Laws\<close> states what the encodings rely on in the protobuf runtime; \<open>Protobuf\<close> is that wire format at the
  messages of \<open>proto/evnode/v1\<close> and discharges it. \<open>Chain\<close>: accepted blocks form a chain, a validated header is signed by
  its proposer, headers fix their transactions, and every encoding is read back. \<open>Epoch\<close> (\<open>types/epoch.go\<close>): the epochs
  partition the DA heights.

  \<^bold>\<open>Sequencing.\<close> \<open>Batch_Queue\<close> (\<open>pkg/sequencers/single/queue.go\<close>) with its write-ahead log and \<open>Queue_Durability\<close>: what the
  queue holds after any calls with failing writes, and that \<open>Load\<close> recovers it after a crash at any point.
  \<open>Forced_Inclusion\<close> (\<open>block/internal/da\<close>) and \<open>Forced_Laws\<close>: the retriever returns the ledger's blobs. \<open>Genesis\<close>
  (\<open>pkg/genesis\<close>, \<open>core/execution\<close>). \<open>Sequencers\<close> (\<open>pkg/sequencers\<close>), \<open>Sequencer_Laws\<close> and \<open>Sequencer_Properties\<close>: what the
  single, the based and the solo sequencer deliver, and four ways in which forced transactions are skipped or repeated.

  \<^bold>\<open>Production.\<close> \<open>Executor\<close> (\<open>block/internal/executing\<close>) from initialization to the commit of a block; \<open>Executor_Laws\<close>,
  \<open>Executor_Restart\<close> and \<open>Executor_Properties\<close>: the stored blocks form a chain whatever fails, a restarted node signs only
  the block that was pending, a running node does not. \<open>Replayer\<close> (\<open>block/internal/common/replay.go\<close>) and \<open>Replay_Laws\<close>:
  replaying executes the missing blocks. \<open>Dummy_Executor\<close> (\<open>core/execution/dummy.go\<close>) is the execution layer of the examples.

  \<^bold>\<open>Submission.\<close> \<open>DA_Cache\<close> (\<open>block/internal/cache\<close>): which blocks were seen, which are included in the DA layer and which
  are still to be submitted; \<open>Cache_Laws\<close>: a snapshot brings back what was included, and the pending items are the stored
  blocks after the last submitted one. \<open>DA_Client\<close> (\<open>block/internal/da/client.go\<close>, \<open>pkg/da\<close>): the calls to a Celestia node.
  \<open>Batching\<close>, \<open>DA_Submitter\<close> and \<open>Submitter\<close> (\<open>block/internal/submitting\<close>): when a batch is submitted, the retry loop with
  signing and address selection, and one tick of each loop of the submitting component. A threshold of type
  \<open>float64\<close> is a binary fraction with the rounding of IEEE 754; the product with a blob size is never subnormal.

  \<^bold>\<open>Not modelled.\<close> Third-party code and services are parameters: the datastore, the LRU caches, cryptography, the protobuf
  runtime, \<open>encoding/json\<close>, the raft node, the Celestia node and the execution layer. The synchronisation of full nodes
  (\<open>block/internal/syncing\<close>) consists of goroutines that exchange events over channels with the P2P stack; of it the
  library has the checks that a block must pass and the cache manager it works on. The DA subscriber, the pruner and the
  reaper are timers around operations that are modelled. The adapters to \<open>go-header\<close> and the sync service, P2P, RPC,
  the EVM client and the remote signers are I/O against other systems; configuration, commands, node assembly, scripts,
  tools and telemetry have no state of the protocol.
\<close>

end
